(* ===== verification/Prelude.thy ===== *)
theory Prelude
  imports Complex_Main "HOL-Library.Word" "HOL-Library.AList" "HOL-Library.Sublist"
    "HOL-Library.Char_ord" "HOL-Library.List_Lexorder" "HOL-Library.Multiset"
begin

section \<open>Go strings and the shared lemmas\<close>

text \<open>
  A Go string is a sequence of bytes, so it is a \<^typ>\<open>string\<close> here (a list of 8-bit
  characters) holding the bytes of its UTF-8 text; \<^const>\<open>length\<close> is Go's \<open>len\<close>.
  This theory holds the functions of the Go packages \<open>strings\<close>, \<open>encoding/hex\<close> and
  \<open>strconv\<close> that the plugin calls, the lemmas on them that every component uses, and the
  \<open>named_theorems\<close> collections of the development:
    \<^item> \<open>go_string\<close>: how the string functions act on values of known shape;
    \<^item> \<open>go_eval\<close>: the definitions that a closed term is evaluated with.
  Case mapping covers the ASCII letters and the three code points whose mapping ends in
  ASCII (U+0130 and U+212A under \<open>ToLower\<close>, U+017F and U+212A under \<open>EqualFold\<close>); other
  letters are compared byte by byte. Everything the plugin matches by case is ASCII on one
  side (header names, markers, type tags), for which this is exact.
\<close>

named_theorems go_string
named_theorems go_eval

type_synonym byte = "8 word"

subsection \<open>White space: strings.TrimSpace\<close>

text \<open>The UTF-8 encodings of the code points with Unicode's White\_Space property.\<close>

definition goSpaces :: "string list" where
  "goSpaces = [[CHR 0x09], [CHR 0x0A], [CHR 0x0B], [CHR 0x0C], [CHR 0x0D], [CHR 0x20],
     [CHR 0xC2, CHR 0x85], [CHR 0xC2, CHR 0xA0], [CHR 0xE1, CHR 0x9A, CHR 0x80],
     [CHR 0xE2, CHR 0x80, CHR 0x80], [CHR 0xE2, CHR 0x80, CHR 0x81],
     [CHR 0xE2, CHR 0x80, CHR 0x82], [CHR 0xE2, CHR 0x80, CHR 0x83],
     [CHR 0xE2, CHR 0x80, CHR 0x84], [CHR 0xE2, CHR 0x80, CHR 0x85],
     [CHR 0xE2, CHR 0x80, CHR 0x86], [CHR 0xE2, CHR 0x80, CHR 0x87],
     [CHR 0xE2, CHR 0x80, CHR 0x88], [CHR 0xE2, CHR 0x80, CHR 0x89],
     [CHR 0xE2, CHR 0x80, CHR 0x8A], [CHR 0xE2, CHR 0x80, CHR 0xA8],
     [CHR 0xE2, CHR 0x80, CHR 0xA9], [CHR 0xE2, CHR 0x80, CHR 0xAF],
     [CHR 0xE2, CHR 0x81, CHR 0x9F], [CHR 0xE3, CHR 0x80, CHR 0x80]]"

function trimPrefixes :: "string list \<Rightarrow> string \<Rightarrow> string" where
  "trimPrefixes ws s =
     (case find (\<lambda>w. w \<noteq> [] \<and> prefix w s) ws of
        None \<Rightarrow> s
      | Some w \<Rightarrow> trimPrefixes ws (drop (length w) s))"
  by pat_completeness auto
termination
  by (relation "measure (\<lambda>(ws, s). length s)")
    (auto simp: find_Some_iff prefix_def)

declare trimPrefixes.simps [simp del]

definition TrimSpace :: "string \<Rightarrow> string" where
  "TrimSpace s = rev (trimPrefixes (map rev goSpaces) (rev (trimPrefixes goSpaces s)))"

lemma trimPrefixes_suffix: "suffix (trimPrefixes ws s) s"
proof (induction ws s rule: trimPrefixes.induct)
  case (1 ws s)
  show ?case
  proof (cases "find (\<lambda>w. w \<noteq> [] \<and> prefix w s) ws")
    case None
    then show ?thesis by (simp add: trimPrefixes.simps [of ws s])
  next
    case (Some w)
    with "1" have "suffix (trimPrefixes ws (drop (length w) s)) (drop (length w) s)" by simp
    then have "suffix (trimPrefixes ws (drop (length w) s)) s"
      using suffix_drop suffix_order.trans by blast
    with Some show ?thesis by (simp add: trimPrefixes.simps [of ws s])
  qed
qed

lemma trimPrefixes_none:
  "w \<in> set ws \<Longrightarrow> w \<noteq> [] \<Longrightarrow> \<not> prefix w (trimPrefixes ws s)"
proof (induction ws s rule: trimPrefixes.induct)
  case (1 ws s)
  then show ?case
    by (subst trimPrefixes.simps) (auto split: option.splits simp: find_None_iff)
qed

lemma trimPrefixes_id:
  assumes "\<And>w. w \<in> set ws \<Longrightarrow> w \<noteq> [] \<Longrightarrow> \<not> prefix w s"
  shows "trimPrefixes ws s = s"
proof -
  have "find (\<lambda>w. w \<noteq> [] \<and> prefix w s) ws = None"
    using assms by (auto simp: find_None_iff)
  then show ?thesis by (subst trimPrefixes.simps) simp
qed

lemma TrimSpace_sublist: "sublist (TrimSpace s) s"
proof -
  have "prefix (TrimSpace s) (trimPrefixes goSpaces s)"
    using trimPrefixes_suffix [of "map rev goSpaces" "rev (trimPrefixes goSpaces s)"]
    by (simp add: TrimSpace_def suffix_to_prefix)
  moreover have "suffix (trimPrefixes goSpaces s) s" by (rule trimPrefixes_suffix)
  ultimately show ?thesis
    by (meson prefix_imp_sublist sublist_order.order.trans suffix_imp_sublist)
qed

lemma TrimSpace_id:
  assumes "\<And>w. w \<in> set goSpaces \<Longrightarrow> \<not> prefix w s"
    and "\<And>w. w \<in> set goSpaces \<Longrightarrow> \<not> suffix w s"
  shows "TrimSpace s = s"
proof -
  have l: "trimPrefixes goSpaces s = s" using assms(1) by (intro trimPrefixes_id) auto
  have "trimPrefixes (map rev goSpaces) (rev s) = rev s"
    using assms(2) by (intro trimPrefixes_id) (auto simp: suffix_to_prefix)
  with l show ?thesis by (simp add: TrimSpace_def)
qed

lemma goSpaces_nonempty: "w \<in> set goSpaces \<Longrightarrow> w \<noteq> []"
  by (auto simp: goSpaces_def)

lemma TrimSpace_no_prefix: "w \<in> set goSpaces \<Longrightarrow> \<not> prefix w (TrimSpace s)"
proof
  assume w: "w \<in> set goSpaces" "prefix w (TrimSpace s)"
  have "prefix (TrimSpace s) (trimPrefixes goSpaces s)"
    using trimPrefixes_suffix [of "map rev goSpaces" "rev (trimPrefixes goSpaces s)"]
    by (simp add: TrimSpace_def suffix_to_prefix)
  with w have "prefix w (trimPrefixes goSpaces s)" by (blast intro: prefix_order.trans)
  with w(1) show False using trimPrefixes_none goSpaces_nonempty by blast
qed

lemma TrimSpace_no_suffix: "w \<in> set goSpaces \<Longrightarrow> \<not> suffix w (TrimSpace s)"
proof
  assume w: "w \<in> set goSpaces" "suffix w (TrimSpace s)"
  then have "prefix (rev w) (trimPrefixes (map rev goSpaces) (rev (trimPrefixes goSpaces s)))"
    by (simp add: TrimSpace_def suffix_to_prefix)
  moreover have "rev w \<in> set (map rev goSpaces)" "rev w \<noteq> []"
    using w(1) goSpaces_nonempty by auto
  ultimately show False using trimPrefixes_none by blast
qed

lemma TrimSpace_idem [simp]: "TrimSpace (TrimSpace s) = TrimSpace s"
  by (rule TrimSpace_id) (simp_all add: TrimSpace_no_prefix TrimSpace_no_suffix)

lemma set_TrimSpace: "c \<in> set (TrimSpace s) \<Longrightarrow> c \<in> set s"
  using set_mono_sublist [OF TrimSpace_sublist] by blast

lemma length_TrimSpace: "length (TrimSpace s) \<le> length s"
  by (rule sublist_length_le [OF TrimSpace_sublist])

text \<open>
  A string whose first and last bytes can neither open nor close a space is left alone.
\<close>

definition visibleByte :: "char \<Rightarrow> bool" where
  "visibleByte c \<longleftrightarrow> (of_char c :: nat) > 32 \<and> (of_char c :: nat) < 127"

lemma goSpaces_ends:
  "w \<in> set goSpaces \<Longrightarrow> \<not> visibleByte (hd w) \<and> \<not> visibleByte (last w)"
  by (auto simp: goSpaces_def visibleByte_def)

lemma TrimSpace_visible:
  assumes "s \<noteq> []" "visibleByte (hd s)" "visibleByte (last s)"
  shows "TrimSpace s = s"
proof (rule TrimSpace_id)
  fix w assume w: "w \<in> set goSpaces"
  then have ne: "w \<noteq> []" by (rule goSpaces_nonempty)
  show "\<not> prefix w s"
    using assms(1,2) goSpaces_ends [OF w] ne by (cases w; cases s) auto
  show "\<not> suffix w s"
    using assms(1,3) goSpaces_ends [OF w] ne by (auto simp: suffix_def)
qed

lemma TrimSpace_Nil [simp]: "TrimSpace [] = []"
  by (rule TrimSpace_id) (auto simp: goSpaces_nonempty)


subsection \<open>Case mapping: strings.ToLower, strings.EqualFold\<close>

definition lowerByte :: "char \<Rightarrow> char" where
  "lowerByte c =
     (let n = of_char c :: nat in if 65 \<le> n \<and> n \<le> 90 then char_of (n + 32) else c)"

lemma of_char_lowerByte:
  "(of_char (lowerByte c) :: nat) =
     (if 65 \<le> (of_char c :: nat) \<and> (of_char c :: nat) \<le> 90 then of_char c + 32 else of_char c)"
  by (simp add: lowerByte_def Let_def)

lemma lowerByte_idem [simp]: "lowerByte (lowerByte c) = lowerByte c"
proof (cases "65 \<le> (of_char c :: nat) \<and> (of_char c :: nat) \<le> 90")
  case True
  then have "(of_char (lowerByte c) :: nat) \<ge> 97" by (simp add: of_char_lowerByte)
  then show ?thesis by (simp add: lowerByte_def [of "lowerByte c"] Let_def)
next
  case False
  then have "lowerByte c = c" by (auto simp: lowerByte_def Let_def)
  then show ?thesis by simp
qed

function mapRunes :: "(string \<times> string) list \<Rightarrow> string \<Rightarrow> string" where
  "mapRunes tab [] = []"
| "mapRunes tab (c # s) =
     (case find (\<lambda>(r, t). r \<noteq> [] \<and> prefix r (c # s)) tab of
        None \<Rightarrow> lowerByte c # mapRunes tab s
      | Some (r, t) \<Rightarrow> t @ mapRunes tab (drop (length r) (c # s)))"
  by pat_completeness auto
termination
  by (relation "measure (\<lambda>(tab, s). length s)")
    (auto simp: find_Some_iff prefix_def)

definition ToLower :: "string \<Rightarrow> string" where
  "ToLower = mapRunes [([CHR 0xC4, CHR 0xB0], ''i''), ([CHR 0xE2, CHR 0x84, CHR 0xAA], ''k'')]"

definition foldCase :: "string \<Rightarrow> string" where
  "foldCase = mapRunes [([CHR 0xC5, CHR 0xBF], ''s''), ([CHR 0xE2, CHR 0x84, CHR 0xAA], ''k'')]"

definition EqualFold :: "string \<Rightarrow> string \<Rightarrow> bool" where
  "EqualFold s t \<longleftrightarrow> foldCase s = foldCase t"

definition asciiOnly :: "string \<Rightarrow> bool" where
  "asciiOnly s \<longleftrightarrow> (\<forall>c\<in>set s. (of_char c :: nat) < 128)"

lemma mapRunes_ascii:
  assumes "\<And>r t. (r, t) \<in> set tab \<Longrightarrow> r \<noteq> [] \<and> (of_char (hd r) :: nat) \<ge> 128"
    and "asciiOnly s"
  shows "mapRunes tab s = map lowerByte s"
  using assms(2)
proof (induction s)
  case Nil
  then show ?case by simp
next
  case (Cons c s)
  have "find (\<lambda>(r, t). r \<noteq> [] \<and> prefix r (c # s)) tab = None"
    using assms(1) Cons.prems
    by (fastforce simp: find_None_iff asciiOnly_def neq_Nil_conv)
  with Cons show ?case by (simp add: asciiOnly_def)
qed

lemma ToLower_ascii [go_string]: "asciiOnly s \<Longrightarrow> ToLower s = map lowerByte s"
  unfolding ToLower_def by (rule mapRunes_ascii) auto

lemma foldCase_ascii [go_string]: "asciiOnly s \<Longrightarrow> foldCase s = map lowerByte s"
  unfolding foldCase_def by (rule mapRunes_ascii) auto

lemma ToLower_Nil [simp]: "ToLower [] = []"
  by (simp add: ToLower_def)

lemma EqualFold_refl [simp, intro]: "EqualFold s s"
  by (simp add: EqualFold_def)

lemma EqualFold_sym: "EqualFold s t \<Longrightarrow> EqualFold t s"
  by (simp add: EqualFold_def)

lemma EqualFold_trans [trans]: "EqualFold s t \<Longrightarrow> EqualFold t u \<Longrightarrow> EqualFold s u"
  by (simp add: EqualFold_def)

subsection \<open>Searching, joining, replacing\<close>

text \<open>
  \<open>strings.HasPrefix s p\<close> is \<^term>\<open>prefix p s\<close>, \<open>strings.HasSuffix s p\<close> is
  \<^term>\<open>suffix p s\<close> and \<open>strings.Contains s t\<close> is \<^term>\<open>sublist t s\<close>. The sets of
  characters the code passes to \<open>ContainsAny\<close> are ASCII, so a byte test is exact.
\<close>

definition ContainsAny :: "string \<Rightarrow> string \<Rightarrow> bool" where
  "ContainsAny s cs \<longleftrightarrow> list_ex (\<lambda>c. c \<in> set cs) s"

definition TrimPrefix :: "string \<Rightarrow> string \<Rightarrow> string" where
  "TrimPrefix s p = (if prefix p s then drop (length p) s else s)"

text \<open>\<open>m[strings.LastIndex(m, sep)+1:]\<close>, or all of \<open>m\<close> when there is no \<open>sep\<close>.\<close>

definition afterLast :: "char \<Rightarrow> string \<Rightarrow> string" where
  "afterLast sep m = rev (takeWhile (\<lambda>c. c \<noteq> sep) (rev m))"

fun joinWith :: "string \<Rightarrow> string list \<Rightarrow> string" where
  "joinWith sep [] = []"
| "joinWith sep [x] = x"
| "joinWith sep (x # y # ys) = x @ sep @ joinWith sep (y # ys)"

function ReplaceAll :: "string \<Rightarrow> string \<Rightarrow> string \<Rightarrow> string" where
  "ReplaceAll old new s =
     (if s = [] then []
      else if old \<noteq> [] \<and> prefix old s then new @ ReplaceAll old new (drop (length old) s)
      else hd s # ReplaceAll old new (tl s))"
  by pat_completeness auto
termination
  by (relation "measure (\<lambda>(old, new, s). length s)") (auto simp: prefix_def)

declare ReplaceAll.simps [simp del]

lemma ReplaceAll_Nil [simp]: "ReplaceAll old new [] = []"
  by (subst ReplaceAll.simps) simp

lemma sublist_Contains_append1: "sublist t s \<Longrightarrow> sublist t (s @ u)"
  by (simp add: sublist_appendI sublist_append)

lemma sublist_Contains_append2: "sublist t u \<Longrightarrow> sublist t (s @ u)"
  by (simp add: sublist_append)

lemma afterLast_no_sep: "sep \<notin> set (afterLast sep m)"
  by (auto simp: afterLast_def dest: set_takeWhileD)

lemma afterLast_suffix: "suffix (afterLast sep m) m"
  by (simp add: afterLast_def suffix_to_prefix prefix_def)
    (metis takeWhile_dropWhile_id)

lemma afterLast_id: "sep \<notin> set m \<Longrightarrow> afterLast sep m = m"
proof -
  assume "sep \<notin> set m"
  then have w: "takeWhile (\<lambda>c. c \<noteq> sep) (rev m) = rev m"
    by (subst takeWhile_eq_all_conv) auto
  show ?thesis by (simp only: afterLast_def w rev_rev_ident)
qed

lemma afterLast_append: "sep \<notin> set m \<Longrightarrow> afterLast sep (p @ sep # m) = m"
proof -
  assume "sep \<notin> set m"
  then have "takeWhile (\<lambda>c. c \<noteq> sep) (rev m @ sep # rev p) = rev m"
    by (subst takeWhile_append2) auto
  then show ?thesis by (simp add: afterLast_def)
qed

subsection \<open>Hexadecimal: encoding/hex, fmt \%02x\<close>

definition hexDigits :: string where
  "hexDigits = ''0123456789abcdef''"

definition hexByte :: "byte \<Rightarrow> string" where
  "hexByte b = [hexDigits ! unat (drop_bit 4 b), hexDigits ! unat (take_bit 4 b)]"

definition hexEncode :: "byte list \<Rightarrow> string" where
  "hexEncode bs = concat (map hexByte bs)"

definition isHexDigit :: "char \<Rightarrow> bool" where
  "isHexDigit c \<longleftrightarrow> c \<in> set hexDigits"

lemma drop_bit_4_byte: "unat (drop_bit 4 (b :: byte)) < 16"
proof -
  have "unat b < 16 * 16" using unsigned_less [of b] by simp
  then show ?thesis
    by (subst unat_drop_bit_eq) (simp add: drop_bit_eq_div less_mult_imp_div_less)
qed

lemma take_bit_4_byte: "unat (take_bit 4 (b :: byte)) < 16"
  by (subst unsigned_take_bit_eq) (simp_all add: take_bit_eq_mod)

lemma length_hexDigits [simp]: "length hexDigits = 16"
  by (simp add: hexDigits_def)

lemma hexByte_digits: "c \<in> set (hexByte b) \<Longrightarrow> isHexDigit c"
  using drop_bit_4_byte [of b] take_bit_4_byte [of b]
  by (auto simp: hexByte_def isHexDigit_def)

lemma length_hexByte [simp]: "length (hexByte b) = 2"
  by (simp add: hexByte_def)

lemma length_hexEncode [simp]: "length (hexEncode bs) = 2 * length bs"
  by (induction bs) (simp_all add: hexEncode_def)

lemma hexEncode_digits: "c \<in> set (hexEncode bs) \<Longrightarrow> isHexDigit c"
  by (auto simp: hexEncode_def dest: hexByte_digits)

lemma isHexDigit_visible: "isHexDigit c \<Longrightarrow> visibleByte c"
  by (auto simp: isHexDigit_def hexDigits_def visibleByte_def)

lemma distinct_hexDigits: "distinct hexDigits"
  by (simp add: hexDigits_def)

lemma hexByte_inject [simp]: "hexByte a = hexByte b \<longleftrightarrow> a = b"
proof
  assume "hexByte a = hexByte b"
  then have "drop_bit 4 a = drop_bit 4 b" "take_bit 4 a = take_bit 4 b"
    using distinct_hexDigits drop_bit_4_byte [of a] drop_bit_4_byte [of b]
      take_bit_4_byte [of a] take_bit_4_byte [of b]
    by (auto simp: hexByte_def nth_eq_iff_index_eq intro: unsigned_word_eqI)
  then show "a = b" by (metis bits_ident)
qed simp

lemma hexEncode_inject [simp]: "hexEncode xs = hexEncode ys \<longleftrightarrow> xs = ys"
proof (induction xs arbitrary: ys)
  case Nil
  then show ?case by (cases ys) (auto simp: hexEncode_def hexByte_def)
next
  case (Cons x xs)
  show ?case
  proof (cases ys)
    case Nil
    then show ?thesis by (auto simp: hexEncode_def hexByte_def)
  next
    case (Cons y ys')
    then show ?thesis
      using Cons.IH [of ys'] by (auto simp: hexEncode_def append_eq_append_conv)
  qed
qed

subsection \<open>Decimal numbers: \<open>%d\<close>\<close>

fun showNat :: "nat \<Rightarrow> string" where
  "showNat n = (if n < 10 then [char_of (48 + n)] else showNat (n div 10) @ [char_of (48 + n mod 10)])"

definition showInt :: "int \<Rightarrow> string" where
  "showInt n = (if n < 0 then ''-'' @ showNat (nat (- n)) else showNat (nat n))"

end
