(* ===== verification/Json.thy ===== *)
theory Json
  imports Prelude
begin

section \<open>Decoded JSON values and Go maps\<close>

text \<open>
  The plugin works on bodies decoded by \<open>encoding/json\<close> into \<open>map[string]any\<close>. A decoded
  value is a \<open>json\<close>; the constructors are the dynamic types \<open>any\<close> can hold then
  (\<open>nil\<close>, \<open>bool\<close>, \<open>float64\<close>, \<open>string\<close>, \<open>[]any\<close>, \<open>map[string]any\<close>). A Go map is an
  association list with one entry per key; where the code ranges over a map, the list gives
  one of the orders the Go runtime may choose. Reading a missing key yields \<open>nil\<close>, which is
  also what a JSON \<open>null\<close> is decoded to (\<open>jget\<close>).

  The byte encoding (\<open>json.Unmarshal\<close>, \<open>json.Marshal\<close>) is the record \<open>codec\<close>, an argument
  of the definitions that read or write bytes. \<open>codec_wf\<close> and \<open>codec_inverse\<close> state what
  the code relies on.
\<close>

datatype json =
    JNull
  | JBool bool
  | JNum rat
  | JStr string
  | JArr "json list"
  | JObj "(string \<times> json) list"

type_synonym obj = "(string \<times> json) list"

subsection \<open>Type assertions\<close>

text \<open>
  \<open>v, _ := x.(T)\<close> leaves the zero value of \<open>T\<close> when the dynamic type differs: the empty
  string, a nil slice (no elements) or a nil map (no entries).
\<close>

fun strVal :: "json \<Rightarrow> string" where
  "strVal (JStr s) = s"
| "strVal _ = []"

fun arrVal :: "json \<Rightarrow> json list" where
  "arrVal (JArr vs) = vs"
| "arrVal _ = []"

fun objVal :: "json \<Rightarrow> obj" where
  "objVal (JObj m) = m"
| "objVal _ = []"

fun isStr :: "json \<Rightarrow> bool" where
  "isStr (JStr _) = True"
| "isStr _ = False"

fun isObj :: "json \<Rightarrow> bool" where
  "isObj (JObj _) = True"
| "isObj _ = False"

fun isArr :: "json \<Rightarrow> bool" where
  "isArr (JArr _) = True"
| "isArr _ = False"

subsection \<open>Maps\<close>

abbreviation jset :: "string \<Rightarrow> json \<Rightarrow> obj \<Rightarrow> obj" where
  "jset \<equiv> AList.update"

abbreviation jdel :: "string \<Rightarrow> obj \<Rightarrow> obj" where
  "jdel \<equiv> AList.delete"

definition jget :: "obj \<Rightarrow> string \<Rightarrow> json" where
  "jget m k = (case map_of m k of Some v \<Rightarrow> v | None \<Rightarrow> JNull)"

definition hasKey :: "obj \<Rightarrow> string \<Rightarrow> bool" where
  "hasKey m k \<longleftrightarrow> map_of m k \<noteq> None"

definition uniqueKeys :: "('k \<times> 'v) list \<Rightarrow> bool" where
  "uniqueKeys m \<longleftrightarrow> distinct (map fst m)"

lemma jget_update: "jget (jset k v m) k' = (if k' = k then v else jget m k')"
  by (simp add: jget_def update_conv')

lemma jget_update_same [simp]: "jget (jset k v m) k = v"
  by (simp add: jget_update)

lemma jget_update_other [simp]: "k' \<noteq> k \<Longrightarrow> jget (jset k v m) k' = jget m k'"
  by (simp add: jget_update)

lemma jget_delete: "jget (jdel k m) k' = (if k' = k then JNull else jget m k')"
  by (simp add: jget_def delete_conv')

lemma hasKey_update [simp]: "hasKey (jset k v m) k' \<longleftrightarrow> k' = k \<or> hasKey m k'"
  by (simp add: hasKey_def update_conv')

lemma hasKey_delete [simp]: "hasKey (jdel k m) k' \<longleftrightarrow> k' \<noteq> k \<and> hasKey m k'"
  by (simp add: hasKey_def delete_conv')

lemma jget_Nil [simp]: "jget [] k = JNull"
  by (simp add: jget_def)

lemma jget_hasKey: "jget m k \<noteq> JNull \<Longrightarrow> hasKey m k"
  by (auto simp: jget_def hasKey_def split: option.splits)

lemma not_hasKey_jget: "\<not> hasKey m k \<Longrightarrow> jget m k = JNull"
  by (auto simp: jget_def hasKey_def)

lemma map_of_hasKey: "map_of m k = Some v \<Longrightarrow> hasKey m k"
  by (simp add: hasKey_def)

lemma delete_absent: "\<not> hasKey m k \<Longrightarrow> jdel k m = m"
  by (rule delete_id) (auto simp: hasKey_def map_of_eq_None_iff)

lemma uniqueKeys_update [simp, intro]:
  "uniqueKeys m \<Longrightarrow> uniqueKeys (AList.update k v m)"
  by (simp add: uniqueKeys_def distinct_update)

lemma uniqueKeys_delete [simp, intro]:
  "uniqueKeys m \<Longrightarrow> uniqueKeys (AList.delete k m)"
  by (simp add: uniqueKeys_def distinct_delete)

lemma uniqueKeys_Nil [simp]: "uniqueKeys []"
  by (simp add: uniqueKeys_def)

lemma map_of_rev_unique: "uniqueKeys m \<Longrightarrow> map_of (rev m) = map_of m"
proof (induction m)
  case Nil
  then show ?case by simp
next
  case (Cons kv m)
  then have "map_of m (fst kv) = None" by (simp add: uniqueKeys_def map_of_eq_None_iff)
  with Cons show ?case
    by (cases kv) (auto simp: uniqueKeys_def fun_eq_iff map_add_def split: option.splits)
qed

subsection \<open>The interface of a Go map\<close>

text \<open>
  What the code relies on when it stores into, deletes from and reads a map. The lemmas on
  several stores or deletions in a row are proved once from these laws.
\<close>

locale go_map =
  fixes lookup :: "'m \<Rightarrow> 'k \<Rightarrow> 'v option"
    and store :: "'k \<Rightarrow> 'v \<Rightarrow> 'm \<Rightarrow> 'm"
    and remove :: "'k \<Rightarrow> 'm \<Rightarrow> 'm"
    and invar :: "'m \<Rightarrow> bool"
  assumes lookup_store: "invar m \<Longrightarrow> lookup (store k v m) = (lookup m)(k \<mapsto> v)"
    and lookup_remove: "invar m \<Longrightarrow> lookup (remove k m) = (lookup m)(k := None)"
    and invar_store: "invar m \<Longrightarrow> invar (store k v m)"
    and invar_remove: "invar m \<Longrightarrow> invar (remove k m)"
begin

lemma invar_remove_all: "invar m \<Longrightarrow> invar (fold remove ks m)"
  by (induction ks arbitrary: m) (simp_all add: invar_remove)

lemma lookup_remove_all:
  "invar m \<Longrightarrow> lookup (fold remove ks m) k = (if k \<in> set ks then None else lookup m k)"
  by (induction ks arbitrary: m) (simp_all add: invar_remove lookup_remove)

lemma invar_store_all: "invar m \<Longrightarrow> invar (fold (\<lambda>(k, v). store k v) kvs m)"
  by (induction kvs arbitrary: m) (simp_all add: invar_store split: prod.splits)

lemma lookup_store_all:
  "invar m \<Longrightarrow> lookup (fold (\<lambda>(k, v). store k v) kvs m) k =
     (case map_of (rev kvs) k of Some v \<Rightarrow> Some v | None \<Rightarrow> lookup m k)"
proof (induction kvs arbitrary: m)
  case Nil
  then show ?case by simp
next
  case (Cons kv kvs)
  obtain k' v' where kv: "kv = (k', v')" by fastforce
  with Cons show ?case
    by (simp add: invar_store lookup_store map_add_def split: option.splits)
qed

lemma lookup_store_all_other:
  "invar m \<Longrightarrow> k \<notin> fst ` set kvs \<Longrightarrow>
     lookup (fold (\<lambda>(k, v). store k v) kvs m) k = lookup m k"
proof -
  assume "invar m" "k \<notin> fst ` set kvs"
  then have "map_of (rev kvs) k = None" by (simp add: map_of_eq_None_iff)
  with \<open>invar m\<close> show ?thesis by (simp add: lookup_store_all)
qed

end

interpretation gm: go_map map_of AList.update AList.delete uniqueKeys
  by unfold_locales (simp_all add: update_conv' delete_conv' fun_upd_def)

lemma jget_delete_all: "uniqueKeys m \<Longrightarrow>
    jget (fold jdel ks m) k = (if k \<in> set ks then JNull else jget m k)"
  by (simp add: jget_def gm.lookup_remove_all)

subsection \<open>Well-formed values and the byte encoding\<close>

lemma size_json_entry [termination_simp]:
  "(k, v) \<in> set m \<Longrightarrow> size v < Suc (size_list (size_prod size size) m)"
  by (induction m) auto

fun wf_json :: "json \<Rightarrow> bool" where
  "wf_json (JArr vs) \<longleftrightarrow> list_all wf_json vs"
| "wf_json (JObj m) \<longleftrightarrow> uniqueKeys m \<and> list_all (\<lambda>(k, v). wf_json v) m"
| "wf_json _ \<longleftrightarrow> True"

text \<open>
  \<open>rawMap\<close> decodes into a \<open>map[string]json.RawMessage\<close>, whose members keep their bytes;
  \<open>decodeErr\<close> and \<open>marshalErr\<close> are the texts of the errors.
\<close>

record codec =
  unmarshal :: "string \<Rightarrow> json option"
  marshal :: "json \<Rightarrow> string option"
  rawMap :: "string \<Rightarrow> (string \<times> string) list option"
  decodeErr :: "string \<Rightarrow> string"
  marshalErr :: string

text \<open>A decoded map has one entry per key.\<close>

definition codec_wf :: "codec \<Rightarrow> bool" where
  "codec_wf J \<longleftrightarrow> (\<forall>b v. unmarshal J b = Some v \<longrightarrow> wf_json v)"

text \<open>Decoding the encoding of a value gives the value back.\<close>

definition codec_inverse :: "codec \<Rightarrow> json \<Rightarrow> bool" where
  "codec_inverse J v \<longleftrightarrow> (\<exists>b. marshal J v = Some b \<and> unmarshal J b = Some v \<and> b \<noteq> [])"

text \<open>
  \<open>json.Unmarshal(body, &root)\<close> for \<open>var root map[string]any\<close>: an object fills the map, a
  JSON \<open>null\<close> leaves it nil, anything else is an error.
\<close>

datatype root = DecodeError | NilMap | Root obj

definition unmarshalMap :: "codec \<Rightarrow> string \<Rightarrow> root" where
  "unmarshalMap J b =
     (case unmarshal J b of
        Some (JObj m) \<Rightarrow> Root m
      | Some JNull \<Rightarrow> NilMap
      | _ \<Rightarrow> DecodeError)"

lemma unmarshalMap_Root: "unmarshalMap J b = Root m \<longleftrightarrow> unmarshal J b = Some (JObj m)"
  by (simp add: unmarshalMap_def split: option.splits json.splits)

lemma unmarshalMap_unique: "codec_wf J \<Longrightarrow> unmarshalMap J b = Root m \<Longrightarrow> uniqueKeys m"
  by (force simp: unmarshalMap_Root codec_wf_def)

end
