(* ===== verification/Passes.thy ===== *)
theory Passes
  imports Json
begin

section \<open>Body passes: the contract of the rewriting steps\<close>

text \<open>
  Each step of \<open>applyFingerprintBody\<close> (plugin/fingerprint.go) is a function that edits the
  decoded body and reports whether it changed anything. Here a step is a \<open>pass\<close>: it returns
  the edited map and the flag. The locale \<open>body_pass\<close> is what the caller relies on: the
  flag is never False for an edited map, only the keys in \<open>touched\<close> differ, and the map stays
  a map. \<open>settling_pass\<close> adds that a second run finds nothing left to do. \<open>pass_pair\<close> shows
  that running one pass after the other keeps the contract; the body theory interprets it at
  the code's own steps.
\<close>

type_synonym pass = "obj \<Rightarrow> obj \<times> bool"

text \<open>\<open>if p(root) { changed = true }; if q(root) { changed = true }\<close>\<close>

definition andThen :: "pass \<Rightarrow> pass \<Rightarrow> pass" where
  "andThen p q r = (case p r of (r1, c1) \<Rightarrow> case q r1 of (r2, c2) \<Rightarrow> (r2, c1 \<or> c2))"

text \<open>\<open>if b { p(root) }\<close>\<close>

definition guarded :: "bool \<Rightarrow> pass \<Rightarrow> pass" where
  "guarded b p r = (if b then p r else (r, False))"

lemma fst_andThen [simp]: "fst (andThen p q r) = fst (q (fst (p r)))"
  by (simp add: andThen_def split: prod.splits)

lemma snd_andThen [simp]: "snd (andThen p q r) \<longleftrightarrow> snd (p r) \<or> snd (q (fst (p r)))"
  by (simp add: andThen_def split: prod.splits)

lemma guarded_simps [simp]:
  "guarded True p = p"
  "guarded False p r = (r, False)"
  by (simp_all add: guarded_def fun_eq_iff)

locale body_pass =
  fixes pass :: pass
    and touched :: "string set"
  assumes quiet: "\<not> snd (pass r) \<Longrightarrow> fst (pass r) = r"
    and frame: "k \<notin> touched \<Longrightarrow> map_of (fst (pass r)) k = map_of r k"
    and unique: "uniqueKeys r \<Longrightarrow> uniqueKeys (fst (pass r))"
begin

lemma frame_jget: "k \<notin> touched \<Longrightarrow> jget (fst (pass r)) k = jget r k"
  by (simp add: jget_def frame)

lemma frame_hasKey: "k \<notin> touched \<Longrightarrow> hasKey (fst (pass r)) k = hasKey r k"
  by (simp add: hasKey_def frame)

lemma guarded_pass: "body_pass (guarded b pass) touched"
  by (cases b) (unfold_locales, auto simp: quiet frame unique)

lemma widen: "touched \<subseteq> keys \<Longrightarrow> body_pass pass keys"
  by unfold_locales (auto simp: quiet unique intro!: frame)

end

locale settling_pass = body_pass +
  assumes settled: "\<not> snd (pass (fst (pass r)))"
begin

lemma stable: "pass (fst (pass r)) = (fst (pass r), False)"
  using settled [of r] quiet [of "fst (pass r)"] by (metis prod.collapse)

lemma guarded_settling: "settling_pass (guarded b pass) touched"
  by (cases b) (unfold_locales, auto simp: quiet frame unique settled)

end

text \<open>A pass whose own edit leaves it nothing to do settles.\<close>

lemma settlingI:
  assumes "body_pass p t" "\<And>r. snd (p r) \<Longrightarrow> \<not> snd (p (fst (p r)))"
  shows "settling_pass p t"
proof -
  have "\<not> snd (p (fst (p r)))" for r
    using assms(2) [of r] body_pass.quiet [OF assms(1), of r] by metis
  with assms(1) show ?thesis by (simp add: settling_pass_def settling_pass_axioms_def)
qed

text \<open>
  \<open>local_pass\<close> adds which keys a pass looks at. Two passes run in a row settle when the
  second touches nothing the first looks at.
\<close>

definition agree :: "string set \<Rightarrow> obj \<Rightarrow> obj \<Rightarrow> bool" where
  "agree keys r r' \<longleftrightarrow> (\<forall>k\<in>keys. map_of r k = map_of r' k)"

lemma agree_jget: "agree keys r r' \<Longrightarrow> k \<in> keys \<Longrightarrow> jget r k = jget r' k"
  by (simp add: agree_def jget_def)

lemma agree_hasKey: "agree keys r r' \<Longrightarrow> k \<in> keys \<Longrightarrow> hasKey r k = hasKey r' k"
  by (simp add: agree_def hasKey_def)

lemma agree_update: "agree keys r r' \<Longrightarrow> agree keys (jset k v r) (jset k v r')"
  by (simp add: agree_def update_conv')

locale local_pass = settling_pass +
  fixes looked :: "string set"
  assumes touched_looked: "touched \<subseteq> looked"
    and local_flag: "agree looked r r' \<Longrightarrow> snd (pass r) = snd (pass r')"
    and local_result: "agree looked r r' \<Longrightarrow> agree looked (fst (pass r)) (fst (pass r'))"
begin

lemma agree_wider:
  "agree (looked \<union> keys) r r' \<Longrightarrow> agree (looked \<union> keys) (fst (pass r)) (fst (pass r'))"
proof -
  assume ag: "agree (looked \<union> keys) r r'"
  then have res: "agree looked (fst (pass r)) (fst (pass r'))"
    by (intro local_result) (simp add: agree_def)
  have "map_of (fst (pass r)) k = map_of (fst (pass r')) k" if "k \<in> keys" "k \<notin> looked" for k
  proof -
    from that touched_looked have "k \<notin> touched" by blast
    with that ag show ?thesis using frame [of k r] frame [of k r'] by (simp add: agree_def)
  qed
  with res show ?thesis by (auto simp: agree_def)
qed

lemma guarded_local: "local_pass (guarded b pass) touched looked"
proof (cases b)
  case True
  then show ?thesis by (simp add: local_pass_axioms)
next
  case False
  then show ?thesis
    by unfold_locales (auto simp: agree_def touched_looked subsetD)
qed

end

locale pass_pair = p: body_pass p tp + q: body_pass q tq
  for p :: pass and tp :: "string set" and q :: pass and tq :: "string set"

sublocale pass_pair \<subseteq> pq: body_pass "andThen p q" "tp \<union> tq"
  by unfold_locales (auto simp: p.quiet q.quiet p.frame q.frame p.unique q.unique)

context pass_pair
begin

lemma pair_pass: "body_pass (andThen p q) (tp \<union> tq)"
  by (rule pq.body_pass_axioms)

end

locale local_pair = p: local_pass p tp lp + q: local_pass q tq lq
  for p :: pass and tp lp :: "string set" and q :: pass and tq lq :: "string set" +
  assumes apart: "lp \<inter> tq = {}"

sublocale local_pair \<subseteq> pass_pair p tp q tq
  by unfold_locales

sublocale local_pair \<subseteq> both: local_pass "andThen p q" "tp \<union> tq" "lp \<union> lq"
proof
  fix r r'
  have "agree lp (fst (q (fst (p r)))) (fst (p r))"
    using apart q.frame by (auto simp: agree_def)
  then have "\<not> snd (p (fst (q (fst (p r)))))"
    using p.local_flag p.settled by metis
  then show "\<not> snd (andThen p q (fst (andThen p q r)))"
    using p.quiet q.settled by simp
  show "tp \<union> tq \<subseteq> lp \<union> lq"
    using p.touched_looked q.touched_looked by auto
  assume ag: "agree (lp \<union> lq) r r'"
  then have pr: "agree (lp \<union> lq) (fst (p r)) (fst (p r'))" by (rule p.agree_wider)
  with ag show "snd (andThen p q r) = snd (andThen p q r')"
    using p.local_flag [of r r'] q.local_flag [of "fst (p r)" "fst (p r')"]
    by (auto simp: agree_def)
  show "agree (lp \<union> lq) (fst (andThen p q r)) (fst (andThen p q r'))"
    using q.agree_wider [of lp] pr by (simp add: Un_commute)
qed

context local_pair
begin

lemma pair_local: "local_pass (andThen p q) (tp \<union> tq) (lp \<union> lq)"
  by (rule both.local_pass_axioms)

end

end
