(* ===== verification/Config.thy ===== *)
theory Config
  imports Prelude
begin

section \<open>Configuration\<close>

text \<open>
  plugin/config.go and the configuration half of plugin/fingerprint.go and plugin/plugin.go:
  the configuration structs as records, their defaults, \<open>LoadConfig\<close> and
  \<open>validateConfig\<close>. A \<open>*bool\<close> is a \<^typ>\<open>bool option\<close> (None for nil). The YAML decoder
  (gopkg.in/yaml.v3) is the argument \<open>yaml\<close> of \<open>LoadConfig\<close>: it takes the bytes and the
  pre-filled configuration and returns an error text or the configuration. A Go error is its
  text.
\<close>

record SessionConfig =
  HeaderName :: string
  SourceHeaders :: "string list"
  HashDerived :: "bool option"
  FallbackBodyHash :: "bool option"

record UserAgentConfig =
  Rewrite :: "bool option"
  FallbackValue :: string
  ClientMap :: "(string \<times> string) list"
  OutboundHeader :: string
  SetUserAgentHeader :: bool

record FreeTierConfig =
  Markers :: "string list"
  FreeModels :: "string list"
  PaidModels :: "string list"

record TargetConfig =
  AuthPrefixes :: "string list"
  TargetModels :: "string list"

record LoggingConfig =
  LogEnabled :: "bool option"

record FingerprintConfig =
  FpEnabled :: "bool option"
  FpUserAgent :: string
  FpClient :: string
  FpProject :: string
  FpAccept :: string
  ForceStream :: "bool option"
  InjectTools :: "string list"
  StripReasoning :: "bool option"
  StripAdditionalTools :: "bool option"
  WarnMissingGlue :: "bool option"
  FreeOnly :: "bool option"

record Config =
  CSession :: SessionConfig
  CUserAgent :: UserAgentConfig
  CFreeTier :: FreeTierConfig
  CFingerprint :: FingerprintConfig
  CTarget :: TargetConfig
  CLogging :: LoggingConfig

fun BoolVal :: "bool option \<Rightarrow> bool \<Rightarrow> bool" where
  "BoolVal (Some b) fallback = b"
| "BoolVal None fallback = fallback"

subsection \<open>Defaults\<close>

definition PluginID :: string where
  "PluginID = ''opencode-enhancer''"

definition DefaultSessionHeaderName :: string where
  "DefaultSessionHeaderName = ''x-opencode-session''"

definition DefaultHashDerived :: bool where "DefaultHashDerived = True"

definition DefaultFallbackBodyHash :: bool where "DefaultFallbackBodyHash = True"

definition DefaultRewriteUA :: bool where "DefaultRewriteUA = True"

definition DefaultLogEnabled :: bool where "DefaultLogEnabled = False"

definition DefaultFallbackUA :: string where
  "DefaultFallbackUA = ''coding-agent/1.0''"

definition DefaultIdentityHeader :: string where
  "DefaultIdentityHeader = ''X-Opencode-Client''"

definition DefaultOutboundUAHeader :: string where
  "DefaultOutboundUAHeader = ''X-Opencode-User-Agent''"

definition DefaultFingerprintUA :: string where
  "DefaultFingerprintUA = ''opencode/latest/2.2.5/cli''"

definition DefaultFingerprintClient :: string where
  "DefaultFingerprintClient = ''cli''"

definition DefaultFingerprintProject :: string where
  "DefaultFingerprintProject = []"

definition DefaultFingerprintAccept :: string where
  "DefaultFingerprintAccept = ''application/json, text/event-stream''"

text \<open>The six \<open>DefaultFingerprint...\<close> switches of fingerprint.go are all true.\<close>

definition DefaultFingerprintEnabled :: bool where "DefaultFingerprintEnabled = True"

definition DefaultFingerprintStream :: bool where "DefaultFingerprintStream = True"

definition DefaultFingerprintStripRsn :: bool where "DefaultFingerprintStripRsn = True"

definition DefaultFingerprintStripAdd :: bool where "DefaultFingerprintStripAdd = True"

definition DefaultFingerprintFreeOnly :: bool where "DefaultFingerprintFreeOnly = True"

definition DefaultFingerprintWarnGlue :: bool where "DefaultFingerprintWarnGlue = True"

definition ToolNames :: "string list" where
  "ToolNames = [''edit'', ''glob'', ''grep'', ''read'', ''shell'']"

definition defaultFingerprintTools :: "string list" where
  "defaultFingerprintTools = ToolNames"

definition defaultFingerprintConfig :: FingerprintConfig where
  "defaultFingerprintConfig =
    \<lparr> FpEnabled = Some DefaultFingerprintEnabled,
      FpUserAgent = DefaultFingerprintUA,
      FpClient = DefaultFingerprintClient,
      FpProject = DefaultFingerprintProject,
      FpAccept = DefaultFingerprintAccept,
      ForceStream = Some DefaultFingerprintStream,
      InjectTools = defaultFingerprintTools,
      StripReasoning = Some DefaultFingerprintStripRsn,
      StripAdditionalTools = Some DefaultFingerprintStripAdd,
      WarnMissingGlue = Some DefaultFingerprintWarnGlue,
      FreeOnly = Some DefaultFingerprintFreeOnly \<rparr>"

definition DefaultConfig :: Config where
  "DefaultConfig =
    \<lparr> CSession =
        \<lparr> HeaderName = DefaultSessionHeaderName,
          SourceHeaders =
            [''X-Opencode-Session'', ''Session-Id'', ''Session_id'', ''Thread-Id'',
             ''Thread_id'', ''X-Claude-Code-Session-Id'', ''X-DeepSeek-Harness-Session-Id'',
             ''X-Session-Affinity'', ''X-Session-Id'', ''X-Client-Request-Id''],
          HashDerived = Some DefaultHashDerived,
          FallbackBodyHash = Some DefaultFallbackBodyHash \<rparr>,
      CUserAgent =
        \<lparr> Rewrite = Some DefaultRewriteUA,
          FallbackValue = DefaultFallbackUA,
          ClientMap =
            [(''codex'', ''codex''), (''claude'', ''claude-code''),
             (''opencode'', ''opencode''), (''generic'', [])],
          OutboundHeader = DefaultOutboundUAHeader,
          SetUserAgentHeader = False \<rparr>,
      CFreeTier =
        \<lparr> Markers = [''-free'', '':free''], FreeModels = [], PaidModels = [] \<rparr>,
      CFingerprint = defaultFingerprintConfig,
      CTarget = \<lparr> AuthPrefixes = [''opencode''], TargetModels = [] \<rparr>,
      CLogging = \<lparr> LogEnabled = Some DefaultLogEnabled \<rparr> \<rparr>"

subsection \<open>Loading and validating\<close>

definition LoadConfig ::
    "(string \<Rightarrow> Config \<Rightarrow> string + Config) \<Rightarrow> string \<Rightarrow> string + Config" where
  "LoadConfig yaml yamlBytes =
     (let cfg = DefaultConfig in
      if yamlBytes = [] then Inr cfg
      else case yaml yamlBytes cfg of
          Inl err \<Rightarrow> Inl (''decode config: '' @ err)
        | Inr cfg' \<Rightarrow> Inr cfg')"

text \<open>The loop over the header names of \<open>validateConfig\<close>: the first bad name is reported.\<close>

fun checkHeaderNames :: "string list \<Rightarrow> string option" where
  "checkHeaderNames [] = None"
| "checkHeaderNames (raw # names) =
     (let name = TrimSpace raw in
      if name = [] then checkHeaderNames names
      else if ContainsAny name [CHR 0x0D, CHR 0x0A, CHR '':'']
      then Some (''header name contains invalid characters: '' @ name)
      else checkHeaderNames names)"

definition validateConfig :: "Config \<Rightarrow> string option" where
  "validateConfig cfg =
     (case checkHeaderNames [HeaderName (CSession cfg), OutboundHeader (CUserAgent cfg)] of
        Some err \<Rightarrow> Some err
      | None \<Rightarrow>
          if AuthPrefixes (CTarget cfg) = [] \<and> TargetModels (CTarget cfg) = []
          then Some ''at least one of target.auth_prefixes or target.models is required''
          else None)"

definition fingerprintValue :: "string \<Rightarrow> string \<Rightarrow> string" where
  "fingerprintValue v fallback =
     (let t = TrimSpace v in if t \<noteq> [] then t else fallback)"

definition fingerprintTools :: "FingerprintConfig \<Rightarrow> string list" where
  "fingerprintTools cfg =
     (let out = filter (\<lambda>name. name \<noteq> []) (map TrimSpace (InjectTools cfg)) in
      if out = [] then defaultFingerprintTools else out)"

definition outboundUAHeader :: "Config \<Rightarrow> string" where
  "outboundUAHeader cfg =
     fingerprintValue (OutboundHeader (CUserAgent cfg)) DefaultOutboundUAHeader"

subsection \<open>Lemmas\<close>

text \<open>A header name is safe on the wire when it holds no CR, LF or colon.\<close>

definition safeName :: "string \<Rightarrow> bool" where
  "safeName name \<longleftrightarrow> CHR 0x0D \<notin> set name \<and> CHR 0x0A \<notin> set name \<and> CHR '':'' \<notin> set name"

lemma ContainsAny_safe [simp]:
  "ContainsAny s [CHR 0x0D, CHR 0x0A, CHR '':''] \<longleftrightarrow> \<not> safeName s"
  by (simp only: ContainsAny_def list_ex_iff safeName_def set_simps) blast

lemma safeName_Nil [simp]: "safeName []"
  by (simp add: safeName_def)

lemma checkHeaderNames_None:
  "checkHeaderNames names = None \<longleftrightarrow> (\<forall>n\<in>set names. safeName (TrimSpace n))"
  by (induction names) (simp_all add: Let_def ContainsAny_safe)

lemma validateConfig_ok:
  "validateConfig cfg = None \<longleftrightarrow>
     safeName (TrimSpace (HeaderName (CSession cfg))) \<and>
     safeName (TrimSpace (OutboundHeader (CUserAgent cfg))) \<and>
     (AuthPrefixes (CTarget cfg) \<noteq> [] \<or> TargetModels (CTarget cfg) \<noteq> [])"
proof (cases "checkHeaderNames [HeaderName (CSession cfg), OutboundHeader (CUserAgent cfg)]")
  case None
  then show ?thesis
    using checkHeaderNames_None [of "[HeaderName (CSession cfg), OutboundHeader (CUserAgent cfg)]"]
    by (simp add: validateConfig_def)
next
  case (Some err)
  then show ?thesis
    using checkHeaderNames_None [of "[HeaderName (CSession cfg), OutboundHeader (CUserAgent cfg)]"]
    by (auto simp: validateConfig_def)
qed

lemma ToolNames_trimmed: "n \<in> set ToolNames \<Longrightarrow> n \<noteq> [] \<and> TrimSpace n = n"
  by (auto simp: ToolNames_def visibleByte_def intro!: TrimSpace_visible)

lemma fingerprintTools_trimmed:
  "n \<in> set (fingerprintTools cfg) \<Longrightarrow> n \<noteq> [] \<and> TrimSpace n = n"
  using ToolNames_trimmed [of n]
  by (auto simp: fingerprintTools_def Let_def defaultFingerprintTools_def split: if_splits)

lemma fingerprintTools_nonempty: "fingerprintTools cfg \<noteq> []"
  by (simp add: fingerprintTools_def Let_def defaultFingerprintTools_def ToolNames_def)

lemma fingerprintValue_nonempty: "fallback \<noteq> [] \<Longrightarrow> fingerprintValue v fallback \<noteq> []"
  by (simp add: fingerprintValue_def Let_def)

end
