(* ===== verification/Headers.thy ===== *)
theory Headers
  imports Json Config
begin

section \<open>HTTP headers\<close>

text \<open>
  \<open>http.Header\<close> is a map from names to lists of values, kept as an association list: where
  the code ranges over it, the list is the order of that run. \<open>headerValue\<close>, \<open>hasHeader\<close>
  and \<open>headerGet\<close> are the case-insensitive lookups of plugin/target.go and
  plugin/useragent.go; \<open>headerSet\<close>, \<open>headerDel\<close> and \<open>headerFirst\<close> are the methods
  \<open>Set\<close>, \<open>Del\<close> and \<open>Get\<close> of \<open>net/http\<close>, with the canonical spelling of names.
\<close>

type_synonym header = "(string \<times> string list) list"

subsection \<open>Canonical names\<close>

definition isTokenByte :: "char \<Rightarrow> bool" where
  "isTokenByte c \<longleftrightarrow>
     (let n = of_char c :: nat in
      (97 \<le> n \<and> n \<le> 122) \<or> (65 \<le> n \<and> n \<le> 90) \<or> (48 \<le> n \<and> n \<le> 57) \<or>
      c \<in> set [CHR ''!'', CHR ''#'', CHR ''$'', CHR ''%'', CHR ''&'', CHR 0x27, CHR ''*'',
        CHR ''+'', CHR ''-'', CHR ''.'', CHR ''^'', CHR ''_'', CHR 0x60, CHR ''|'', CHR ''~''])"

definition upperByte :: "char \<Rightarrow> char" where
  "upperByte c =
     (let n = of_char c :: nat in if 97 \<le> n \<and> n \<le> 122 then char_of (n - 32) else c)"

fun canonBytes :: "bool \<Rightarrow> string \<Rightarrow> string" where
  "canonBytes up [] = []"
| "canonBytes up (c # s) =
     (let c' = (if up then upperByte c else lowerByte c) in c' # canonBytes (c' = CHR ''-'') s)"

definition CanonicalHeaderKey :: "string \<Rightarrow> string" where
  "CanonicalHeaderKey s = (if list_all isTokenByte s then canonBytes True s else s)"

definition headerSet :: "string \<Rightarrow> string \<Rightarrow> header \<Rightarrow> header" where
  "headerSet name v h = AList.update (CanonicalHeaderKey name) [v] h"

definition headerDel :: "string \<Rightarrow> header \<Rightarrow> header" where
  "headerDel name h = AList.delete (CanonicalHeaderKey name) h"

definition headerFirst :: "header \<Rightarrow> string \<Rightarrow> string" where
  "headerFirst h name =
     (case map_of h (CanonicalHeaderKey name) of Some (v # _) \<Rightarrow> v | _ \<Rightarrow> [])"

text \<open>\<open>for name, values := range src { dst[name] = values }\<close>\<close>

definition headerMerge :: "header \<Rightarrow> header \<Rightarrow> header" where
  "headerMerge src dst = fold (\<lambda>(k, v). AList.update k v) src dst"

subsection \<open>Case-insensitive lookup\<close>

fun headerValue :: "header \<Rightarrow> string \<Rightarrow> string option" where
  "headerValue [] name = None"
| "headerValue ((key, vals) # hs) name =
     (if EqualFold key name \<and> vals \<noteq> [] \<and> TrimSpace (hd vals) \<noteq> []
      then Some (TrimSpace (hd vals))
      else headerValue hs name)"

definition hasHeader :: "header \<Rightarrow> string \<Rightarrow> bool" where
  "hasHeader hs name \<longleftrightarrow> headerValue hs name \<noteq> None"

definition headerGet :: "header \<Rightarrow> string \<Rightarrow> string" where
  "headerGet hs name = (case headerValue hs name of Some v \<Rightarrow> v | None \<Rightarrow> [])"

definition metadataString :: "obj \<Rightarrow> string \<Rightarrow> string" where
  "metadataString metadata key = TrimSpace (strVal (jget metadata key))"

subsection \<open>Lemmas on the lookups\<close>

lemma headerValue_trimmed: "headerValue hs name = Some v \<Longrightarrow> v \<noteq> [] \<and> TrimSpace v = v"
  by (induction hs name rule: headerValue.induct) (auto split: if_splits)

lemma headerGet_trimmed [simp]: "TrimSpace (headerGet hs name) = headerGet hs name"
  using headerValue_trimmed [of hs name] by (auto simp: headerGet_def split: option.splits)

lemma hasHeader_headerGet: "hasHeader hs name \<longleftrightarrow> headerGet hs name \<noteq> []"
  using headerValue_trimmed [of hs name]
  by (auto simp: hasHeader_def headerGet_def split: option.splits)

lemma headerValue_fold: "EqualFold name name' \<Longrightarrow> headerValue hs name = headerValue hs name'"
  by (induction hs name rule: headerValue.induct) (auto simp: EqualFold_def)

lemma headerValue_sound:
  "headerValue hs name = Some v \<Longrightarrow>
     \<exists>key vals. (key, vals) \<in> set hs \<and> EqualFold key name \<and> vals \<noteq> [] \<and> v = TrimSpace (hd vals)"
proof (induction hs name rule: headerValue.induct)
  case (1 name)
  then show ?case by simp
next
  case (2 key vals hs name)
  show ?case
  proof (cases "EqualFold key name \<and> vals \<noteq> [] \<and> TrimSpace (hd vals) \<noteq> []")
    case True
    with "2.prems" have "v = TrimSpace (hd vals)" by simp
    with True show ?thesis by (intro exI [of _ key] exI [of _ vals]) simp
  next
    case False
    with "2.prems" have "headerValue hs name = Some v" by (simp only: headerValue.simps if_False)
    with False "2.IH" show ?thesis by (meson list.set_intros(2))
  qed
qed

lemma headerValue_complete:
  "(key, vals) \<in> set hs \<Longrightarrow> EqualFold key name \<Longrightarrow> vals \<noteq> [] \<Longrightarrow> TrimSpace (hd vals) \<noteq> [] \<Longrightarrow>
     headerValue hs name \<noteq> None"
  by (induction hs name rule: headerValue.induct) auto

text \<open>
  The map's iteration order decides only when two names differ by case alone.
\<close>

definition foldUnique :: "header \<Rightarrow> bool" where
  "foldUnique hs \<longleftrightarrow> distinct (map (\<lambda>(k, _). foldCase k) hs)"

lemma foldUnique_eqD:
  assumes "foldUnique hs" "(k, v) \<in> set hs" "(k', v') \<in> set hs" "EqualFold k k'"
  shows "k' = k \<and> v' = v"
  using assms
proof (induction hs)
  case Nil
  then show ?case by simp
next
  case (Cons h hs)
  then show ?case by (force simp: foldUnique_def EqualFold_def)
qed

lemma foldUnique_perm: "mset hs = mset hs' \<Longrightarrow> foldUnique hs \<longleftrightarrow> foldUnique hs'"
  unfolding foldUnique_def by (metis mset_map mset_eq_imp_distinct_iff)

lemma headerValue_order:
  assumes "foldUnique hs" and perm: "mset hs = mset hs'"
  shows "headerValue hs name = headerValue hs' name"
proof -
  have one: "headerValue hs' name = Some v"
    if v: "headerValue hs name = Some v" and u: "foldUnique hs'" and e: "set hs = set hs'"
    for hs hs' :: header and v
  proof -
    from headerValue_sound [OF v] obtain k vs
      where k: "(k, vs) \<in> set hs'" "EqualFold k name" "vs \<noteq> []" "v = TrimSpace (hd vs)"
      using e by blast
    moreover have "v \<noteq> []" using headerValue_trimmed [OF v] by simp
    ultimately obtain w where w: "headerValue hs' name = Some w"
      using headerValue_complete by blast
    from headerValue_sound [OF w] obtain k' vs'
      where k': "(k', vs') \<in> set hs'" "EqualFold k' name" "w = TrimSpace (hd vs')" by blast
    have "EqualFold k k'" using k(2) k'(2) by (simp add: EqualFold_def)
    then have "vs' = vs" using foldUnique_eqD [OF u k(1) k'(1)] by simp
    with w k(4) k'(3) show ?thesis by simp
  qed
  have u': "foldUnique hs'" using assms foldUnique_perm by blast
  have e: "set hs = set hs'" using perm by (rule mset_eq_setD)
  show ?thesis
    using one [OF _ u' e] one [OF _ assms(1) e [symmetric]]
    by (cases "headerValue hs name"; cases "headerValue hs' name") auto
qed

subsection \<open>Lemmas on the canonical operations\<close>

lemma canonBytes_token: "list_all isTokenByte s \<Longrightarrow> list_all isTokenByte (canonBytes up s)"
proof (induction up s rule: canonBytes.induct)
  case (1 up)
  then show ?case by simp
next
  case (2 up c s)
  have "isTokenByte (if up then upperByte c else lowerByte c)"
    using "2.prems" by (auto simp: isTokenByte_def upperByte_def lowerByte_def Let_def)
  with "2" show ?case by (simp add: Let_def)
qed

lemma upperByte_idem [simp]: "upperByte (upperByte c) = upperByte c"
proof (cases "97 \<le> (of_char c :: nat) \<and> (of_char c :: nat) \<le> 122")
  case True
  then have "((of_char c :: nat) - 32) mod 256 = of_char c - 32"
    by (intro mod_less) arith
  with True have "(of_char (upperByte c) :: nat) = of_char c - 32" by (simp add: upperByte_def)
  with True have "(of_char (upperByte c) :: nat) \<le> 90" by arith
  then show ?thesis by (simp add: upperByte_def [of "upperByte c"] Let_def)
next
  case False
  then have "upperByte c = c" by (auto simp: upperByte_def Let_def)
  then show ?thesis by simp
qed

lemma canonBytes_idem: "canonBytes up (canonBytes up s) = canonBytes up s"
  by (induction up s rule: canonBytes.induct) (simp_all add: Let_def split: if_splits)

lemma CanonicalHeaderKey_idem [simp]:
  "CanonicalHeaderKey (CanonicalHeaderKey s) = CanonicalHeaderKey s"
  by (simp add: CanonicalHeaderKey_def canonBytes_token canonBytes_idem)

lemma headerFirst_set:
  "headerFirst (headerSet name v h) name' =
     (if CanonicalHeaderKey name' = CanonicalHeaderKey name then v else headerFirst h name')"
  by (simp add: headerFirst_def headerSet_def update_conv')

lemma headerFirst_del:
  "headerFirst (headerDel name h) name' =
     (if CanonicalHeaderKey name' = CanonicalHeaderKey name then [] else headerFirst h name')"
  by (simp add: headerFirst_def headerDel_def delete_conv')

lemma headerSet_unique [simp, intro]: "uniqueKeys h \<Longrightarrow> uniqueKeys (headerSet name v h)"
  by (simp add: headerSet_def)

lemma headerDel_unique [simp, intro]: "uniqueKeys h \<Longrightarrow> uniqueKeys (headerDel name h)"
  by (simp add: headerDel_def)

lemma map_of_headerMerge:
  "uniqueKeys dst \<Longrightarrow> uniqueKeys src \<Longrightarrow>
     map_of (headerMerge src dst) k =
       (case map_of src k of Some v \<Rightarrow> Some v | None \<Rightarrow> map_of dst k)"
  by (simp add: headerMerge_def gm.lookup_store_all map_of_rev_unique)

lemma headerMerge_unique: "uniqueKeys dst \<Longrightarrow> uniqueKeys (headerMerge src dst)"
  by (simp add: headerMerge_def gm.invar_store_all)

lemma headerMerge_nonempty: "dst \<noteq> [] \<Longrightarrow> headerMerge src dst \<noteq> []"
  unfolding headerMerge_def by (induction src arbitrary: dst) (simp_all split: prod.splits)

lemma headerSet_nonempty [simp]: "headerSet name v h \<noteq> []"
  by (simp add: headerSet_def)

end
