(* ===== verification/Digest.thy ===== *)
theory Digest
  imports Prelude
begin

section \<open>Message digests: crypto/sha256 and crypto/sha1\<close>

text \<open>
  The two hash functions of Go's standard library that the plugin derives identifiers from
  (\<open>sha256.Sum256\<close> in session.go and fingerprint.go, \<open>sha1.Sum\<close> in
  internal/opencodefingerprint/fingerprint.go), written out on bytes and 32-bit words as
  FIPS 180-4 gives them. The properties of the plugin use that they are functions of the
  bytes and that a digest has 32 (20) bytes; nothing rests on their being hard to invert.
\<close>

unbundle bit_operations_syntax

type_synonym word32 = "32 word"

definition stringBytes :: "string \<Rightarrow> byte list" where
  "stringBytes s = map of_char s"

lemma length_stringBytes [simp]: "length (stringBytes s) = length s"
  by (simp add: stringBytes_def)

subsection \<open>Padding and words\<close>

definition beWord :: "byte list \<Rightarrow> word32" where
  "beWord bs = fold (\<lambda>b w. push_bit 8 w OR ucast b) bs 0"

definition beBytes :: "word32 \<Rightarrow> byte list" where
  "beBytes w = [ucast (drop_bit 24 w), ucast (drop_bit 16 w), ucast (drop_bit 8 w), ucast w]"

definition bitLength :: "nat \<Rightarrow> byte list" where
  "bitLength n = map (\<lambda>i. ucast (drop_bit (8 * (7 - i)) (of_nat (8 * n) :: 64 word))) [0..<8]"

definition padMessage :: "byte list \<Rightarrow> byte list" where
  "padMessage bs = bs @ [0x80] @ replicate ((119 - length bs mod 64) mod 64) 0
     @ bitLength (length bs)"

fun groupsOf :: "nat \<Rightarrow> 'a list \<Rightarrow> 'a list list" where
  "groupsOf n xs =
     (if n = 0 \<or> xs = [] then [] else take n xs # groupsOf n (drop n xs))"

declare groupsOf.simps [simp del]

lemma length_beBytes [simp]: "length (beBytes w) = 4"
  by (simp add: beBytes_def)

lemma padding_fills:
  assumes "r < (64 :: nat)"
  shows "(r + 9 + (119 - r) mod 64) mod 64 = 0"
proof (cases "r < 56")
  case True
  then have "119 - r = 64 + (55 - r)" by simp
  with True have "(119 - r) mod 64 = 55 - r" by (simp only: mod_add_self1) simp
  with True show ?thesis by simp
next
  case False
  with assms have "(119 - r) mod 64 = 119 - r" by simp
  with False assms show ?thesis by simp
qed

lemma length_padMessage: "length (padMessage bs) mod 64 = 0"
proof -
  have "length (padMessage bs) = length bs + (9 + (119 - length bs mod 64) mod 64)"
    by (simp add: padMessage_def bitLength_def)
  also have "\<dots> mod 64 = (length bs mod 64 + 9 + (119 - length bs mod 64) mod 64) mod 64"
    by (metis add.assoc mod_add_left_eq)
  also have "\<dots> = 0" by (rule padding_fills) simp
  finally show ?thesis .
qed

subsection \<open>SHA-256\<close>

text \<open>The round constants and the initial state, in decimal.\<close>

definition sha256K :: "word32 list" where
  "sha256K =
    [1116352408, 1899447441, 3049323471, 3921009573, 961987163, 1508970993, 2453635748, 2870763221,
     3624381080, 310598401, 607225278, 1426881987, 1925078388, 2162078206, 2614888103, 3248222580,
     3835390401, 4022224774, 264347078, 604807628, 770255983, 1249150122, 1555081692, 1996064986,
     2554220882, 2821834349, 2952996808, 3210313671, 3336571891, 3584528711, 113926993, 338241895,
     666307205, 773529912, 1294757372, 1396182291, 1695183700, 1986661051, 2177026350, 2456956037,
     2730485921, 2820302411, 3259730800, 3345764771, 3516065817, 3600352804, 4094571909, 275423344,
     430227734, 506948616, 659060556, 883997877, 958139571, 1322822218, 1537002063, 1747873779,
     1955562222, 2024104815, 2227730452, 2361852424, 2428436474, 2756734187, 3204031479, 3329325298]"

definition sha256Init :: "word32 list" where
  "sha256Init = [1779033703, 3144134277, 1013904242, 2773480762, 1359893119, 2600822924, 528734635, 1541459225]"

text \<open>The message schedule, newest word first.\<close>

definition sha256Next :: "word32 list \<Rightarrow> word32 list" where
  "sha256Next ws =
     (let x = ws ! 1; y = ws ! 14;
          s1 = word_rotr 17 x XOR word_rotr 19 x XOR drop_bit 10 x;
          s0 = word_rotr 7 y XOR word_rotr 18 y XOR drop_bit 3 y
      in (s1 + ws ! 6 + s0 + ws ! 15) # ws)"

definition sha256Schedule :: "word32 list \<Rightarrow> word32 list" where
  "sha256Schedule ws = rev ((sha256Next ^^ 48) (rev ws))"

fun sha256Round :: "word32 \<times> word32 \<Rightarrow> word32 list \<Rightarrow> word32 list" where
  "sha256Round (k, w) [a, b, c, d, e, f, g, h] =
     (let s1 = word_rotr 6 e XOR word_rotr 11 e XOR word_rotr 25 e;
          ch = (e AND f) XOR (NOT e AND g);
          t1 = h + s1 + ch + k + w;
          s0 = word_rotr 2 a XOR word_rotr 13 a XOR word_rotr 22 a;
          maj = (a AND b) XOR (a AND c) XOR (b AND c)
      in [t1 + (s0 + maj), a, b, c, d + t1, e, f, g])"
| "sha256Round _ st = st"

definition sha256Block :: "byte list \<Rightarrow> word32 list \<Rightarrow> word32 list" where
  "sha256Block blk st =
     map2 (+) st (fold sha256Round
       (zip sha256K (sha256Schedule (map beWord (groupsOf 4 blk)))) st)"

definition sha256 :: "byte list \<Rightarrow> byte list" where
  "sha256 bs = concat (map beBytes (fold sha256Block (groupsOf 64 (padMessage bs)) sha256Init))"

lemma length_sha256Round [simp]: "length (sha256Round kw st) = length st"
  by (induction kw st rule: sha256Round.induct) (simp_all add: Let_def)

lemma length_sha256Rounds [simp]: "length (fold sha256Round kws st) = length st"
  by (induction kws arbitrary: st) simp_all

lemma length_sha256Block [simp]: "length (sha256Block blk st) = length st"
  by (simp add: sha256Block_def)

lemma length_sha256Blocks [simp]: "length (fold sha256Block blks st) = length st"
  by (induction blks arbitrary: st) simp_all

lemma length_concat_beBytes: "length (concat (map beBytes ws)) = 4 * length ws"
  by (induction ws) simp_all

lemma length_sha256 [simp]: "length (sha256 bs) = 32"
  by (simp add: sha256_def length_concat_beBytes) (simp add: sha256Init_def)

subsection \<open>SHA-1\<close>

definition sha1Init :: "word32 list" where
  "sha1Init = [1732584193, 4023233417, 2562383102, 271733878, 3285377520]"

definition sha1Next :: "word32 list \<Rightarrow> word32 list" where
  "sha1Next ws = word_rotl 1 (ws ! 2 XOR ws ! 7 XOR ws ! 13 XOR ws ! 15) # ws"

definition sha1Schedule :: "word32 list \<Rightarrow> word32 list" where
  "sha1Schedule ws = rev ((sha1Next ^^ 64) (rev ws))"

definition sha1F :: "nat \<Rightarrow> word32 \<Rightarrow> word32 \<Rightarrow> word32 \<Rightarrow> word32 \<times> word32" where
  "sha1F t b c d =
     (if t < 20 then ((b AND c) OR (NOT b AND d), 0x5a827999)
      else if t < 40 then (b XOR c XOR d, 0x6ed9eba1)
      else if t < 60 then ((b AND c) OR (b AND d) OR (c AND d), 0x8f1bbcdc)
      else (b XOR c XOR d, 0xca62c1d6))"

fun sha1Round :: "nat \<times> word32 \<Rightarrow> word32 list \<Rightarrow> word32 list" where
  "sha1Round (t, w) [a, b, c, d, e] =
     (let (f, k) = sha1F t b c d
      in [word_rotl 5 a + f + e + k + w, a, word_rotl 30 b, c, d])"
| "sha1Round _ st = st"

definition sha1Block :: "byte list \<Rightarrow> word32 list \<Rightarrow> word32 list" where
  "sha1Block blk st =
     map2 (+) st (fold sha1Round
       (zip [0..<80] (sha1Schedule (map beWord (groupsOf 4 blk)))) st)"

definition sha1 :: "byte list \<Rightarrow> byte list" where
  "sha1 bs = concat (map beBytes (fold sha1Block (groupsOf 64 (padMessage bs)) sha1Init))"

lemma length_sha1Round [simp]: "length (sha1Round tw st) = length st"
  by (induction tw st rule: sha1Round.induct) (simp_all add: Let_def split: prod.splits)

lemma length_sha1Rounds [simp]: "length (fold sha1Round tws st) = length st"
  by (induction tws arbitrary: st) simp_all

lemma length_sha1Block [simp]: "length (sha1Block blk st) = length st"
  by (simp add: sha1Block_def)

lemma length_sha1Blocks [simp]: "length (fold sha1Block blks st) = length st"
  by (induction blks arbitrary: st) simp_all

lemma length_sha1 [simp]: "length (sha1 bs) = 20"
  by (simp add: sha1_def length_concat_beBytes) (simp add: sha1Init_def)

end
