(* ===== verification/Opencode.thy ===== *)
theory Opencode
  imports Headers Digest
begin

section \<open>The request envelope of the OpenCode client\<close>

text \<open>
  internal/opencodefingerprint/fingerprint.go. What the operating system supplies is explicit:
  the record \<open>env\<close> holds one reading of the clock (\<open>nowMillis\<close>, \<open>time.Now().UnixMilli()\<close>
  as a \<open>uint64\<close>), the working directory (\<open>getwd\<close>, None when \<open>os.Getwd\<close> fails) and the
  random bytes (functions of the index, so that an array of \<open>n\<close> bytes is their first \<open>n\<close>
  values; \<open>idRand\<close> is None when \<open>rand.Read\<close> fails).
\<close>

record env =
  nowMillis :: "64 word"
  getwd :: "string option"
  idRand :: "(nat \<Rightarrow> byte) option"
  traceRand :: "nat \<Rightarrow> byte"
  spanRand :: "nat \<Rightarrow> byte"
  parentRand :: "nat \<Rightarrow> byte"

definition readRand :: "nat \<Rightarrow> (nat \<Rightarrow> byte) \<Rightarrow> byte list" where
  "readRand n rnd = map rnd [0..<n]"

definition ToolDescription :: string where
  "ToolDescription = ''Not available in this session. Do not call this tool.''"

definition workingDirectory :: "env \<Rightarrow> string" where
  "workingDirectory e =
     (case getwd e of
        Some cwd \<Rightarrow> if cwd \<noteq> [] then cwd else ''/workspace''
      | None \<Rightarrow> ''/workspace'')"

definition Environment :: "env \<Rightarrow> string" where
  "Environment e =
     ''You are a coding agent.'' @ [CHR 0x0A] @ ''<env>'' @ [CHR 0x0A] @
     ''Working directory: '' @ workingDirectory e @ [CHR 0x0A] @ ''</env>''"

subsection \<open>Project identifiers\<close>

definition isProjectHash :: "string \<Rightarrow> bool" where
  "isProjectHash v \<longleftrightarrow> length v = 40 \<and> list_all isHexDigit v"

definition ProjectID :: "env \<Rightarrow> string \<Rightarrow> string" where
  "ProjectID e raw =
     (let v = TrimSpace raw in
      if isProjectHash v then v
      else
        let v = (if v = [] then workingDirectory e else v)
        in hexEncode (sha1 (stringBytes (''opencode-project'' @ [CHR 0x00] @ v))))"

lemma isProjectHash_trimmed: "isProjectHash v \<Longrightarrow> TrimSpace v = v"
proof -
  assume v: "isProjectHash v"
  then have ne: "v \<noteq> []" by (auto simp: isProjectHash_def)
  with v have "isHexDigit (hd v)" "isHexDigit (last v)"
    by (simp_all add: isProjectHash_def list_all_iff)
  with ne show ?thesis by (intro TrimSpace_visible isHexDigit_visible)
qed

lemma hexEncode_project: "length bs = 20 \<Longrightarrow> isProjectHash (hexEncode bs)"
  by (simp add: isProjectHash_def list_all_iff hexEncode_digits)

lemma ProjectID_shape: "isProjectHash (ProjectID e raw)"
  by (simp add: ProjectID_def Let_def hexEncode_project)

lemma ProjectID_keeps: "isProjectHash v \<Longrightarrow> ProjectID e v = v"
  by (simp add: ProjectID_def isProjectHash_trimmed)

lemma ProjectID_idem: "ProjectID e' (ProjectID e raw) = ProjectID e raw"
  by (rule ProjectID_keeps [OF ProjectID_shape])

lemma ProjectID_trim: "ProjectID e (TrimSpace raw) = ProjectID e raw"
  by (simp add: ProjectID_def)

subsection \<open>Tool schemas\<close>

definition addProps :: "string \<Rightarrow> string list \<Rightarrow> obj \<Rightarrow> obj" where
  "addProps kind names props = fold (\<lambda>key. jset key (JObj [(''type'', JStr kind)])) names props"

definition schemaObject :: "obj \<Rightarrow> string list \<Rightarrow> obj" where
  "schemaObject props required =
     [(''type'', JStr ''object''), (''properties'', JObj props),
      (''required'', JArr (map JStr required)), (''additionalProperties'', JBool False)]"

definition ToolSchema :: "string \<Rightarrow> json" where
  "ToolSchema name =
     (if name = ''edit'' then
        JObj (schemaObject
          (addProps ''boolean'' [''replaceAll'']
            (addProps ''string'' [''path'', ''oldString'', ''newString''] []))
          [''path'', ''oldString'', ''newString''])
      else if name = ''glob'' then
        JObj (schemaObject
          (addProps ''integer'' [''limit''] (addProps ''boolean'' [''hidden'']
            (addProps ''string'' [''pattern'', ''path''] [])))
          [''pattern''])
      else if name = ''grep'' then
        JObj (schemaObject
          (addProps ''integer'' [''limit''] (addProps ''boolean'' [''literal'', ''caseSensitive'']
            (addProps ''string'' [''pattern'', ''path'', ''include''] [])))
          [''pattern''])
      else if name = ''read'' then
        JObj (schemaObject
          (addProps ''integer'' [''offset'', ''limit''] (addProps ''string'' [''path''] []))
          [''path''])
      else if name = ''shell'' then
        JObj (schemaObject
          (addProps ''boolean'' [''background''] (addProps ''integer'' [''timeout'']
            (addProps ''string'' [''command'', ''workdir''] [])))
          [''command''])
      else
        JObj [(''type'', JStr ''object''), (''properties'', JObj (addProps ''string'' [''value''] []))])"

text \<open>Every required parameter of a schema is one of its properties, with a type.\<close>

definition schemaConsistent :: "obj \<Rightarrow> bool" where
  "schemaConsistent schema \<longleftrightarrow>
     list_all (\<lambda>r. isObj (jget (objVal (jget schema ''properties'')) (strVal r)))
       (arrVal (jget schema ''required''))"

lemma ToolSchema_obj: "isObj (ToolSchema name)"
  by (simp add: ToolSchema_def)

lemma ToolSchema_consistent: "schemaConsistent (objVal (ToolSchema name))"
  by (simp add: ToolSchema_def schemaConsistent_def schemaObject_def addProps_def jget_def)

subsection \<open>Request headers\<close>

definition sessionHeaderNames :: "string list" where
  "sessionHeaderNames =
     [''X-Opencode-Session'', ''X-Opencode-Session-Id'', ''X-Session-Affinity'', ''X-Session-Id'']"

definition opencodeHeaders :: "env \<Rightarrow> string \<Rightarrow> string \<Rightarrow> header" where
  "opencodeHeaders e session project =
     (let traceID = hexEncode (readRand 16 (traceRand e));
          spanID = hexEncode (readRand 8 (spanRand e));
          h = headerSet ''User-Agent'' DefaultFingerprintUA [];
          h = headerSet ''Accept'' DefaultFingerprintAccept h;
          h = headerSet ''X-Opencode-Client'' ''cli'' h;
          h = headerSet ''X-Opencode-Project'' (ProjectID e project) h;
          h = fold (\<lambda>name. headerSet name session) sessionHeaderNames h;
          h = headerSet ''B3''
                (traceID @ ''-'' @ spanID @ ''-1-'' @ hexEncode (readRand 8 (parentRand e))) h
      in headerSet ''Traceparent'' (''00-'' @ traceID @ ''-'' @ spanID @ ''-01'') h)"

lemma length_readRand [simp]: "length (readRand n rnd) = n"
  by (simp add: readRand_def)

lemmas canonical_eval = CanonicalHeaderKey_def isTokenByte_def upperByte_def lowerByte_def

text \<open>The names \<open>Headers\<close> sets are canonical, so its map is this list.\<close>

lemma opencodeHeaders_list:
  "opencodeHeaders e session project =
     [(''User-Agent'', [DefaultFingerprintUA]),
      (''Accept'', [DefaultFingerprintAccept]),
      (''X-Opencode-Client'', [''cli'']),
      (''X-Opencode-Project'', [ProjectID e project]),
      (''X-Opencode-Session'', [session]),
      (''X-Opencode-Session-Id'', [session]),
      (''X-Session-Affinity'', [session]),
      (''X-Session-Id'', [session]),
      (''B3'', [hexEncode (readRand 16 (traceRand e)) @ ''-'' @ hexEncode (readRand 8 (spanRand e))
        @ ''-1-'' @ hexEncode (readRand 8 (parentRand e))]),
      (''Traceparent'', [''00-'' @ hexEncode (readRand 16 (traceRand e)) @ ''-''
        @ hexEncode (readRand 8 (spanRand e)) @ ''-01''])]"
  by (simp add: opencodeHeaders_def headerSet_def sessionHeaderNames_def canonical_eval Let_def)

lemma opencodeHeaders_unique: "uniqueKeys (opencodeHeaders e session project)"
  by (simp add: opencodeHeaders_list uniqueKeys_def)

end
