(* ===== verification/Types.thy ===== *)
theory Types
  imports Headers
begin

section \<open>RPC types\<close>

text \<open>
  plugin/types.go: the requests and responses of the plugin ABI as records, and the response
  envelope as a datatype (\<open>OKEnv\<close> for \<open>OKEnvelope\<close>, \<open>ErrEnv\<close> for an envelope whose
  \<open>Error\<close> is set, with the four fields of \<open>EnvelopeError\<close>). How these
  values are encoded and decoded is the theory \<open>Abi\<close>.
\<close>

record RequestInterceptRequest =
  RequestID :: string
  SourceFormat :: string
  ToFormat :: string
  Model :: string
  RequestedModel :: string
  ReqHeaders :: header
  ReqBody :: string
  ReqMetadata :: obj

record RequestInterceptResponse =
  RespHeaders :: header
  ClearHeaders :: "string list"
  RespBody :: string

record EnvelopeError =
  ErrCode :: string
  ErrMessage :: string
  HTTPStatus :: int
  RetryAfterSeconds :: int

datatype 'r envelope = OKEnv 'r | ErrEnv EnvelopeError

definition OKEnvelope :: "'r \<Rightarrow> 'r envelope" where
  "OKEnvelope r = OKEnv r"

definition ErrEnvelope :: "string \<Rightarrow> string \<Rightarrow> 'r envelope" where
  "ErrEnvelope code message =
     ErrEnv \<lparr> ErrCode = code, ErrMessage = message, HTTPStatus = 0, RetryAfterSeconds = 0 \<rparr>"

definition nativeError :: "string \<Rightarrow> string \<Rightarrow> int \<Rightarrow> 'r envelope" where
  "nativeError code message status =
     ErrEnv \<lparr> ErrCode = code, ErrMessage = message, HTTPStatus = status,
       RetryAfterSeconds = 0 \<rparr>"

definition emptyResponse :: RequestInterceptResponse where
  "emptyResponse = \<lparr> RespHeaders = [], ClearHeaders = [], RespBody = [] \<rparr>"

definition emptyInterceptResponse :: "RequestInterceptResponse envelope" where
  "emptyInterceptResponse = OKEnvelope emptyResponse"

fun envelopeOK :: "'r envelope \<Rightarrow> bool" where
  "envelopeOK (OKEnv _) = True"
| "envelopeOK (ErrEnv _) = False"

end
