(* ===== verification/Targets.thy ===== *)
theory Targets
  imports Types
begin

section \<open>Target detection and the free-tier classification\<close>

text \<open>
  plugin/target.go. \<open>pathMatch\<close> is the matched result of \<open>path.Match\<close> (the code discards
  its error, and a malformed pattern never matches): \<open>scanChunk\<close> splits the pattern at its
  stars, \<open>matchChunk\<close> matches one piece, \<open>starSearch\<close> slides it over the name. \<open>isTarget\<close>
  decides which requests the plugin touches, \<open>isZenFreeTierModel\<close> which models are free.
\<close>

subsection \<open>utf8.DecodeRuneInString\<close>

definition runeError :: nat where
  "runeError = 0xFFFD"

definition contByte :: "nat \<Rightarrow> nat \<Rightarrow> nat \<Rightarrow> bool" where
  "contByte lo hi b \<longleftrightarrow> lo \<le> b \<and> b \<le> hi"

text \<open>The code point and its size in bytes; an invalid sequence is \<open>runeError\<close> of size 1.\<close>

definition DecodeRune :: "string \<Rightarrow> nat \<times> nat" where
  "DecodeRune s =
     (case map (of_char :: char \<Rightarrow> nat) s of
        [] \<Rightarrow> (runeError, 0)
      | b0 # bs \<Rightarrow>
          if b0 < 0x80 then (b0, 1)
          else if b0 < 0xC2 \<or> b0 > 0xF4 then (runeError, 1)
          else if b0 < 0xE0 then
            (case bs of
               b1 # _ \<Rightarrow>
                 if contByte 0x80 0xBF b1 then ((b0 - 0xC0) * 64 + (b1 - 0x80), 2)
                 else (runeError, 1)
             | _ \<Rightarrow> (runeError, 1))
          else if b0 < 0xF0 then
            (case bs of
               b1 # b2 # _ \<Rightarrow>
                 if contByte (if b0 = 0xE0 then 0xA0 else 0x80)
                      (if b0 = 0xED then 0x9F else 0xBF) b1 \<and> contByte 0x80 0xBF b2
                 then ((b0 - 0xE0) * 4096 + (b1 - 0x80) * 64 + (b2 - 0x80), 3)
                 else (runeError, 1)
             | _ \<Rightarrow> (runeError, 1))
          else
            (case bs of
               b1 # b2 # b3 # _ \<Rightarrow>
                 if contByte (if b0 = 0xF0 then 0x90 else 0x80)
                      (if b0 = 0xF4 then 0x8F else 0xBF) b1 \<and>
                    contByte 0x80 0xBF b2 \<and> contByte 0x80 0xBF b3
                 then ((b0 - 0xF0) * 262144 + (b1 - 0x80) * 4096 + (b2 - 0x80) * 64 + (b3 - 0x80), 4)
                 else (runeError, 1)
             | _ \<Rightarrow> (runeError, 1)))"

lemma DecodeRune_size:
  assumes "s \<noteq> []"
  shows "0 < snd (DecodeRune s)"
proof -
  obtain b bs where "map (of_char :: char \<Rightarrow> nat) s = b # bs"
    using assms by (cases s) auto
  then show ?thesis by (simp add: DecodeRune_def split: list.splits)
qed

subsection \<open>path.Match\<close>

definition getEsc :: "string \<Rightarrow> (nat \<times> string) option" where
  "getEsc chunk =
     (if chunk = [] \<or> hd chunk = CHR ''-'' \<or> hd chunk = CHR '']'' then None
      else
        let chunk1 = (if hd chunk = CHR 0x5C then tl chunk else chunk) in
        if chunk1 = [] then None
        else
          let (r, n) = DecodeRune chunk1; nchunk = drop n chunk1 in
          if (r = runeError \<and> n = 1) \<or> nchunk = [] then None else Some (r, nchunk))"

lemma getEsc_length:
  "getEsc chunk = Some (r, rest) \<Longrightarrow> rest \<noteq> [] \<and> length rest < length chunk"
  using DecodeRune_size [of chunk] DecodeRune_size [of "tl chunk"]
  by (cases chunk) (auto simp: getEsc_def Let_def split: if_splits prod.splits)

function matchRanges :: "nat \<Rightarrow> string \<Rightarrow> bool \<Rightarrow> nat \<Rightarrow> (string \<times> bool) option" where
  "matchRanges r chunk matched nrange =
     (if chunk \<noteq> [] \<and> hd chunk = CHR '']'' \<and> nrange > 0 then Some (tl chunk, matched)
      else
        (case getEsc chunk of
           None \<Rightarrow> None
         | Some (lo, chunk1) \<Rightarrow>
             if hd chunk1 = CHR ''-'' then
               (case getEsc (tl chunk1) of
                  None \<Rightarrow> None
                | Some (hi, chunk2) \<Rightarrow>
                    matchRanges r chunk2 (matched \<or> lo \<le> r \<and> r \<le> hi) (Suc nrange))
             else matchRanges r chunk1 (matched \<or> lo \<le> r \<and> r \<le> lo) (Suc nrange)))"
  by pat_completeness auto
termination
  by (relation "measure (\<lambda>(r, chunk, m, n). length chunk)")
    (auto dest!: getEsc_length, arith?)

declare matchRanges.simps [simp del]

lemma matchRanges_length:
  "matchRanges r chunk m n = Some (rest, b) \<Longrightarrow> length rest \<le> length chunk"
proof (induction r chunk m n rule: matchRanges.induct)
  case (1 r chunk m n)
  show ?case
  proof (cases "chunk \<noteq> [] \<and> hd chunk = CHR '']'' \<and> n > 0")
    case True
    with "1.prems" show ?thesis by (auto simp: matchRanges.simps [of r chunk m n])
  next
    case False
    with "1.prems" have "getEsc chunk \<noteq> None"
      by (cases "getEsc chunk") (auto simp: matchRanges.simps [of r chunk m n])
    then obtain lo chunk1 where e1: "getEsc chunk = Some (lo, chunk1)" by fastforce
    have l1: "length chunk1 < length chunk" "chunk1 \<noteq> []" using getEsc_length [OF e1] by auto
    show ?thesis
    proof (cases "hd chunk1 = CHR ''-''")
      case dash: True
      from False "1.prems" e1 dash have "getEsc (tl chunk1) \<noteq> None"
        by (cases "getEsc (tl chunk1)") (auto simp: matchRanges.simps [of r chunk m n])
      then obtain hi chunk2 where e2: "getEsc (tl chunk1) = Some (hi, chunk2)" by fastforce
      have l2: "length chunk2 < length (tl chunk1)" using getEsc_length [OF e2] by auto
      have "length rest \<le> length chunk2"
        using "1.IH"(1) [OF False e1 refl dash e2 refl] False "1.prems" e1 e2 dash
        by (auto simp: matchRanges.simps [of r chunk m n] split: if_splits)
      with l1 l2 show ?thesis by simp
    next
      case nodash: False
      have "length rest \<le> length chunk1"
        using "1.IH"(2) [OF False e1 refl nodash] False "1.prems" e1 nodash
        by (auto simp: matchRanges.simps [of r chunk m n] split: if_splits)
      with l1 show ?thesis by simp
    qed
  qed
qed

datatype chunk_result = BadPattern | NoMatch | Rest string

function matchChunk :: "bool \<Rightarrow> string \<Rightarrow> string \<Rightarrow> chunk_result" where
  "matchChunk failed [] s = (if failed then NoMatch else Rest s)"
| "matchChunk failed (c # chunk) s =
     (let failed1 = (failed \<or> s = []) in
      if c = CHR ''['' then
        (let (r, s1) =
               (if failed1 then (0, s)
                else let (r, n) = DecodeRune s in (r, drop n s));
             (negated, chunk1) =
               (if chunk \<noteq> [] \<and> hd chunk = CHR ''^'' then (True, tl chunk) else (False, chunk))
         in case matchRanges r chunk1 False 0 of
              None \<Rightarrow> BadPattern
            | Some (chunk2, matched) \<Rightarrow>
                matchChunk (failed1 \<or> matched = negated) chunk2 s1)
      else if c = CHR ''?'' then
        (if failed1 then matchChunk True chunk s
         else matchChunk (hd s = CHR ''/'') chunk (drop (snd (DecodeRune s)) s))
      else
        (case (if c = CHR 0x5C then chunk else c # chunk) of
           [] \<Rightarrow> BadPattern
         | lit # chunk1 \<Rightarrow>
             if failed1 then matchChunk True chunk1 s
             else matchChunk (lit \<noteq> hd s) chunk1 (tl s)))"
  by pat_completeness auto
termination
  by (relation "measure (\<lambda>(failed, chunk, s). length chunk)")
    (auto split: if_splits dest!: matchRanges_length)

fun scanBody :: "bool \<Rightarrow> string \<Rightarrow> string \<times> string" where
  "scanBody inrange [] = ([], [])"
| "scanBody inrange (c # s) =
     (if c = CHR 0x5C then
        (case s of
           [] \<Rightarrow> ([c], [])
         | d # s1 \<Rightarrow> (case scanBody inrange s1 of (a, b) \<Rightarrow> (c # d # a, b)))
      else if c = CHR ''*'' \<and> \<not> inrange then ([], c # s)
      else
        (case scanBody (if c = CHR ''['' then True else if c = CHR '']'' then False else inrange) s of
           (a, b) \<Rightarrow> (c # a, b)))"

definition scanChunk :: "string \<Rightarrow> bool \<times> string \<times> string" where
  "scanChunk pattern =
     (let body = dropWhile (\<lambda>c. c = CHR ''*'') pattern
      in (body \<noteq> pattern, scanBody False body))"

fun starSearch :: "string \<Rightarrow> bool \<Rightarrow> string \<Rightarrow> string option" where
  "starSearch chunk final [] = None"
| "starSearch chunk final (c # s) =
     (if c = CHR ''/'' then None
      else
        (case matchChunk False chunk s of
           BadPattern \<Rightarrow> None
         | NoMatch \<Rightarrow> starSearch chunk final s
         | Rest t \<Rightarrow> if final \<and> t \<noteq> [] then starSearch chunk final s else Some t))"

lemma scanBody_append: "scanBody inrange s = (a, b) \<Longrightarrow> a @ b = s"
  by (induction inrange s arbitrary: a b rule: scanBody.induct)
    (auto split: if_splits list.splits prod.splits)

lemma scanChunk_shorter:
  assumes "scanChunk pattern = (star, chunk, rest)" "pattern \<noteq> []"
  shows "length rest < length pattern"
proof -
  let ?body = "dropWhile (\<lambda>c. c = CHR ''*'') pattern"
  have split: "scanBody False ?body = (chunk, rest)"
    using assms(1) by (auto simp: scanChunk_def Let_def)
  then have ap: "chunk @ rest = ?body" by (rule scanBody_append)
  obtain c s where p: "pattern = c # s" using assms(2) by (cases pattern) auto
  show ?thesis
  proof (cases "c = CHR ''*''")
    case True
    with p have "length ?body \<le> length s" by (simp add: length_dropWhile_le)
    moreover have "length rest \<le> length ?body" using ap by (metis length_append le_add2)
    ultimately show ?thesis using p by simp
  next
    case False
    with p have body: "?body = c # s" by simp
    with split False have "chunk \<noteq> []" by (auto split: if_splits list.splits prod.splits)
    with ap body p show ?thesis by (metis length_append length_greater_0_conv less_add_same_cancel2)
  qed
qed

function pathMatch :: "string \<Rightarrow> string \<Rightarrow> bool" where
  "pathMatch pattern name =
     (if pattern = [] then name = []
      else
        (case scanChunk pattern of (star, chunk, rest) \<Rightarrow>
           if star \<and> chunk = [] then CHR ''/'' \<notin> set name
           else
             (let slide =
                (if star
                 then (case starSearch chunk (rest = []) name of
                         Some t \<Rightarrow> pathMatch rest t | None \<Rightarrow> False)
                 else False)
              in case matchChunk False chunk name of
                   BadPattern \<Rightarrow> False
                 | NoMatch \<Rightarrow> slide
                 | Rest t \<Rightarrow> if t = [] \<or> rest \<noteq> [] then pathMatch rest t else slide)))"
  by pat_completeness auto
termination
  by (relation "measure (\<lambda>(pattern, name). length pattern)")
    (auto dest: scanChunk_shorter [OF sym])

declare pathMatch.simps [simp del]


subsection \<open>Free-tier classification\<close>

definition lastSegment :: "string \<Rightarrow> string" where
  "lastSegment model = TrimSpace (afterLast (CHR ''/'') (ToLower (TrimSpace model)))"

definition isExplicitPaidModel :: "string \<Rightarrow> FreeTierConfig \<Rightarrow> bool" where
  "isExplicitPaidModel model cfg \<longleftrightarrow>
     list_ex (\<lambda>paid. let p = lastSegment paid in p \<noteq> [] \<and> model = p) (PaidModels cfg)"

definition isZenFreeTierModel :: "string \<Rightarrow> FreeTierConfig \<Rightarrow> bool" where
  "isZenFreeTierModel model cfg \<longleftrightarrow>
     (let m = lastSegment model in
      if m = [] then False
      else if isExplicitPaidModel m cfg then False
      else if list_ex (\<lambda>free. let f = lastSegment free in f \<noteq> [] \<and> m = f) (FreeModels cfg)
        then True
      else list_ex (\<lambda>marker. let mk = ToLower (TrimSpace marker) in mk \<noteq> [] \<and> suffix mk m)
        (Markers cfg))"

definition isTarget :: "RequestInterceptRequest \<Rightarrow> Config \<Rightarrow> bool" where
  "isTarget req cfg \<longleftrightarrow>
     (if list_ex (\<lambda>model. list_ex (\<lambda>pattern. pathMatch pattern model) (TargetModels (CTarget cfg)))
           [Model req, RequestedModel req]
      then True
      else
        let selectedAuth = ToLower (metadataString (ReqMetadata req) ''selected_auth_id'');
            selectedIndex = ToLower (metadataString (ReqMetadata req) ''selected_auth_index'')
        in list_ex (\<lambda>raw. let marker = ToLower (TrimSpace raw) in
             marker \<noteq> [] \<and> (sublist marker selectedAuth \<or> sublist marker selectedIndex))
           (AuthPrefixes (CTarget cfg)))"

definition fingerprintApplies :: "RequestInterceptRequest \<Rightarrow> Config \<Rightarrow> bool" where
  "fingerprintApplies req cfg \<longleftrightarrow>
     (if \<not> BoolVal (FpEnabled (CFingerprint cfg)) DefaultFingerprintEnabled then False
      else if \<not> BoolVal (FreeOnly (CFingerprint cfg)) DefaultFingerprintFreeOnly then True
      else isZenFreeTierModel (Model req) (CFreeTier cfg) \<or>
           isZenFreeTierModel (RequestedModel req) (CFreeTier cfg))"

subsection \<open>Lemmas\<close>

lemma lastSegment_no_slash: "CHR ''/'' \<notin> set (lastSegment model)"
  using set_TrimSpace afterLast_no_sep by (fastforce simp: lastSegment_def)

lemma lastSegment_trimmed [simp]: "TrimSpace (lastSegment model) = lastSegment model"
  by (simp add: lastSegment_def)

lemma paid_never_free:
  assumes "paid \<in> set (PaidModels cfg)" "lastSegment model = lastSegment paid"
  shows "\<not> isZenFreeTierModel model cfg"
proof (cases "lastSegment model = []")
  case True
  then show ?thesis by (simp add: isZenFreeTierModel_def)
next
  case False
  with assms have "isExplicitPaidModel (lastSegment model) cfg"
    by (auto simp: isExplicitPaidModel_def list_ex_iff Let_def)
  with False show ?thesis by (simp add: isZenFreeTierModel_def Let_def)
qed

lemma prefix_over_boundary:
  assumes "c \<notin> set r"
  shows "prefix r (p @ c # m) \<longleftrightarrow> prefix r p"
proof
  assume "prefix r (p @ c # m)"
  then consider "prefix r p" | us where "r = p @ us" "prefix us (c # m)"
    by (auto simp: prefix_append)
  then show "prefix r p"
  proof cases
    case 2
    with assms have "us = []" by (cases us) auto
    with 2 show ?thesis by simp
  qed simp
qed (simp add: prefix_append)

lemma mapRunes_append:
  assumes tab: "\<And>r t. (r, t) \<in> set tab \<Longrightarrow> c \<notin> set r"
  shows "mapRunes tab (p @ c # m) = mapRunes tab p @ mapRunes tab (c # m)"
proof (induction "length p" arbitrary: p rule: less_induct)
  case less
  show ?case
  proof (cases p)
    case Nil
    then show ?thesis by simp
  next
    case (Cons d p')
    have same: "find (\<lambda>(r, t). r \<noteq> [] \<and> prefix r (d # p' @ c # m)) tab =
        find (\<lambda>(r, t). r \<noteq> [] \<and> prefix r (d # p')) tab"
      using prefix_over_boundary [OF tab, of _ _ "d # p'" m]
      by (intro find_cong) auto
    show ?thesis
    proof (cases "find (\<lambda>(r, t). r \<noteq> [] \<and> prefix r (d # p')) tab")
      case None
      with same Cons less [of p'] show ?thesis by simp
    next
      case (Some rt)
      obtain r t where rt: "rt = (r, t)" by fastforce
      with Some have r: "r \<noteq> []" "prefix r (d # p')" by (auto simp: find_Some_iff)
      then have le: "length r \<le> length (d # p')" by (metis prefix_length_le)
      then have "drop (length r) (d # p' @ c # m) = drop (length r) (d # p') @ c # m"
        by (metis append_Cons diff_is_0_eq drop0 drop_append)
      moreover have "length (drop (length r) (d # p')) < length p" using r Cons by simp
      ultimately show ?thesis using same Cons Some rt less by simp
    qed
  qed
qed

lemma ToLower_slash: "ToLower (p @ CHR ''/'' # m) = ToLower p @ CHR ''/'' # ToLower m"
proof -
  have low: "lowerByte (CHR ''/'') = CHR ''/''" by (simp add: lowerByte_def Let_def)
  have "ToLower (CHR ''/'' # m) = CHR ''/'' # ToLower m"
    by (simp add: ToLower_def low)
  moreover have "ToLower (p @ CHR ''/'' # m) = ToLower p @ ToLower (CHR ''/'' # m)"
    unfolding ToLower_def by (rule mapRunes_append) auto
  ultimately show ?thesis by simp
qed

lemma mapRunes_set:
  "c \<in> set (mapRunes tab m) \<Longrightarrow> c \<in> lowerByte ` set m \<or> c \<in> (\<Union>(r, t)\<in>set tab. set t)"
proof (induction tab m rule: mapRunes.induct)
  case (1 tab)
  then show ?case by simp
next
  case (2 tab d s)
  show ?case
  proof (cases "find (\<lambda>(r, t). r \<noteq> [] \<and> prefix r (d # s)) tab")
    case None
    with "2.IH"(1) [OF None] "2.prems" show ?thesis by auto
  next
    case (Some rt)
    obtain r t where rt: "rt = (r, t)" by fastforce
    from Some rt have mem: "(r, t) \<in> set tab" by (metis find_Some_iff nth_mem)
    from "2.prems" Some rt
    have "c \<in> set t \<or> c \<in> set (mapRunes tab (drop (length r) (d # s)))" by simp
    then show ?thesis
    proof
      assume "c \<in> set t"
      with mem show ?thesis by blast
    next
      assume "c \<in> set (mapRunes tab (drop (length r) (d # s)))"
      from "2.IH"(2) [OF Some rt [symmetric] this] show ?thesis
        using set_drop_subset [of "length r" "d # s"] by blast
    qed
  qed
qed

lemma lowerByte_slash: "lowerByte d = CHR ''/'' \<Longrightarrow> d = CHR ''/''"
proof -
  assume d: "lowerByte d = CHR ''/''"
  then have "\<not> (65 \<le> (of_char d :: nat) \<and> (of_char d :: nat) \<le> 90)"
    using of_char_lowerByte [of d] by auto
  then have "lowerByte d = d" by (auto simp: lowerByte_def Let_def)
  with d show ?thesis by simp
qed

lemma ToLower_no_slash: "CHR ''/'' \<notin> set m \<Longrightarrow> CHR ''/'' \<notin> set (ToLower m)"
  unfolding ToLower_def by (auto dest!: mapRunes_set dest: lowerByte_slash [OF sym])

text \<open>A provider prefix in front of a model id does not change its classification.\<close>

lemma lastSegment_provider:
  assumes "m \<noteq> []" "CHR ''/'' \<notin> set m" "visibleByte (hd m)" "visibleByte (last m)"
    and "p = [] \<or> visibleByte (hd p)"
  shows "lastSegment (p @ CHR ''/'' # m) = lastSegment m"
proof -
  have "TrimSpace (p @ CHR ''/'' # m) = p @ CHR ''/'' # m"
    using assms by (intro TrimSpace_visible) (auto simp: hd_append visibleByte_def)
  moreover have "TrimSpace m = m" using assms by (intro TrimSpace_visible)
  moreover have "CHR ''/'' \<notin> set (ToLower m)" using assms(2) by (rule ToLower_no_slash)
  ultimately show ?thesis
    by (simp add: lastSegment_def ToLower_slash afterLast_append afterLast_id)
qed

lemma isTarget_marker:
  assumes "marker \<in> set (AuthPrefixes (CTarget cfg))" "ToLower (TrimSpace marker) \<noteq> []"
    and "sublist (ToLower (TrimSpace marker))
           (ToLower (metadataString (ReqMetadata req) ''selected_auth_id''))"
  shows "isTarget req cfg"
  using assms by (auto simp: isTarget_def list_ex_iff Let_def)

end
