(* ===== verification/Body.thy ===== *)
theory Body
  imports Passes Opencode Targets
begin

section \<open>Body shaping\<close>

text \<open>
  The body half of plugin/fingerprint.go (lines 262-699): each function that edits the
  decoded body is a \<open>pass\<close> (the edited map and the changed flag), in the order the code has
  them, and \<open>applyFingerprintBody\<close> runs them. A map that the Go code edits in place inside a
  slice of the body (a message, an input item, a Gemini tool group) is replaced in the
  returned value; decoded JSON has no sharing, so the two agree.
\<close>

subsection \<open>The environment block\<close>

definition nl2 :: string where
  "nl2 = [CHR 0x0A, CHR 0x0A]"

definition appendEnvironment :: "env \<Rightarrow> string \<Rightarrow> string" where
  "appendEnvironment e text =
     (if text = [] then Environment e else text @ nl2 @ Environment e)"

fun hasEnvironment :: "json \<Rightarrow> bool" where
  "hasEnvironment (JStr v) \<longleftrightarrow> sublist ''<env>'' v \<and> sublist ''Working directory:'' v"
| "hasEnvironment (JArr vs) \<longleftrightarrow> list_ex hasEnvironment vs"
| "hasEnvironment (JObj m) \<longleftrightarrow> list_ex (\<lambda>(k, v). hasEnvironment v) m"
| "hasEnvironment _ \<longleftrightarrow> False"

definition isPreamble :: "obj \<Rightarrow> bool" where
  "isPreamble message \<longleftrightarrow>
     jget message ''role'' = JStr ''system'' \<or> jget message ''role'' = JStr ''developer''"

definition messagesHaveEnvironment :: "json \<Rightarrow> bool" where
  "messagesHaveEnvironment v \<longleftrightarrow>
     list_ex (\<lambda>raw. let message = objVal raw in
        isPreamble message \<and> hasEnvironment (jget message ''content'')) (arrVal v)"

definition textPart :: "env \<Rightarrow> json" where
  "textPart e = JObj [(''type'', JStr ''text''), (''text'', JStr (Environment e))]"

text \<open>The content type switch of the Claude and the Chat branch; None is \<open>return false\<close>.\<close>

definition withEnvironment :: "env \<Rightarrow> json \<Rightarrow> json option" where
  "withEnvironment e content =
     (case content of
        JNull \<Rightarrow> Some (JStr (Environment e))
      | JStr text \<Rightarrow> Some (JStr (appendEnvironment e text))
      | JArr parts \<Rightarrow> Some (JArr (parts @ [textPart e]))
      | _ \<Rightarrow> None)"

datatype placement = NoPreamble | Rejected | Placed "json list"

fun placeInPreamble :: "env \<Rightarrow> json list \<Rightarrow> placement" where
  "placeInPreamble e [] = NoPreamble"
| "placeInPreamble e (raw # rest) =
     (let message = objVal raw in
      if \<not> isPreamble message then
        (case placeInPreamble e rest of
           Placed ms \<Rightarrow> Placed (raw # ms)
         | other \<Rightarrow> other)
      else
        (case withEnvironment e (jget message ''content'') of
           None \<Rightarrow> Rejected
         | Some content \<Rightarrow> Placed (JObj (jset ''content'' content message) # rest)))"

definition environmentMessage :: "env \<Rightarrow> json" where
  "environmentMessage e =
     JObj [(''role'', JStr ''system''), (''content'', JStr (Environment e))]"

definition ensureResponsesEnvironment :: "env \<Rightarrow> pass" where
  "ensureResponsesEnvironment e doc =
     (if hasEnvironment (jget doc ''instructions'') \<or> messagesHaveEnvironment (jget doc ''input'')
      then (doc, False)
      else
        (case jget doc ''instructions'' of
           JNull \<Rightarrow> (jset ''instructions'' (JStr (appendEnvironment e [])) doc, True)
         | JStr instructions \<Rightarrow>
             (jset ''instructions'' (JStr (appendEnvironment e instructions)) doc, True)
         | _ \<Rightarrow> (doc, False)))"

definition ensureClaudeEnvironment :: "env \<Rightarrow> pass" where
  "ensureClaudeEnvironment e doc =
     (if hasEnvironment (jget doc ''system'') then (doc, False)
      else
        (case withEnvironment e (jget doc ''system'') of
           None \<Rightarrow> (doc, False)
         | Some system \<Rightarrow> (jset ''system'' system doc, True)))"

definition geminiSystemKey :: "obj \<Rightarrow> string" where
  "geminiSystemKey doc =
     (if \<not> hasKey doc ''systemInstruction'' \<and> hasKey doc ''system_instruction''
      then ''system_instruction'' else ''systemInstruction'')"

definition ensureGeminiEnvironment :: "env \<Rightarrow> pass" where
  "ensureGeminiEnvironment e doc =
     (let key = geminiSystemKey doc; system = objVal (jget doc key) in
      if (jget doc key \<noteq> JNull \<and> \<not> isObj (jget doc key)) \<or> hasEnvironment (JObj system)
      then (doc, False)
      else if jget system ''parts'' \<noteq> JNull \<and> \<not> isArr (jget system ''parts'')
      then (doc, False)
      else
        (jset key (JObj (jset ''parts''
           (JArr (arrVal (jget system ''parts'') @ [JObj [(''text'', JStr (Environment e))]]))
           system)) doc, True))"

definition ensureChatEnvironment :: "env \<Rightarrow> pass" where
  "ensureChatEnvironment e doc =
     (if messagesHaveEnvironment (jget doc ''messages'') then (doc, False)
      else if jget doc ''messages'' \<noteq> JNull \<and> \<not> isArr (jget doc ''messages'') then (doc, False)
      else
        let messages = arrVal (jget doc ''messages'') in
        (case placeInPreamble e messages of
           Rejected \<Rightarrow> (doc, False)
         | Placed ms \<Rightarrow> (jset ''messages'' (JArr ms) doc, True)
         | NoPreamble \<Rightarrow>
             (jset ''messages'' (JArr (environmentMessage e # messages)) doc, True)))"

definition ensureEnvironment :: "env \<Rightarrow> string \<Rightarrow> pass" where
  "ensureEnvironment e source doc =
     (if hasKey doc ''input'' then ensureResponsesEnvironment e doc
      else if source = ''claude'' then ensureClaudeEnvironment e doc
      else if source = ''gemini'' then ensureGeminiEnvironment e doc
      else ensureChatEnvironment e doc)"

subsection \<open>Streaming, storage and token caps\<close>

definition forceStream :: pass where
  "forceStream doc =
     (if jget doc ''stream'' = JBool True then (doc, False)
      else (jset ''stream'' (JBool True) doc, True))"

definition forceNoStore :: pass where
  "forceNoStore doc =
     (if jget doc ''store'' = JBool False then (doc, False)
      else (jset ''store'' (JBool False) doc, True))"

fun moveTokenCap :: "string list \<Rightarrow> pass" where
  "moveTokenCap [] doc = (doc, False)"
| "moveTokenCap (key # keys) doc =
     (case jget doc key of
        JNum v \<Rightarrow> (jset ''max_output_tokens'' (JNum v) doc, True)
      | _ \<Rightarrow> moveTokenCap keys doc)"

text \<open>\<open>for _, key := range keys { if _, ok := m[key]; ok { delete(m, key); changed = true } }\<close>\<close>

fun dropKeys :: "string list \<Rightarrow> pass" where
  "dropKeys [] doc = (doc, False)"
| "dropKeys (key # keys) doc =
     (if hasKey doc key
      then (case dropKeys keys (jdel key doc) of (doc', _) \<Rightarrow> (doc', True))
      else dropKeys keys doc)"

definition normalizeMaxOutputTokens :: pass where
  "normalizeMaxOutputTokens =
     andThen
       (\<lambda>doc. if \<not> hasKey doc ''max_output_tokens''
              then moveTokenCap [''max_completion_tokens'', ''max_tokens''] doc
              else (doc, False))
       (dropKeys [''max_tokens'', ''max_completion_tokens''])"

subsection \<open>Input items\<close>

definition isItemType :: "obj \<Rightarrow> string \<Rightarrow> bool" where
  "isItemType m want \<longleftrightarrow> EqualFold (TrimSpace (strVal (jget m ''type''))) want"

fun stripReasoningList :: "json list \<Rightarrow> json list \<times> bool" where
  "stripReasoningList [] = ([], False)"
| "stripReasoningList (item # items) =
     (case stripReasoningList items of (keep, changed) \<Rightarrow>
        (case item of
           JObj m \<Rightarrow>
             if isItemType m ''reasoning'' then (keep, True)
             else
               (case dropKeys [''encrypted_content'', ''reasoning_encrypted_content''] m of
                  (m', c) \<Rightarrow> (JObj m' # keep, changed \<or> c))
         | _ \<Rightarrow> (item # keep, changed)))"

definition stripReasoningItems :: pass where
  "stripReasoningItems doc =
     (case jget doc ''input'' of
        JArr input \<Rightarrow>
          (case stripReasoningList input of (keep, changed) \<Rightarrow>
             if \<not> changed then (doc, False) else (jset ''input'' (JArr keep) doc, True))
      | _ \<Rightarrow> (doc, False))"

definition isResponsesWire :: "string \<Rightarrow> bool" where
  "isResponsesWire toFormat \<longleftrightarrow>
     EqualFold (TrimSpace toFormat) ''codex'' \<or> EqualFold (TrimSpace toFormat) ''openai-response''"

subsection \<open>Tool declarations\<close>

definition functionToolName :: "obj \<Rightarrow> string" where
  "functionToolName m =
     (case jget m ''function'' of
        JObj fn \<Rightarrow> TrimSpace (strVal (jget fn ''name''))
      | _ \<Rightarrow> [])"

definition toolName :: "json \<Rightarrow> string" where
  "toolName tool =
     (case tool of
        JObj m \<Rightarrow>
          if isStr (jget m ''name'') \<and> TrimSpace (strVal (jget m ''name'')) \<noteq> []
          then TrimSpace (strVal (jget m ''name''))
          else functionToolName m
      | _ \<Rightarrow> [])"

definition chatToolEntry :: "string \<Rightarrow> obj" where
  "chatToolEntry name =
     [(''type'', JStr ''function''),
      (''function'', JObj
         [(''name'', JStr name), (''description'', JStr ToolDescription),
          (''parameters'', ToolSchema name)])]"

definition responsesToolEntry :: "string \<Rightarrow> obj" where
  "responsesToolEntry name =
     [(''type'', JStr ''function''), (''name'', JStr name),
      (''description'', JStr ToolDescription), (''parameters'', ToolSchema name)]"

definition claudeToolEntry :: "string \<Rightarrow> obj" where
  "claudeToolEntry name =
     [(''name'', JStr name), (''description'', JStr ToolDescription),
      (''input_schema'', ToolSchema name)]"

definition geminiToolEntry :: "string \<Rightarrow> obj" where
  "geminiToolEntry name =
     [(''name'', JStr name), (''description'', JStr ToolDescription),
      (''parameters'', ToolSchema name)]"

text \<open>The names of the list that are not present yet, each once.\<close>

fun missingNames :: "string list \<Rightarrow> string list \<Rightarrow> string list" where
  "missingNames present [] = []"
| "missingNames present (name # names) =
     (if name \<in> set present then missingNames present names
      else name # missingNames (name # present) names)"

definition toolNames :: "json list \<Rightarrow> string list" where
  "toolNames tools = filter (\<lambda>name. name \<noteq> []) (map toolName tools)"

definition ensureTools :: "string list \<Rightarrow> (string \<Rightarrow> obj) \<Rightarrow> pass" where
  "ensureTools names build doc =
     (let existing = arrVal (jget doc ''tools'');
          missing = missingNames (toolNames existing) names in
      if missing = [] then (doc, False)
      else (jset ''tools'' (JArr (existing @ map (\<lambda>name. JObj (build name)) missing)) doc, True))"

definition isToolGroup :: "json \<Rightarrow> bool" where
  "isToolGroup tool \<longleftrightarrow> isObj tool \<and> isArr (jget (objVal tool) ''functionDeclarations'')"

definition groupDecls :: "json \<Rightarrow> json list" where
  "groupDecls tool = arrVal (jget (objVal tool) ''functionDeclarations'')"

fun addToFirstGroup :: "json list \<Rightarrow> json list \<Rightarrow> json list" where
  "addToFirstGroup missing [] = [JObj [(''functionDeclarations'', JArr missing)]]"
| "addToFirstGroup missing (tool # tools) =
     (if isToolGroup tool
      then JObj (jset ''functionDeclarations'' (JArr (groupDecls tool @ missing)) (objVal tool)) # tools
      else tool # addToFirstGroup missing tools)"

definition geminiToolNames :: "json list \<Rightarrow> string list" where
  "geminiToolNames tools = toolNames (concat (map groupDecls (filter isToolGroup tools)))"

definition ensureGeminiTools :: "string list \<Rightarrow> pass" where
  "ensureGeminiTools names doc =
     (let tools = arrVal (jget doc ''tools'');
          missing = missingNames (geminiToolNames tools) names in
      if missing = [] then (doc, False)
      else
        (jset ''tools''
           (JArr (addToFirstGroup (map (\<lambda>name. JObj (geminiToolEntry name)) missing) tools)) doc,
         True))"

subsection \<open>Codex additional tools\<close>

definition isAdditionalTools :: "json \<Rightarrow> bool" where
  "isAdditionalTools item \<longleftrightarrow> isItemType (objVal item) ''additional_tools''"

definition promotedTools :: "json list \<Rightarrow> json list" where
  "promotedTools input =
     concat (map
       (\<lambda>item. filter (\<lambda>tool. isItemType (objVal tool) ''function'' \<and> toolName tool \<noteq> [])
          (arrVal (jget (objVal item) ''tools'')))
       (filter isAdditionalTools input))"

fun newTools :: "string list \<Rightarrow> json list \<Rightarrow> json list" where
  "newTools present [] = []"
| "newTools present (tool # tools) =
     (if toolName tool \<in> set present then newTools present tools
      else tool # newTools (toolName tool # present) tools)"

definition stripAdditionalTools :: pass where
  "stripAdditionalTools doc =
     (case jget doc ''input'' of
        JArr input \<Rightarrow>
          (let keep = filter (\<lambda>item. \<not> isAdditionalTools item) input in
           if length keep = length input then (doc, False)
           else
             let doc1 = jset ''input'' (JArr keep) doc;
                 existing = arrVal (jget doc1 ''tools'');
                 tools = existing @ newTools (map toolName existing) (promotedTools input)
             in (if tools \<noteq> [] then jset ''tools'' (JArr tools) doc1 else doc1, True))
      | _ \<Rightarrow> (doc, False))"

subsection \<open>The whole rewriting\<close>

definition responsesPasses :: "FingerprintConfig \<Rightarrow> string \<Rightarrow> pass" where
  "responsesPasses cfg toFormat =
     andThen forceNoStore
     (andThen normalizeMaxOutputTokens
     (andThen (guarded (BoolVal (StripReasoning cfg) DefaultFingerprintStripRsn) stripReasoningItems)
     (andThen (guarded (isResponsesWire toFormat \<and>
          BoolVal (StripAdditionalTools cfg) DefaultFingerprintStripAdd) stripAdditionalTools)
       (ensureTools (fingerprintTools cfg) responsesToolEntry))))"

definition protocolPasses :: "FingerprintConfig \<Rightarrow> string \<Rightarrow> string \<Rightarrow> pass" where
  "protocolPasses cfg source toFormat doc =
     (if hasKey doc ''input'' then responsesPasses cfg toFormat doc
      else if source = ''claude'' then ensureTools (fingerprintTools cfg) claudeToolEntry doc
      else if source = ''gemini'' then ensureGeminiTools (fingerprintTools cfg) doc
      else ensureTools (fingerprintTools cfg) chatToolEntry doc)"

definition shapeBody :: "env \<Rightarrow> FingerprintConfig \<Rightarrow> string \<Rightarrow> string \<Rightarrow> pass" where
  "shapeBody e cfg source toFormat =
     andThen (ensureEnvironment e source)
     (andThen (guarded (source \<noteq> ''gemini'' \<and> BoolVal (ForceStream cfg) DefaultFingerprintStream)
          forceStream)
       (protocolPasses cfg source toFormat))"

definition applyFingerprintBody ::
    "env \<Rightarrow> codec \<Rightarrow> string \<Rightarrow> FingerprintConfig \<Rightarrow> string \<Rightarrow> string \<Rightarrow> string \<times> bool" where
  "applyFingerprintBody e J body cfg sourceFormat toFormat =
     (if body = [] then (body, False)
      else
        (case unmarshalMap J body of
           Root doc \<Rightarrow>
             (case shapeBody e cfg (ToLower (TrimSpace sourceFormat)) toFormat doc of
                (doc', changed) \<Rightarrow>
                  if \<not> changed then (body, False)
                  else
                    (case marshal J (JObj doc') of
                       None \<Rightarrow> (body, False)
                     | Some out \<Rightarrow> (out, True)))
         | _ \<Rightarrow> (body, False)))"

end
