(* ===== verification/Body_Passes.thy ===== *)
theory Body_Passes
  imports Body
begin

section \<open>The body passes meet their contract\<close>

text \<open>
  Each step of Body.thy is an interpretation of \<open>body_pass\<close> with the keys it may touch, and
  the steps that find nothing to do the second time are interpretations of
  \<open>settling_pass\<close>. The composition used by \<open>applyFingerprintBody\<close> then follows from
  \<open>pass_pair\<close>, and with it the frame of the whole rewriting.
\<close>

subsection \<open>Single steps\<close>

lemma dropKeys_eq: "fst (dropKeys keys doc) = fold jdel keys doc"
proof (induction keys arbitrary: doc)
  case Nil
  then show ?case by simp
next
  case (Cons key keys)
  show ?case
    using Cons.IH [of "jdel key doc"] Cons.IH [of doc] delete_absent [of doc key]
    by (auto split: prod.splits)
qed

lemma dropKeys_flag: "snd (dropKeys keys doc) \<longleftrightarrow> (\<exists>k\<in>set keys. hasKey doc k)"
  by (induction keys arbitrary: doc) (auto split: prod.splits)

lemma dropKeys_quiet: "\<not> snd (dropKeys keys doc) \<Longrightarrow> fst (dropKeys keys doc) = doc"
  by (induction keys doc rule: dropKeys.induct) (auto split: prod.splits if_splits)

lemma map_of_dropKeys:
  "map_of (fst (dropKeys keys doc)) k = (if k \<in> set keys then None else map_of doc k)"
  by (induction keys doc rule: dropKeys.induct)
    (auto split: prod.splits simp: delete_conv' hasKey_def)

lemma hasKey_dropKeys [simp]:
  "hasKey (fst (dropKeys keys doc)) k \<longleftrightarrow> k \<notin> set keys \<and> hasKey doc k"
  by (simp add: hasKey_def map_of_dropKeys)

lemma uniqueKeys_dropKeys: "uniqueKeys doc \<Longrightarrow> uniqueKeys (fst (dropKeys keys doc))"
  by (simp add: dropKeys_eq gm.invar_remove_all)

interpretation stream: local_pass forceStream "{''stream''}" "{''stream''}"
  by unfold_locales
    (auto simp: forceStream_def update_conv' agree_update split: if_splits
      dest: agree_jget [of _ _ _ "''stream''"])

interpretation store: settling_pass forceNoStore "{''store''}"
  by unfold_locales (auto simp: forceNoStore_def update_conv' split: if_splits)

interpretation drop: settling_pass "dropKeys keys" "set keys" for keys
  by unfold_locales
    (auto simp: dropKeys_quiet map_of_dropKeys uniqueKeys_dropKeys dropKeys_flag)

lemma moveTokenCap_cases:
  "(fst (moveTokenCap keys doc) = doc \<and> \<not> snd (moveTokenCap keys doc)) \<or>
   (\<exists>v. fst (moveTokenCap keys doc) = jset ''max_output_tokens'' (JNum v) doc \<and>
        snd (moveTokenCap keys doc))"
  by (induction keys doc rule: moveTokenCap.induct) (auto split: json.splits)

definition tokenCapKeys :: "string set" where
  "tokenCapKeys = {''max_output_tokens'', ''max_tokens'', ''max_completion_tokens''}"

lemma moveTokenCap_pass:
  "body_pass (\<lambda>doc. if \<not> hasKey doc ''max_output_tokens'' then moveTokenCap keys doc
     else (doc, False)) tokenCapKeys"
proof
  fix r k
  show "\<not> snd (if \<not> hasKey r ''max_output_tokens'' then moveTokenCap keys r else (r, False)) \<Longrightarrow>
      fst (if \<not> hasKey r ''max_output_tokens'' then moveTokenCap keys r else (r, False)) = r"
    using moveTokenCap_cases [of keys r] by (auto split: if_splits)
  show "k \<notin> tokenCapKeys \<Longrightarrow>
      map_of (fst (if \<not> hasKey r ''max_output_tokens'' then moveTokenCap keys r else (r, False))) k
        = map_of r k"
    using moveTokenCap_cases [of keys r] by (auto simp: update_conv' tokenCapKeys_def)
  show "uniqueKeys r \<Longrightarrow>
      uniqueKeys (fst (if \<not> hasKey r ''max_output_tokens'' then moveTokenCap keys r else (r, False)))"
    using moveTokenCap_cases [of keys r] by auto
qed

lemma pair_body_pass:
  "body_pass p tp \<Longrightarrow> body_pass q tq \<Longrightarrow> body_pass (andThen p q) (tp \<union> tq)"
  by (intro pass_pair.pair_pass pass_pair.intro)

interpretation cap: settling_pass normalizeMaxOutputTokens tokenCapKeys
proof -
  have "body_pass normalizeMaxOutputTokens
      (tokenCapKeys \<union> set [''max_tokens'', ''max_completion_tokens''])"
    unfolding normalizeMaxOutputTokens_def
    by (rule pair_body_pass [OF moveTokenCap_pass drop.body_pass_axioms])
  moreover have "tokenCapKeys \<union> set [''max_tokens'', ''max_completion_tokens''] = tokenCapKeys"
    by (auto simp: tokenCapKeys_def)
  ultimately have pass: "body_pass normalizeMaxOutputTokens tokenCapKeys" by simp
  have "\<not> snd (normalizeMaxOutputTokens (fst (normalizeMaxOutputTokens r)))" for r
  proof -
    obtain d where d: "d = fst (normalizeMaxOutputTokens r)" by blast
    have gone: "\<not> hasKey d k" if "k \<in> set [''max_tokens'', ''max_completion_tokens'']" for k
      using that unfolding d normalizeMaxOutputTokens_def fst_andThen hasKey_dropKeys by blast
    have idle: "(if \<not> hasKey d ''max_output_tokens''
        then moveTokenCap [''max_completion_tokens'', ''max_tokens''] d else (d, False)) = (d, False)"
      using gone by (simp add: not_hasKey_jget)
    have "\<not> snd (normalizeMaxOutputTokens d)"
      unfolding normalizeMaxOutputTokens_def snd_andThen idle fst_conv snd_conv dropKeys_flag
      using gone by blast
    then show ?thesis unfolding d .
  qed
  with pass show "settling_pass normalizeMaxOutputTokens tokenCapKeys"
    by (simp add: settling_pass_def settling_pass_axioms_def)
qed

subsection \<open>Reasoning items\<close>

lemma stripReasoningList_quiet:
  "\<not> snd (stripReasoningList items) \<Longrightarrow> fst (stripReasoningList items) = items"
proof (induction items)
  case Nil
  then show ?case by simp
next
  case (Cons item items)
  then show ?case
    using dropKeys_quiet [of "[''encrypted_content'', ''reasoning_encrypted_content'']"]
    by (cases item) (auto split: prod.splits if_splits)
qed

definition hasReasoning :: "json \<Rightarrow> bool" where
  "hasReasoning item \<longleftrightarrow> isObj item \<and>
     (isItemType (objVal item) ''reasoning'' \<or>
      hasKey (objVal item) ''encrypted_content'' \<or>
      hasKey (objVal item) ''reasoning_encrypted_content'')"

lemma isItemType_dropKeys:
  "''type'' \<notin> set keys \<Longrightarrow> isItemType (fst (dropKeys keys m)) want = isItemType m want"
  by (simp add: isItemType_def jget_def map_of_dropKeys)

lemma stripReasoningList_clean:
  "item \<in> set (fst (stripReasoningList items)) \<Longrightarrow> \<not> hasReasoning item"
proof (induction items)
  case Nil
  then show ?case by simp
next
  case (Cons x items)
  show ?case
  proof (cases x)
    case (JObj m)
    show ?thesis
    proof (cases "isItemType m ''reasoning''")
      case True
      with Cons JObj show ?thesis by (auto split: prod.splits)
    next
      case False
      let ?ks = "[''encrypted_content'', ''reasoning_encrypted_content'']"
      have "\<not> hasReasoning (JObj (fst (dropKeys ?ks m)))"
        using False by (simp add: hasReasoning_def isItemType_dropKeys del: dropKeys.simps)
      with Cons JObj False show ?thesis
        by (auto split: prod.splits simp del: dropKeys.simps)
    qed
  qed (use Cons in \<open>auto split: prod.splits simp: hasReasoning_def\<close>)
qed

lemma stripReasoningList_idle:
  "(\<And>item. item \<in> set items \<Longrightarrow> \<not> hasReasoning item) \<Longrightarrow> \<not> snd (stripReasoningList items)"
proof (induction items)
  case Nil
  then show ?case by simp
next
  case (Cons item items)
  then have "\<not> hasReasoning item" "\<not> snd (stripReasoningList items)" by auto
  then show ?case
    by (cases item) (auto split: prod.splits simp: hasReasoning_def)
qed

interpretation reasoning: settling_pass stripReasoningItems "{''input''}"
proof
  fix r k
  show "\<not> snd (stripReasoningItems r) \<Longrightarrow> fst (stripReasoningItems r) = r"
    by (auto simp: stripReasoningItems_def split: json.splits prod.splits if_splits)
  show "k \<notin> {''input''} \<Longrightarrow> map_of (fst (stripReasoningItems r)) k = map_of r k"
    by (auto simp: stripReasoningItems_def update_conv' split: json.splits prod.splits)
  show "uniqueKeys r \<Longrightarrow> uniqueKeys (fst (stripReasoningItems r))"
    by (auto simp: stripReasoningItems_def split: json.splits prod.splits)
  show "\<not> snd (stripReasoningItems (fst (stripReasoningItems r)))"
  proof (cases "jget r ''input''")
    case (JArr input)
    have "\<not> snd (stripReasoningList (fst (stripReasoningList input)))"
      using stripReasoningList_clean by (intro stripReasoningList_idle) blast
    with JArr show ?thesis
      by (auto simp: stripReasoningItems_def split: prod.splits json.splits)
  qed (simp_all add: stripReasoningItems_def)
qed


subsection \<open>Tool lists\<close>

lemma set_missingNames: "set (missingNames present names) = set names - set present"
  by (induction present names rule: missingNames.induct) auto

lemma distinct_missingNames: "distinct (missingNames present names)"
  by (induction present names rule: missingNames.induct) (auto simp: set_missingNames)

lemma missingNames_empty: "missingNames present names = [] \<longleftrightarrow> set names \<subseteq> set present"
  by (metis Diff_eq_empty_iff set_empty set_missingNames)

lemma missingNames_present: "set p = set p' \<Longrightarrow> missingNames p names = missingNames p' names"
  by (induction p names arbitrary: p' rule: missingNames.induct) auto

text \<open>An entry builder is named when the entry it builds for a tool carries the tool's name.\<close>

definition namedEntries :: "string list \<Rightarrow> (string \<Rightarrow> obj) \<Rightarrow> bool" where
  "namedEntries names build \<longleftrightarrow>
     (\<forall>n\<in>set names. n \<noteq> [] \<and> toolName (JObj (build n)) = n)"

lemma toolName_entries:
  assumes "n \<noteq> []" "TrimSpace n = n"
  shows "toolName (JObj (chatToolEntry n)) = n"
    and "toolName (JObj (responsesToolEntry n)) = n"
    and "toolName (JObj (claudeToolEntry n)) = n"
    and "toolName (JObj (geminiToolEntry n)) = n"
  using assms
  by (simp_all add: toolName_def chatToolEntry_def responsesToolEntry_def claudeToolEntry_def
      geminiToolEntry_def functionToolName_def jget_def)

lemma entries_named:
  "namedEntries (fingerprintTools cfg) chatToolEntry"
  "namedEntries (fingerprintTools cfg) responsesToolEntry"
  "namedEntries (fingerprintTools cfg) claudeToolEntry"
  "namedEntries (fingerprintTools cfg) geminiToolEntry"
  using fingerprintTools_trimmed [of _ cfg] toolName_entries
  by (auto simp: namedEntries_def)

lemma toolNames_append: "toolNames (xs @ ys) = toolNames xs @ toolNames ys"
  by (simp add: toolNames_def)

lemma toolNames_built:
  assumes "namedEntries names build" "set missing \<subseteq> set names"
  shows "toolNames (map (\<lambda>n. JObj (build n)) missing) = missing"
  using assms(2)
proof (induction missing)
  case Nil
  then show ?case by (simp add: toolNames_def)
next
  case (Cons n missing)
  with assms(1) show ?case by (auto simp: toolNames_def namedEntries_def)
qed

lemma missingNames_subset: "set (missingNames present names) \<subseteq> set names"
  by (auto simp: set_missingNames)

lemma ensureTools_present:
  assumes "namedEntries names build"
  shows "set names \<subseteq> set (toolNames (arrVal (jget (fst (ensureTools names build doc)) ''tools'')))"
proof (cases "missingNames (toolNames (arrVal (jget doc ''tools''))) names = []")
  case True
  then show ?thesis by (simp add: ensureTools_def missingNames_empty)
next
  case False
  then show ?thesis
    using toolNames_built [OF assms missingNames_subset]
    by (auto simp: ensureTools_def Let_def toolNames_append set_missingNames)
qed

text \<open>A tool is the client's own or one that was built.\<close>

lemma ensureTools_entries:
  "set (arrVal (jget (fst (ensureTools names build doc)) ''tools'')) \<subseteq>
     set (arrVal (jget doc ''tools'')) \<union> (\<lambda>n. JObj (build n)) ` set names"
  by (auto simp: ensureTools_def Let_def set_missingNames)

text \<open>The client's own tools stay, in front and in order.\<close>

lemma ensureTools_keeps:
  "prefix (arrVal (jget doc ''tools'')) (arrVal (jget (fst (ensureTools names build doc)) ''tools''))"
  by (simp add: ensureTools_def Let_def)

lemma ensureTools_local:
  assumes "namedEntries names build"
  shows "local_pass (ensureTools names build) {''tools''} {''tools''}"
proof
  fix r r' k
  show "\<not> snd (ensureTools names build r) \<Longrightarrow> fst (ensureTools names build r) = r"
    by (simp add: ensureTools_def Let_def split: if_splits)
  show "k \<notin> {''tools''} \<Longrightarrow> map_of (fst (ensureTools names build r)) k = map_of r k"
    by (simp add: ensureTools_def Let_def update_conv')
  show "uniqueKeys r \<Longrightarrow> uniqueKeys (fst (ensureTools names build r))"
    by (simp add: ensureTools_def Let_def)
  have "missingNames (toolNames (arrVal (jget (fst (ensureTools names build r)) ''tools''))) names = []"
    using ensureTools_present [OF assms] by (simp add: missingNames_empty)
  then show "\<not> snd (ensureTools names build (fst (ensureTools names build r)))"
    by (simp add: ensureTools_def [of _ _ "fst (ensureTools names build r)"])
  assume ag: "agree {''tools''} r r'"
  then have "jget r ''tools'' = jget r' ''tools''" by (simp add: agree_jget)
  then show "snd (ensureTools names build r) = snd (ensureTools names build r')"
    and "agree {''tools''} (fst (ensureTools names build r)) (fst (ensureTools names build r'))"
    using ag by (simp_all add: ensureTools_def Let_def agree_update)
qed simp

interpretation chat_tools: local_pass "ensureTools (fingerprintTools cfg) chatToolEntry"
    "{''tools''}" "{''tools''}" for cfg
  by (rule ensureTools_local) (rule entries_named)

interpretation responses_tools: local_pass "ensureTools (fingerprintTools cfg) responsesToolEntry"
    "{''tools''}" "{''tools''}" for cfg
  by (rule ensureTools_local) (rule entries_named)

interpretation claude_tools: local_pass "ensureTools (fingerprintTools cfg) claudeToolEntry"
    "{''tools''}" "{''tools''}" for cfg
  by (rule ensureTools_local) (rule entries_named)

subsection \<open>Gemini tool groups\<close>

lemma groupDecls_update [simp]:
  "groupDecls (JObj (jset ''functionDeclarations'' (JArr ds) m)) = ds"
  "isToolGroup (JObj (jset ''functionDeclarations'' (JArr ds) m))"
  by (simp_all add: groupDecls_def isToolGroup_def)

lemma addToFirstGroup_names:
  "set (geminiToolNames (addToFirstGroup new tools)) =
     set (geminiToolNames tools) \<union> set (toolNames new)"
proof (induction new tools rule: addToFirstGroup.induct)
  case (1 new)
  then show ?case
    by (simp add: geminiToolNames_def isToolGroup_def groupDecls_def jget_def toolNames_def)
next
  case (2 new tool tools)
  then show ?case by (auto simp: geminiToolNames_def toolNames_append)
qed

definition geminiDecls :: "json list \<Rightarrow> json list" where
  "geminiDecls tools = concat (map groupDecls (filter isToolGroup tools))"

lemma addToFirstGroup_decls:
  "set (geminiDecls (addToFirstGroup new tools)) = set (geminiDecls tools) \<union> set new"
proof (induction new tools rule: addToFirstGroup.induct)
  case (1 new)
  then show ?case by (simp add: geminiDecls_def isToolGroup_def groupDecls_def jget_def)
next
  case (2 new tool tools)
  then show ?case by (auto simp: geminiDecls_def)
qed

lemma ensureGeminiTools_entries:
  "set (geminiDecls (arrVal (jget (fst (ensureGeminiTools names doc)) ''tools''))) \<subseteq>
     set (geminiDecls (arrVal (jget doc ''tools''))) \<union> (\<lambda>n. JObj (geminiToolEntry n)) ` set names"
  by (auto simp: ensureGeminiTools_def Let_def addToFirstGroup_decls set_missingNames)

lemma ensureGeminiTools_present:
  assumes "namedEntries names geminiToolEntry"
  shows "set names \<subseteq> set (geminiToolNames (arrVal (jget (fst (ensureGeminiTools names doc)) ''tools'')))"
proof (cases "missingNames (geminiToolNames (arrVal (jget doc ''tools''))) names = []")
  case True
  then show ?thesis by (simp add: ensureGeminiTools_def missingNames_empty)
next
  case False
  then show ?thesis
    using toolNames_built [OF assms missingNames_subset]
    by (auto simp: ensureGeminiTools_def Let_def addToFirstGroup_names set_missingNames)
qed

lemma ensureGeminiTools_local:
  assumes "namedEntries names geminiToolEntry"
  shows "local_pass (ensureGeminiTools names) {''tools''} {''tools''}"
proof
  fix r r' k
  show "\<not> snd (ensureGeminiTools names r) \<Longrightarrow> fst (ensureGeminiTools names r) = r"
    by (simp add: ensureGeminiTools_def Let_def split: if_splits)
  show "k \<notin> {''tools''} \<Longrightarrow> map_of (fst (ensureGeminiTools names r)) k = map_of r k"
    by (simp add: ensureGeminiTools_def Let_def update_conv')
  show "uniqueKeys r \<Longrightarrow> uniqueKeys (fst (ensureGeminiTools names r))"
    by (simp add: ensureGeminiTools_def Let_def)
  have "missingNames (geminiToolNames (arrVal (jget (fst (ensureGeminiTools names r)) ''tools''))) names = []"
    using ensureGeminiTools_present [OF assms] by (simp add: missingNames_empty)
  then show "\<not> snd (ensureGeminiTools names (fst (ensureGeminiTools names r)))"
    by (simp add: ensureGeminiTools_def [of _ "fst (ensureGeminiTools names r)"])
  assume ag: "agree {''tools''} r r'"
  then have "jget r ''tools'' = jget r' ''tools''" by (simp add: agree_jget)
  then show "snd (ensureGeminiTools names r) = snd (ensureGeminiTools names r')"
    and "agree {''tools''} (fst (ensureGeminiTools names r)) (fst (ensureGeminiTools names r'))"
    using ag by (simp_all add: ensureGeminiTools_def Let_def agree_update)
qed simp

interpretation gemini_tools: local_pass "ensureGeminiTools (fingerprintTools cfg)"
    "{''tools''}" "{''tools''}" for cfg
  by (rule ensureGeminiTools_local) (rule entries_named)


subsection \<open>Additional tools\<close>

lemma keep_all:
  "length (filter P xs) = length xs \<longleftrightarrow> (\<forall>x\<in>set xs. P x)"
  by (metis filter_True length_filter_less less_irrefl)

lemma stripAdditionalTools_input:
  "jget doc ''input'' = JArr input \<Longrightarrow>
     jget (fst (stripAdditionalTools doc)) ''input'' =
       JArr (filter (\<lambda>item. \<not> isAdditionalTools item) input)"
  by (auto simp: stripAdditionalTools_def Let_def keep_all jget_update
      intro: filter_True [symmetric])

interpretation additional: settling_pass stripAdditionalTools "{''input'', ''tools''}"
proof
  fix r k
  show "\<not> snd (stripAdditionalTools r) \<Longrightarrow> fst (stripAdditionalTools r) = r"
    by (auto simp: stripAdditionalTools_def Let_def split: json.splits if_splits)
  show "k \<notin> {''input'', ''tools''} \<Longrightarrow> map_of (fst (stripAdditionalTools r)) k = map_of r k"
    by (auto simp: stripAdditionalTools_def Let_def update_conv' split: json.splits)
  show "uniqueKeys r \<Longrightarrow> uniqueKeys (fst (stripAdditionalTools r))"
    by (auto simp: stripAdditionalTools_def Let_def split: json.splits)
  show "\<not> snd (stripAdditionalTools (fst (stripAdditionalTools r)))"
  proof (cases "jget r ''input''")
    case (JArr input)
    then show ?thesis
      by (simp add: stripAdditionalTools_def [of "fst (stripAdditionalTools r)"]
          stripAdditionalTools_input)
  qed (simp_all add: stripAdditionalTools_def)
qed

lemma set_newTools:
  "toolName ` set (newTools present tools) = toolName ` set tools - set present"
  by (induction present tools rule: newTools.induct) auto

text \<open>A promoted declaration is available under its name at the top level afterwards.\<close>

lemma stripAdditionalTools_promotes:
  assumes "jget doc ''input'' = JArr input" "tool \<in> set (promotedTools input)"
  shows "toolName tool \<in> toolName ` set (arrVal (jget (fst (stripAdditionalTools doc)) ''tools''))"
proof -
  let ?old = "arrVal (jget doc ''tools'')"
  let ?new = "?old @ newTools (map toolName ?old) (promotedTools input)"
  have mem: "toolName tool \<in> toolName ` set ?new"
    using assms(2) set_newTools [of "map toolName ?old" "promotedTools input"] by auto
  have "\<not> (\<forall>x\<in>set input. \<not> isAdditionalTools x)"
    using assms(2) by (auto simp: promotedTools_def)
  then have "jget (fst (stripAdditionalTools doc)) ''tools'' = JArr ?new"
    using assms(1) mem by (auto simp: stripAdditionalTools_def Let_def keep_all jget_update)
  with mem show ?thesis by simp
qed

lemma newTools_subset: "set (newTools present tools) \<subseteq> set tools"
  by (induction present tools rule: newTools.induct) auto

lemma stripAdditionalTools_entries:
  "set (arrVal (jget (fst (stripAdditionalTools doc)) ''tools'')) \<subseteq>
     set (arrVal (jget doc ''tools'')) \<union> set (promotedTools (arrVal (jget doc ''input'')))"
proof (cases "jget doc ''input''")
  case (JArr input)
  then show ?thesis
    using newTools_subset [of _ "promotedTools input"]
    by (auto simp: stripAdditionalTools_def Let_def jget_update)
qed (simp_all add: stripAdditionalTools_def)

lemma promotedTools_Cons:
  "promotedTools (item # items) = promotedTools [item] @ promotedTools items"
  by (simp add: promotedTools_def)

lemma promotedTools_dropKeys:
  assumes "''type'' \<notin> set keys" "''tools'' \<notin> set keys"
  shows "promotedTools [JObj (fst (dropKeys keys m))] = promotedTools [JObj m]"
  using assms
  by (simp add: promotedTools_def isAdditionalTools_def isItemType_dropKeys jget_def map_of_dropKeys)

text \<open>Stripping reasoning takes no declaration away from what is promoted.\<close>

lemma stripReasoningList_promoted:
  "set (promotedTools (fst (stripReasoningList items))) \<subseteq> set (promotedTools items)"
proof (induction items)
  case Nil
  then show ?case by simp
next
  case (Cons x items)
  show ?case
  proof (cases x)
    case (JObj m)
    let ?ks = "[''encrypted_content'', ''reasoning_encrypted_content'']"
    let ?m = "JObj (fst (dropKeys ?ks m))"
    have "promotedTools [?m] = promotedTools [JObj m]" by (rule promotedTools_dropKeys) simp_all
    with Cons promotedTools_Cons [of "JObj m" items]
      promotedTools_Cons [of ?m "fst (stripReasoningList items)"] JObj
    show ?thesis by (auto split: prod.splits simp del: dropKeys.simps)
  qed (use Cons promotedTools_Cons [of x items] promotedTools_Cons [of x "fst (stripReasoningList items)"] in
      \<open>auto split: prod.splits\<close>)
qed

lemma stripReasoningItems_promoted:
  "set (promotedTools (arrVal (jget (fst (stripReasoningItems doc)) ''input''))) \<subseteq>
     set (promotedTools (arrVal (jget doc ''input'')))"
proof (cases "jget doc ''input''")
  case (JArr input)
  then show ?thesis
    using stripReasoningList_promoted [of input]
    by (auto simp: stripReasoningItems_def split: prod.splits)
qed (simp_all add: stripReasoningItems_def)

text \<open>The client's top-level declarations stay in front.\<close>

lemma stripAdditionalTools_keeps:
  "prefix (arrVal (jget doc ''tools''))
     (arrVal (jget (fst (stripAdditionalTools doc)) ''tools''))"
  by (auto simp: stripAdditionalTools_def Let_def jget_update split: json.splits)

subsection \<open>Environment\<close>

lemma sublist_middle: "sublist x (a @ x @ b)"
  by (auto simp: sublist_def)

lemma Environment_env: "hasEnvironment (JStr (u @ Environment e))"
proof -
  have "u @ Environment e =
      (u @ ''You are a coding agent.'' @ [CHR 0x0A]) @ ''<env>'' @
      ([CHR 0x0A] @ ''Working directory: '' @ workingDirectory e @ [CHR 0x0A] @ ''</env>'')"
    by (simp add: Environment_def)
  then have a: "sublist ''<env>'' (u @ Environment e)" by (metis sublist_middle)
  have "u @ Environment e =
      (u @ ''You are a coding agent.'' @ [CHR 0x0A] @ ''<env>'' @ [CHR 0x0A]) @
      ''Working directory:'' @ ('' '' @ workingDirectory e @ [CHR 0x0A] @ ''</env>'')"
    by (simp add: Environment_def)
  then have "sublist ''Working directory:'' (u @ Environment e)" by (metis sublist_middle)
  with a show ?thesis by simp
qed

lemma appendEnvironment_env: "hasEnvironment (JStr (appendEnvironment e text))"
  using Environment_env [of "[]" e] Environment_env [of "text @ nl2" e]
  by (simp add: appendEnvironment_def del: hasEnvironment.simps)

lemma textPart_env: "hasEnvironment (textPart e)"
  using Environment_env [of "[]" e] by (simp add: textPart_def)

lemma withEnvironment_env: "withEnvironment e content = Some v \<Longrightarrow> hasEnvironment v"
  using Environment_env [of "[]" e] appendEnvironment_env [of e] textPart_env [of e]
  by (cases content) (auto simp: withEnvironment_def simp del: hasEnvironment.simps(1))

lemma isPreamble_content [simp]: "isPreamble (jset ''content'' v m) = isPreamble m"
  by (simp add: isPreamble_def jget_update)

lemma placeInPreamble_env:
  "placeInPreamble e ms = Placed ms' \<Longrightarrow> messagesHaveEnvironment (JArr ms')"
proof (induction e ms arbitrary: ms' rule: placeInPreamble.induct)
  case (1 e)
  then show ?case by simp
next
  case (2 e raw rest)
  show ?case
  proof (cases "isPreamble (objVal raw)")
    case True
    with "2.prems" obtain v where v: "withEnvironment e (jget (objVal raw) ''content'') = Some v"
      and ms': "ms' = JObj (jset ''content'' v (objVal raw)) # rest"
      by (auto simp: Let_def split: option.splits)
    from True ms' withEnvironment_env [OF v] show ?thesis
      by (simp add: messagesHaveEnvironment_def)
  next
    case False
    with "2.prems" obtain ms where "placeInPreamble e rest = Placed ms" "ms' = raw # ms"
      by (auto simp: Let_def split: placement.splits)
    with "2.IH" [OF refl] False show ?thesis by (auto simp: messagesHaveEnvironment_def)
  qed
qed

lemma environmentMessage_env: "messagesHaveEnvironment (JArr (environmentMessage e # ms))"
  using Environment_env [of "[]" e]
  by (simp add: messagesHaveEnvironment_def environmentMessage_def isPreamble_def jget_def)

lemma update_member: "(k, v) \<in> set (AList.update k v m)"
  by (induction m) auto

lemma hasEnvironment_entry: "hasEnvironment v \<Longrightarrow> (k, v) \<in> set m \<Longrightarrow> hasEnvironment (JObj m)"
  by (auto simp: list_ex_iff)

definition environmentKeys :: "string set" where
  "environmentKeys =
     {''instructions'', ''system'', ''systemInstruction'', ''system_instruction'', ''messages''}"

end
