(* ===== verification/Body_Shape.thy ===== *)
theory Body_Shape
  imports Body_Passes
begin

section \<open>What the rewriting as a whole guarantees\<close>

text \<open>
  The environment step of each protocol is an interpretation of \<open>local_pass\<close>; the composed
  rewritings for Chat, Claude and Gemini bodies come out of \<open>local_pair\<close>, which gives their
  frame and that a second run changes nothing. For Responses bodies the frame comes from
  \<open>pass_pair\<close>, and the settled state is proved step by step, because two of the steps edit the
  same \<open>input\<close> list.
\<close>

subsection \<open>The environment steps\<close>

interpretation chat_env: local_pass "ensureChatEnvironment e" "{''messages''}" "{''messages''}" for e
proof (rule local_pass.intro)
  show "settling_pass (ensureChatEnvironment e) {''messages''}"
  proof (rule settlingI)
    show "body_pass (ensureChatEnvironment e) {''messages''}"
      by unfold_locales
        (auto simp: ensureChatEnvironment_def Let_def update_conv'
          split: if_splits placement.splits)
    show "\<not> snd (ensureChatEnvironment e (fst (ensureChatEnvironment e r)))"
      if "snd (ensureChatEnvironment e r)" for r
    proof -
      have "messagesHaveEnvironment (jget (fst (ensureChatEnvironment e r)) ''messages'')"
        using that placeInPreamble_env environmentMessage_env
        by (auto simp: ensureChatEnvironment_def Let_def split: if_splits placement.splits)
      then show ?thesis
        by (simp add: ensureChatEnvironment_def [of _ "fst (ensureChatEnvironment e r)"])
    qed
  qed
  show "local_pass_axioms (ensureChatEnvironment e) {''messages''} {''messages''}"
  proof
    fix r r'
    assume ag: "agree {''messages''} r r'"
    then have "jget r ''messages'' = jget r' ''messages''" by (simp add: agree_jget)
    then show "snd (ensureChatEnvironment e r) = snd (ensureChatEnvironment e r')"
      and "agree {''messages''} (fst (ensureChatEnvironment e r)) (fst (ensureChatEnvironment e r'))"
      using ag by (auto simp: ensureChatEnvironment_def Let_def agree_update split: placement.splits)
  qed simp
qed

interpretation claude_env: local_pass "ensureClaudeEnvironment e" "{''system''}" "{''system''}" for e
proof (rule local_pass.intro)
  show "settling_pass (ensureClaudeEnvironment e) {''system''}"
  proof (rule settlingI)
    show "body_pass (ensureClaudeEnvironment e) {''system''}"
      by unfold_locales
        (auto simp: ensureClaudeEnvironment_def update_conv' split: if_splits option.splits)
    show "\<not> snd (ensureClaudeEnvironment e (fst (ensureClaudeEnvironment e r)))"
      if "snd (ensureClaudeEnvironment e r)" for r
    proof -
      have "hasEnvironment (jget (fst (ensureClaudeEnvironment e r)) ''system'')"
        using that withEnvironment_env
        by (auto simp: ensureClaudeEnvironment_def split: if_splits option.splits)
      then show ?thesis
        by (simp add: ensureClaudeEnvironment_def [of _ "fst (ensureClaudeEnvironment e r)"])
    qed
  qed
  show "local_pass_axioms (ensureClaudeEnvironment e) {''system''} {''system''}"
  proof
    fix r r'
    assume ag: "agree {''system''} r r'"
    then have "jget r ''system'' = jget r' ''system''" by (simp add: agree_jget)
    then show "snd (ensureClaudeEnvironment e r) = snd (ensureClaudeEnvironment e r')"
      and "agree {''system''} (fst (ensureClaudeEnvironment e r)) (fst (ensureClaudeEnvironment e r'))"
      using ag by (auto simp: ensureClaudeEnvironment_def agree_update split: option.splits)
  qed simp
qed

interpretation responses_env:
  local_pass "ensureResponsesEnvironment e" "{''instructions''}" "{''instructions'', ''input''}" for e
proof (rule local_pass.intro)
  show "settling_pass (ensureResponsesEnvironment e) {''instructions''}"
  proof (rule settlingI)
    show "body_pass (ensureResponsesEnvironment e) {''instructions''}"
      by unfold_locales
        (auto simp: ensureResponsesEnvironment_def update_conv' split: if_splits json.splits)
    show "\<not> snd (ensureResponsesEnvironment e (fst (ensureResponsesEnvironment e r)))"
      if "snd (ensureResponsesEnvironment e r)" for r
    proof -
      have "hasEnvironment (jget (fst (ensureResponsesEnvironment e r)) ''instructions'')"
        using that appendEnvironment_env
        by (auto simp: ensureResponsesEnvironment_def simp del: hasEnvironment.simps(1)
            split: if_splits json.splits)
      then show ?thesis
        by (simp add: ensureResponsesEnvironment_def [of _ "fst (ensureResponsesEnvironment e r)"])
    qed
  qed
  show "local_pass_axioms (ensureResponsesEnvironment e) {''instructions''} {''instructions'', ''input''}"
  proof
    fix r r'
    assume ag: "agree {''instructions'', ''input''} r r'"
    then have "jget r ''instructions'' = jget r' ''instructions''" "jget r ''input'' = jget r' ''input''"
      by (simp_all add: agree_jget)
    then show "snd (ensureResponsesEnvironment e r) = snd (ensureResponsesEnvironment e r')"
      and "agree {''instructions'', ''input''} (fst (ensureResponsesEnvironment e r))
             (fst (ensureResponsesEnvironment e r'))"
      using ag by (auto simp: ensureResponsesEnvironment_def agree_update split: json.splits)
  qed simp
qed

definition geminiKeys :: "string set" where
  "geminiKeys = {''systemInstruction'', ''system_instruction''}"

lemma geminiSystemKey_in: "geminiSystemKey doc \<in> geminiKeys"
  by (simp add: geminiSystemKey_def geminiKeys_def)

lemma geminiSystemKey_update: "geminiSystemKey (jset (geminiSystemKey doc) v doc) = geminiSystemKey doc"
  by (simp add: geminiSystemKey_def)

lemma two_guards:
  "snd (if a then (r, False) else if b then (r, False) else (x, True)) \<Longrightarrow>
     fst (if a then (r, False) else if b then (r, False) else (x, True)) = x"
  by (simp split: if_splits)

lemma gemini_settles:
  assumes "snd (ensureGeminiEnvironment e r)"
  shows "\<not> snd (ensureGeminiEnvironment e (fst (ensureGeminiEnvironment e r)))"
proof -
  let ?sys = "objVal (jget r (geminiSystemKey r))"
  let ?parts = "JArr (arrVal (jget ?sys ''parts'') @ [JObj [(''text'', JStr (Environment e))]])"
  let ?r = "jset (geminiSystemKey r) (JObj (jset ''parts'' ?parts ?sys)) r"
  have r: "fst (ensureGeminiEnvironment e r) = ?r"
    using assms unfolding ensureGeminiEnvironment_def Let_def by (rule two_guards)
  have "hasEnvironment ?parts"
    using Environment_env [of "[]" e] by simp
  then have "hasEnvironment (JObj (jset ''parts'' ?parts ?sys))"
    by (rule hasEnvironment_entry) (rule update_member)
  then have "hasEnvironment (JObj (objVal (jget ?r (geminiSystemKey ?r))))"
    by (simp only: geminiSystemKey_update jget_update_same objVal.simps)
  then have "\<not> snd (ensureGeminiEnvironment e ?r)"
    by (simp only: ensureGeminiEnvironment_def [of _ ?r] Let_def if_True simp_thms snd_conv)
  then show ?thesis using r by simp
qed

interpretation gemini_env: local_pass "ensureGeminiEnvironment e" geminiKeys geminiKeys for e
proof (rule local_pass.intro)
  show "settling_pass (ensureGeminiEnvironment e) geminiKeys"
  proof (rule settlingI)
    show "\<not> snd (ensureGeminiEnvironment e (fst (ensureGeminiEnvironment e r)))"
      if "snd (ensureGeminiEnvironment e r)" for r
      using that by (rule gemini_settles)
    show "body_pass (ensureGeminiEnvironment e) geminiKeys"
      using geminiSystemKey_in
      by unfold_locales
        (auto simp: ensureGeminiEnvironment_def Let_def update_conv' split: if_splits)
  qed
  show "local_pass_axioms (ensureGeminiEnvironment e) geminiKeys geminiKeys"
  proof
    fix r r'
    assume ag: "agree geminiKeys r r'"
    then have key: "geminiSystemKey r = geminiSystemKey r'"
      by (simp add: geminiSystemKey_def geminiKeys_def agree_def hasKey_def)
    have "jget r (geminiSystemKey r') = jget r' (geminiSystemKey r')"
      using agree_jget [OF ag geminiSystemKey_in] .
    with key show "snd (ensureGeminiEnvironment e r) = snd (ensureGeminiEnvironment e r')"
      and "agree geminiKeys (fst (ensureGeminiEnvironment e r)) (fst (ensureGeminiEnvironment e r'))"
      using ag by (simp_all add: ensureGeminiEnvironment_def Let_def agree_update)
  qed simp
qed


subsection \<open>Compositions\<close>

interpretation stream_chat: local_pair "guarded b forceStream" "{''stream''}" "{''stream''}"
    "ensureTools (fingerprintTools cfg) chatToolEntry" "{''tools''}" "{''tools''}" for b cfg
  by (intro local_pair.intro local_pair_axioms.intro stream.guarded_local
      chat_tools.local_pass_axioms) simp

interpretation stream_claude: local_pair "guarded b forceStream" "{''stream''}" "{''stream''}"
    "ensureTools (fingerprintTools cfg) claudeToolEntry" "{''tools''}" "{''tools''}" for b cfg
  by (intro local_pair.intro local_pair_axioms.intro stream.guarded_local
      claude_tools.local_pass_axioms) simp

interpretation stream_gemini: local_pair "guarded b forceStream" "{''stream''}" "{''stream''}"
    "ensureGeminiTools (fingerprintTools cfg)" "{''tools''}" "{''tools''}" for b cfg
  by (intro local_pair.intro local_pair_axioms.intro stream.guarded_local
      gemini_tools.local_pass_axioms) simp

interpretation chat_shape: local_pair "ensureChatEnvironment e" "{''messages''}" "{''messages''}"
    "andThen (guarded b forceStream) (ensureTools (fingerprintTools cfg) chatToolEntry)"
    "{''stream''} \<union> {''tools''}" "{''stream''} \<union> {''tools''}" for e b cfg
  by (intro local_pair.intro local_pair_axioms.intro chat_env.local_pass_axioms
      stream_chat.pair_local) simp

interpretation claude_shape: local_pair "ensureClaudeEnvironment e" "{''system''}" "{''system''}"
    "andThen (guarded b forceStream) (ensureTools (fingerprintTools cfg) claudeToolEntry)"
    "{''stream''} \<union> {''tools''}" "{''stream''} \<union> {''tools''}" for e b cfg
  by (intro local_pair.intro local_pair_axioms.intro claude_env.local_pass_axioms
      stream_claude.pair_local) simp

interpretation gemini_shape: local_pair "ensureGeminiEnvironment e" geminiKeys geminiKeys
    "andThen (guarded b forceStream) (ensureGeminiTools (fingerprintTools cfg))"
    "{''stream''} \<union> {''tools''}" "{''stream''} \<union> {''tools''}" for e b cfg
  by (intro local_pair.intro local_pair_axioms.intro gemini_env.local_pass_axioms
      stream_gemini.pair_local) (simp add: geminiKeys_def)

text \<open>The rewriting of a body that is not a Responses body, by its source format.\<close>

definition shapeKeys :: "string \<Rightarrow> string set" where
  "shapeKeys source =
     (if source = ''claude'' then {''system''}
      else if source = ''gemini'' then geminiKeys
      else {''messages''}) \<union> ({''stream''} \<union> {''tools''})"

abbreviation streamOn :: "FingerprintConfig \<Rightarrow> string \<Rightarrow> bool" where
  "streamOn cfg source \<equiv>
     source \<noteq> ''gemini'' \<and> BoolVal (ForceStream cfg) DefaultFingerprintStream"

lemma shapeBody_plain:
  assumes "\<not> hasKey doc ''input''"
  shows "shapeBody e cfg source toFormat doc =
     (if source = ''claude'' then
        andThen (ensureClaudeEnvironment e) (andThen (guarded (streamOn cfg source) forceStream)
          (ensureTools (fingerprintTools cfg) claudeToolEntry)) doc
      else if source = ''gemini'' then
        andThen (ensureGeminiEnvironment e) (andThen (guarded (streamOn cfg source) forceStream)
          (ensureGeminiTools (fingerprintTools cfg))) doc
      else
        andThen (ensureChatEnvironment e) (andThen (guarded (streamOn cfg source) forceStream)
          (ensureTools (fingerprintTools cfg) chatToolEntry)) doc)"
proof -
  let ?S = "guarded (streamOn cfg source) forceStream"
  have g: "hasKey (fst (?S d)) ''input'' = hasKey d ''input''" for d
    using body_pass.frame_hasKey [OF stream.guarded_pass] by simp
  have pass: "andThen p (andThen ?S (protocolPasses cfg source toFormat)) doc =
      andThen p (andThen ?S q) doc"
    if "hasKey (fst (p doc)) ''input'' = hasKey doc ''input''"
      and "\<And>d. \<not> hasKey d ''input'' \<Longrightarrow> protocolPasses cfg source toFormat d = q d" for p q
  proof -
    have "\<not> hasKey (fst (?S (fst (p doc)))) ''input''" using that(1) g assms by simp
    from that(2) [OF this] show ?thesis
      by (intro prod_eqI) simp_all
  qed
  have env: "ensureEnvironment e source doc =
      (if source = ''claude'' then ensureClaudeEnvironment e doc
       else if source = ''gemini'' then ensureGeminiEnvironment e doc
       else ensureChatEnvironment e doc)"
    using assms by (simp add: ensureEnvironment_def)
  have split: "shapeBody e cfg source toFormat doc =
      andThen p (andThen ?S (protocolPasses cfg source toFormat)) doc"
    if "ensureEnvironment e source doc = p doc" for p
    using that by (intro prod_eqI) (simp_all add: shapeBody_def)
  show ?thesis
  proof (cases "source = ''claude''")
    case True
    have "shapeBody e cfg source toFormat doc =
        andThen (ensureClaudeEnvironment e) (andThen ?S (protocolPasses cfg source toFormat)) doc"
      by (rule split) (use env True in simp)
    also have "\<dots> = andThen (ensureClaudeEnvironment e)
        (andThen ?S (ensureTools (fingerprintTools cfg) claudeToolEntry)) doc"
      by (rule pass) (simp_all add: protocolPasses_def True claude_env.frame_hasKey)
    finally show ?thesis using True by simp
  next
    case notc: False
    show ?thesis
    proof (cases "source = ''gemini''")
      case True
      have "shapeBody e cfg source toFormat doc =
          andThen (ensureGeminiEnvironment e) (andThen ?S (protocolPasses cfg source toFormat)) doc"
        by (rule split) (use env True in simp)
      also have "\<dots> = andThen (ensureGeminiEnvironment e)
          (andThen ?S (ensureGeminiTools (fingerprintTools cfg))) doc"
        by (rule pass) (simp_all add: protocolPasses_def True gemini_env.frame_hasKey geminiKeys_def)
      finally show ?thesis using True by simp
    next
      case False
      have "shapeBody e cfg source toFormat doc =
          andThen (ensureChatEnvironment e) (andThen ?S (protocolPasses cfg source toFormat)) doc"
        by (rule split) (use env False notc in simp)
      also have "\<dots> = andThen (ensureChatEnvironment e)
          (andThen ?S (ensureTools (fingerprintTools cfg) chatToolEntry)) doc"
        by (rule pass) (simp_all add: protocolPasses_def False notc chat_env.frame_hasKey)
      finally show ?thesis using False notc by simp
    qed
  qed
qed


lemma shapeBody_pass:
  assumes "\<not> hasKey doc ''input''"
  obtains p where "local_pass p (shapeKeys source) (shapeKeys source)"
    "\<And>d. \<not> hasKey d ''input'' \<Longrightarrow> shapeBody e cfg source toFormat d = p d"
proof (cases "source = ''claude''")
  case True
  show ?thesis
  proof (rule that)
    show "local_pass (andThen (ensureClaudeEnvironment e)
        (andThen (guarded (streamOn cfg source) forceStream)
          (ensureTools (fingerprintTools cfg) claudeToolEntry))) (shapeKeys source) (shapeKeys source)"
      using claude_shape.pair_local by (simp add: True shapeKeys_def)
  qed (use True in \<open>simp add: shapeBody_plain\<close>)
next
  case notc: False
  show ?thesis
  proof (cases "source = ''gemini''")
    case True
    show ?thesis
    proof (rule that)
      show "local_pass (andThen (ensureGeminiEnvironment e)
          (andThen (guarded (streamOn cfg source) forceStream)
            (ensureGeminiTools (fingerprintTools cfg)))) (shapeKeys source) (shapeKeys source)"
        using gemini_shape.pair_local [of e False cfg] by (simp add: True shapeKeys_def)
    qed (use True in \<open>simp add: shapeBody_plain\<close>)
  next
    case False
    show ?thesis
    proof (rule that)
      show "local_pass (andThen (ensureChatEnvironment e)
          (andThen (guarded (streamOn cfg source) forceStream)
            (ensureTools (fingerprintTools cfg) chatToolEntry))) (shapeKeys source) (shapeKeys source)"
        using chat_shape.pair_local [of e "streamOn cfg source" cfg]
        by (simp add: False notc shapeKeys_def)
    qed (use False notc in \<open>simp add: shapeBody_plain\<close>)
  qed
qed

lemma shapeKeys_input: "''input'' \<notin> shapeKeys source"
  by (simp add: shapeKeys_def geminiKeys_def)

lemma shapeBody_frame:
  assumes "\<not> hasKey doc ''input''" "k \<notin> shapeKeys source"
  shows "map_of (fst (shapeBody e cfg source toFormat doc)) k = map_of doc k"
proof -
  obtain p where p: "local_pass p (shapeKeys source) (shapeKeys source)"
    "\<And>d. \<not> hasKey d ''input'' \<Longrightarrow> shapeBody e cfg source toFormat d = p d"
    using shapeBody_pass [OF assms(1)] by blast
  have "map_of (fst (p doc)) k = map_of doc k"
    using p(1) assms(2)
    by (meson body_pass.frame local_pass.axioms(1) settling_pass.axioms(1))
  with p(2) [OF assms(1)] show ?thesis by simp
qed


subsection \<open>Responses bodies\<close>

definition responsesKeys :: "string set" where
  "responsesKeys = {''store'', ''input'', ''tools''} \<union> tokenCapKeys"

lemma tools_additional_pass:
  "body_pass (andThen (guarded b stripAdditionalTools)
     (ensureTools (fingerprintTools cfg) responsesToolEntry)) {''input'', ''tools''}"
proof -
  have "{''input'', ''tools''} \<union> {''tools''} = {''input'', ''tools'' :: string}" by auto
  then show ?thesis
    using pair_body_pass [OF additional.guarded_pass responses_tools.body_pass_axioms] by metis
qed

lemma responses_pass: "body_pass (responsesPasses cfg toFormat) responsesKeys"
proof -
  have eq: "responsesKeys = {''store''} \<union> (tokenCapKeys \<union> ({''input''} \<union> {''input'', ''tools''}))"
    by (auto simp: responsesKeys_def)
  show ?thesis
    unfolding responsesPasses_def eq
    by (intro pair_body_pass store.body_pass_axioms cap.body_pass_axioms
        reasoning.guarded_pass tools_additional_pass)
qed

subsection \<open>Running twice\<close>

text \<open>Whether there is anything to add does not depend on the working directory.\<close>

lemma withEnvironment_None: "withEnvironment e c = None \<longleftrightarrow> withEnvironment e' c = None"
  by (cases c) (simp_all add: withEnvironment_def)

lemma placeInPreamble_kind:
  "(placeInPreamble e ms = Rejected) = (placeInPreamble e' ms = Rejected)"
proof (induction ms)
  case Nil
  then show ?case by simp
next
  case (Cons raw rest)
  then show ?case
    using withEnvironment_None [of e "jget (objVal raw) ''content''" e']
    by (auto simp: Let_def split: placement.splits option.splits)
qed

lemma ensureEnvironment_flag:
  "snd (ensureEnvironment e source doc) = snd (ensureEnvironment e' source doc)"
proof -
  have chat: "snd (ensureChatEnvironment e doc) = snd (ensureChatEnvironment e' doc)"
    using placeInPreamble_kind [of e "arrVal (jget doc ''messages'')" e']
    by (auto simp: ensureChatEnvironment_def Let_def split: placement.splits)
  have claude: "snd (ensureClaudeEnvironment e doc) = snd (ensureClaudeEnvironment e' doc)"
    using withEnvironment_None [of e "jget doc ''system''" e']
    by (auto simp: ensureClaudeEnvironment_def split: option.splits)
  show ?thesis
    by (simp add: ensureEnvironment_def chat claude ensureGeminiEnvironment_def
        ensureResponsesEnvironment_def Let_def split: json.splits)
qed

lemma ensureEnvironment_quiet:
  "\<not> snd (ensureEnvironment e source doc) \<Longrightarrow> fst (ensureEnvironment e source doc) = doc"
  by (auto simp: ensureEnvironment_def responses_env.quiet claude_env.quiet gemini_env.quiet
      chat_env.quiet split: if_splits)

lemma shapeBody_settled_env:
  assumes "\<not> snd (shapeBody e cfg source toFormat doc)"
  shows "shapeBody e' cfg source toFormat doc = (doc, False)"
proof -
  let ?S = "guarded (streamOn cfg source) forceStream"
  have env: "\<not> snd (ensureEnvironment e source doc)" "\<not> snd (ensureEnvironment e' source doc)"
    using assms ensureEnvironment_flag by (auto simp: shapeBody_def)
  then have doc: "fst (ensureEnvironment e source doc) = doc"
    "fst (ensureEnvironment e' source doc) = doc"
    by (simp_all add: ensureEnvironment_quiet)
  have s: "\<not> snd (?S doc)" using assms doc by (simp add: shapeBody_def)
  then have s': "fst (?S doc) = doc" by (rule body_pass.quiet [OF stream.guarded_pass])
  have p: "\<not> snd (protocolPasses cfg source toFormat doc)"
    using assms doc s' by (simp add: shapeBody_def)
  have "fst (protocolPasses cfg source toFormat doc) = doc"
  proof -
    from p show ?thesis
      by (auto simp: protocolPasses_def claude_tools.quiet gemini_tools.quiet chat_tools.quiet
          intro: body_pass.quiet [OF responses_pass] split: if_splits)
  qed
  with env(2) doc(2) s s' p show ?thesis
    by (intro prod_eqI) (simp_all add: shapeBody_def)
qed

lemma shapeBody_twice:
  assumes "\<not> hasKey doc ''input''"
  shows "shapeBody e' cfg source toFormat (fst (shapeBody e cfg source toFormat doc)) =
     (fst (shapeBody e cfg source toFormat doc), False)"
proof -
  obtain p where p: "local_pass p (shapeKeys source) (shapeKeys source)"
    "\<And>d. \<not> hasKey d ''input'' \<Longrightarrow> shapeBody e cfg source toFormat d = p d"
    using shapeBody_pass [OF assms] by blast
  have "hasKey (fst (shapeBody e cfg source toFormat doc)) ''input'' = hasKey doc ''input''"
    using shapeBody_frame [OF assms shapeKeys_input] by (simp add: hasKey_def)
  with assms have no: "\<not> hasKey (fst (shapeBody e cfg source toFormat doc)) ''input''" by simp
  have "\<not> snd (p (fst (p doc)))"
    using p(1) by (meson local_pass.axioms(1) settling_pass.settled)
  then have "\<not> snd (shapeBody e cfg source toFormat (fst (shapeBody e cfg source toFormat doc)))"
    using p(2) [OF assms] p(2) [OF no] by simp
  then show ?thesis by (rule shapeBody_settled_env)
qed

subsection \<open>Streaming\<close>

lemma protocolPasses_stream:
  "jget (fst (protocolPasses cfg source toFormat doc)) ''stream'' = jget doc ''stream''"
proof -
  have "jget (fst (responsesPasses cfg toFormat doc)) ''stream'' = jget doc ''stream''"
    by (rule body_pass.frame_jget [OF responses_pass]) (simp add: responsesKeys_def tokenCapKeys_def)
  then show ?thesis
    by (simp add: protocolPasses_def claude_tools.frame_jget gemini_tools.frame_jget
        chat_tools.frame_jget)
qed

lemma shapeBody_stream:
  "streamOn cfg source \<Longrightarrow>
     jget (fst (shapeBody e cfg source toFormat doc)) ''stream'' = JBool True"
  by (simp add: shapeBody_def protocolPasses_stream forceStream_def)


subsection \<open>Hygiene of Responses bodies\<close>

lemma responses_stages:
  "fst (responsesPasses cfg toFormat doc) =
     (let d1 = fst (forceNoStore doc);
          d2 = fst (normalizeMaxOutputTokens d1);
          d3 = fst (guarded (BoolVal (StripReasoning cfg) DefaultFingerprintStripRsn)
                 stripReasoningItems d2);
          d4 = fst (guarded (isResponsesWire toFormat \<and>
                 BoolVal (StripAdditionalTools cfg) DefaultFingerprintStripAdd)
                 stripAdditionalTools d3)
      in fst (ensureTools (fingerprintTools cfg) responsesToolEntry d4))"
  by (simp add: responsesPasses_def Let_def)

lemma responses_store:
  "jget (fst (responsesPasses cfg toFormat doc)) ''store'' = JBool False"
proof -
  have "jget (fst (forceNoStore doc)) ''store'' = JBool False"
    by (simp add: forceNoStore_def)
  then show ?thesis
    by (simp add: responses_stages Let_def responses_tools.frame_jget
        body_pass.frame_jget [OF additional.guarded_pass]
        body_pass.frame_jget [OF reasoning.guarded_pass] cap.frame_jget tokenCapKeys_def)
qed

lemma responses_no_chat_caps:
  assumes "k \<in> {''max_tokens'', ''max_completion_tokens''}"
  shows "\<not> hasKey (fst (responsesPasses cfg toFormat doc)) k"
proof -
  have "\<not> hasKey (fst (normalizeMaxOutputTokens d)) k" for d
    using assms unfolding normalizeMaxOutputTokens_def fst_andThen hasKey_dropKeys by auto
  moreover have "k \<noteq> ''tools''" "k \<noteq> ''input''" using assms by auto
  ultimately show ?thesis
    by (simp add: responses_stages Let_def responses_tools.frame_hasKey
        body_pass.frame_hasKey [OF additional.guarded_pass]
        body_pass.frame_hasKey [OF reasoning.guarded_pass])
qed

text \<open>The token cap that survives, by priority.\<close>

definition isNum :: "json \<Rightarrow> bool" where
  "isNum v \<longleftrightarrow> (\<exists>q. v = JNum q)"

definition tokenCap :: "obj \<Rightarrow> json" where
  "tokenCap doc =
     (if hasKey doc ''max_output_tokens'' then jget doc ''max_output_tokens''
      else if isNum (jget doc ''max_completion_tokens'') then jget doc ''max_completion_tokens''
      else if isNum (jget doc ''max_tokens'') then jget doc ''max_tokens''
      else JNull)"

lemma normalize_tokenCap:
  "jget (fst (normalizeMaxOutputTokens doc)) ''max_output_tokens'' = tokenCap doc"
proof -
  let ?move = "\<lambda>doc. if \<not> hasKey doc ''max_output_tokens''
     then moveTokenCap [''max_completion_tokens'', ''max_tokens''] doc else (doc, False)"
  have "jget (fst (?move doc)) ''max_output_tokens'' = tokenCap doc"
    by (auto simp: tokenCap_def isNum_def not_hasKey_jget split: json.splits)
  moreover have "jget (fst (dropKeys [''max_tokens'', ''max_completion_tokens''] d)) ''max_output_tokens''
      = jget d ''max_output_tokens''" for d
    by (rule drop.frame_jget) simp
  ultimately show ?thesis
    unfolding normalizeMaxOutputTokens_def fst_andThen by simp
qed

lemma responses_tokenCap:
  "jget (fst (responsesPasses cfg toFormat doc)) ''max_output_tokens'' = tokenCap doc"
proof -
  have "tokenCap (fst (forceNoStore doc)) = tokenCap doc"
    by (simp add: tokenCap_def store.frame_hasKey store.frame_jget)
  then show ?thesis
    by (simp add: responses_stages Let_def responses_tools.frame_jget
        body_pass.frame_jget [OF additional.guarded_pass]
        body_pass.frame_jget [OF reasoning.guarded_pass] normalize_tokenCap)
qed

lemma responses_input:
  assumes "jget doc ''input'' = JArr input"
  shows "jget (fst (responsesPasses cfg toFormat doc)) ''input'' =
    JArr ((if isResponsesWire toFormat \<and>
             BoolVal (StripAdditionalTools cfg) DefaultFingerprintStripAdd
           then filter (\<lambda>item. \<not> isAdditionalTools item) else id)
          ((if BoolVal (StripReasoning cfg) DefaultFingerprintStripRsn
            then (\<lambda>xs. fst (stripReasoningList xs)) else id) input))"
proof -
  let ?d2 = "fst (normalizeMaxOutputTokens (fst (forceNoStore doc)))"
  have d2: "jget ?d2 ''input'' = JArr input"
    using assms by (simp add: cap.frame_jget store.frame_jget tokenCapKeys_def)
  have r: "jget (fst (stripReasoningItems ?d2)) ''input'' = JArr (fst (stripReasoningList input))"
    using d2 stripReasoningList_quiet [of input]
    by (auto simp: stripReasoningItems_def split: prod.splits)
  show ?thesis
    by (cases "BoolVal (StripReasoning cfg) DefaultFingerprintStripRsn";
        cases "isResponsesWire toFormat \<and> BoolVal (StripAdditionalTools cfg) DefaultFingerprintStripAdd")
      (simp_all add: responses_stages Let_def responses_tools.frame_jget d2 r
        stripAdditionalTools_input [OF d2] stripAdditionalTools_input [OF r] del: de_Morgan_conj)
qed

lemma responses_tools_present:
  "set (fingerprintTools cfg) \<subseteq>
     set (toolNames (arrVal (jget (fst (responsesPasses cfg toFormat doc)) ''tools'')))"
  unfolding responses_stages Let_def by (rule ensureTools_present [OF entries_named(2)])

text \<open>
  Where a body declares tools and under which names, and what a declaration looks like in each
  of the protocols.
\<close>

definition toolList :: "string \<Rightarrow> obj \<Rightarrow> json list" where
  "toolList source doc =
     (if \<not> hasKey doc ''input'' \<and> source = ''gemini'' then geminiDecls (arrVal (jget doc ''tools''))
      else arrVal (jget doc ''tools''))"

definition declaredTools :: "string \<Rightarrow> obj \<Rightarrow> string set" where
  "declaredTools source doc = set (toolNames (toolList source doc))"

definition declares :: "string \<Rightarrow> obj \<Rightarrow> string \<Rightarrow> json \<Rightarrow> bool" where
  "declares source doc name v \<longleftrightarrow>
     (let m = objVal v; fn = objVal (jget m ''function'') in
      if hasKey doc ''input'' then
        jget m ''type'' = JStr ''function'' \<and> jget m ''name'' = JStr name \<and> isObj (jget m ''parameters'')
      else if source = ''claude'' then
        \<not> hasKey m ''type'' \<and> jget m ''name'' = JStr name \<and> isObj (jget m ''input_schema'')
      else if source = ''gemini'' then
        \<not> hasKey m ''type'' \<and> jget m ''name'' = JStr name \<and> isObj (jget m ''parameters'')
      else
        jget m ''type'' = JStr ''function'' \<and> jget fn ''name'' = JStr name \<and> isObj (jget fn ''parameters''))"

lemma declaredTools_gemini:
  "declaredTools source doc =
     (if \<not> hasKey doc ''input'' \<and> source = ''gemini''
      then set (geminiToolNames (arrVal (jget doc ''tools'')))
      else set (toolNames (arrVal (jget doc ''tools''))))"
  by (simp add: declaredTools_def toolList_def geminiToolNames_def geminiDecls_def)

lemma entries_declare:
  "hasKey doc ''input'' \<Longrightarrow> declares source doc n (JObj (responsesToolEntry n))"
  "\<not> hasKey doc ''input'' \<Longrightarrow> declares ''claude'' doc n (JObj (claudeToolEntry n))"
  "\<not> hasKey doc ''input'' \<Longrightarrow> declares ''gemini'' doc n (JObj (geminiToolEntry n))"
  "\<not> hasKey doc ''input'' \<Longrightarrow> source \<noteq> ''claude'' \<Longrightarrow> source \<noteq> ''gemini'' \<Longrightarrow>
     declares source doc n (JObj (chatToolEntry n))"
  by (simp_all add: declares_def responsesToolEntry_def claudeToolEntry_def geminiToolEntry_def
      chatToolEntry_def jget_def hasKey_def ToolSchema_def schemaObject_def)

lemma reasoning_hasInput:
  "hasKey (fst (stripReasoningItems d)) ''input'' = hasKey d ''input''"
  using jget_hasKey [of d "''input''"]
  by (auto simp: stripReasoningItems_def split: json.splits prod.splits)

lemma additional_hasInput:
  "hasKey (fst (stripAdditionalTools d)) ''input'' = hasKey d ''input''"
  using jget_hasKey [of d "''input''"]
  by (auto simp: stripAdditionalTools_def Let_def split: json.splits)

lemma protocolPasses_hasInput:
  "hasKey (fst (protocolPasses cfg source toFormat doc)) ''input'' = hasKey doc ''input''"
proof -
  have "hasKey (fst (guarded b stripReasoningItems d)) ''input'' = hasKey d ''input''"
    "hasKey (fst (guarded b stripAdditionalTools d)) ''input'' = hasKey d ''input''" for b d
    by (cases b; simp add: reasoning_hasInput additional_hasInput)+
  then have "hasKey (fst (responsesPasses cfg toFormat doc)) ''input'' = hasKey doc ''input''"
    by (simp add: responses_stages Let_def responses_tools.frame_hasKey cap.frame_hasKey
        store.frame_hasKey tokenCapKeys_def)
  then show ?thesis
    by (simp add: protocolPasses_def claude_tools.frame_hasKey gemini_tools.frame_hasKey
        chat_tools.frame_hasKey)
qed

lemma protocolPasses_tools:
  "set (fingerprintTools cfg) \<subseteq> declaredTools source (fst (protocolPasses cfg source toFormat doc))"
proof (cases "hasKey doc ''input''")
  case True
  then show ?thesis
    using responses_tools_present [of cfg toFormat doc]
    by (simp add: declaredTools_gemini protocolPasses_hasInput) (simp add: protocolPasses_def)
next
  case False
  consider (claude) "source = ''claude''" | (gemini) "source = ''gemini''"
    | (chat) "source \<noteq> ''claude''" "source \<noteq> ''gemini''" by blast
  then show ?thesis
  proof cases
    case claude
    with False ensureTools_present [OF entries_named(3), of cfg doc]
    show ?thesis
      by (simp add: declaredTools_gemini protocolPasses_hasInput) (simp add: protocolPasses_def)
  next
    case gemini
    with False ensureGeminiTools_present [OF entries_named(4), of cfg doc]
    show ?thesis
      by (simp add: declaredTools_gemini protocolPasses_hasInput) (simp add: protocolPasses_def)
  next
    case chat
    with False ensureTools_present [OF entries_named(1), of cfg doc]
    show ?thesis
      by (simp add: declaredTools_gemini protocolPasses_hasInput) (simp add: protocolPasses_def)
  qed
qed

lemma shapeBody_tools:
  "set (fingerprintTools cfg) \<subseteq> declaredTools source (fst (shapeBody e cfg source toFormat doc))"
  unfolding shapeBody_def fst_andThen by (rule protocolPasses_tools)

text \<open>Every tool afterwards is one of the client's, top-level or promoted, or one of the protocol's shape.\<close>

definition clientTools :: "string \<Rightarrow> obj \<Rightarrow> json set" where
  "clientTools source doc =
     set (toolList source doc) \<union> set (promotedTools (arrVal (jget doc ''input'')))"

lemma responses_entries:
  "set (arrVal (jget (fst (responsesPasses cfg toFormat doc)) ''tools'')) \<subseteq>
     set (arrVal (jget doc ''tools'')) \<union> set (promotedTools (arrVal (jget doc ''input''))) \<union>
     (\<lambda>n. JObj (responsesToolEntry n)) ` set (fingerprintTools cfg)"
proof -
  let ?d2 = "fst (normalizeMaxOutputTokens (fst (forceNoStore doc)))"
  define d3 where "d3 = fst (guarded (BoolVal (StripReasoning cfg) DefaultFingerprintStripRsn) stripReasoningItems ?d2)"
  define b where "b = (isResponsesWire toFormat \<and> BoolVal (StripAdditionalTools cfg) DefaultFingerprintStripAdd)"
  define d4 where "d4 = fst (guarded b stripAdditionalTools d3)"
  have out: "fst (responsesPasses cfg toFormat doc) = fst (ensureTools (fingerprintTools cfg) responsesToolEntry d4)"
    by (simp add: responses_stages Let_def d3_def b_def d4_def)
  have "jget ?d2 ''input'' = jget doc ''input''"
    by (simp add: cap.frame_jget store.frame_jget tokenCapKeys_def)
  then have p: "set (promotedTools (arrVal (jget d3 ''input''))) \<subseteq> set (promotedTools (arrVal (jget doc ''input'')))"
    using stripReasoningItems_promoted [of ?d2]
    by (cases "BoolVal (StripReasoning cfg) DefaultFingerprintStripRsn") (simp_all add: d3_def)
  have t: "jget d3 ''tools'' = jget doc ''tools''"
    by (simp add: d3_def body_pass.frame_jget [OF reasoning.guarded_pass] cap.frame_jget
        store.frame_jget tokenCapKeys_def)
  have "set (arrVal (jget d4 ''tools'')) \<subseteq>
      set (arrVal (jget d3 ''tools'')) \<union> set (promotedTools (arrVal (jget d3 ''input'')))"
    using stripAdditionalTools_entries [of d3] by (cases b) (simp_all add: d4_def)
  with p t ensureTools_entries [of "fingerprintTools cfg" responsesToolEntry d4] show ?thesis
    unfolding out by auto
qed

lemma protocolPasses_entries:
  "set (toolList source (fst (protocolPasses cfg source toFormat doc))) \<subseteq>
     clientTools source doc \<union> {v. \<exists>n\<in>set (fingerprintTools cfg). declares source doc n v}"
proof (cases "hasKey doc ''input''")
  case True
  have "(\<lambda>n. JObj (responsesToolEntry n)) ` set (fingerprintTools cfg) \<subseteq>
      {v. \<exists>n\<in>set (fingerprintTools cfg). declares source doc n v}"
    using entries_declare(1) [OF True] by blast
  then have "set (arrVal (jget (fst (responsesPasses cfg toFormat doc)) ''tools'')) \<subseteq>
      set (arrVal (jget doc ''tools'')) \<union> set (promotedTools (arrVal (jget doc ''input''))) \<union>
      {v. \<exists>n\<in>set (fingerprintTools cfg). declares source doc n v}"
    using responses_entries [of cfg toFormat doc] by blast
  then show ?thesis
    using True by (simp add: toolList_def clientTools_def protocolPasses_hasInput) (simp add: protocolPasses_def)
next
  case False
  consider (claude) "source = ''claude''" | (gemini) "source = ''gemini''"
    | (chat) "source \<noteq> ''claude''" "source \<noteq> ''gemini''" by blast
  then show ?thesis
  proof cases
    case claude
    with False ensureTools_entries [of "fingerprintTools cfg" claudeToolEntry doc] entries_declare(2) [OF False]
    show ?thesis
      by (simp add: toolList_def clientTools_def protocolPasses_hasInput) (auto simp: protocolPasses_def)
  next
    case gemini
    with False ensureGeminiTools_entries [of "fingerprintTools cfg" doc] entries_declare(3) [OF False]
    show ?thesis
      by (simp add: toolList_def clientTools_def protocolPasses_hasInput) (auto simp: protocolPasses_def)
  next
    case chat
    with False ensureTools_entries [of "fingerprintTools cfg" chatToolEntry doc]
      entries_declare(4) [OF False chat]
    show ?thesis
      by (simp add: toolList_def clientTools_def protocolPasses_hasInput) (auto simp: protocolPasses_def)
  qed
qed

text \<open>Reaching the protocol passes leaves the presence and the value of \<open>input\<close> alone.\<close>

lemma ensureEnvironment_input:
  "map_of (fst (ensureEnvironment e source doc)) ''input'' = map_of doc ''input''"
  by (auto simp: ensureEnvironment_def responses_env.frame claude_env.frame gemini_env.frame
      chat_env.frame geminiKeys_def)

lemma shapeBody_responses:
  assumes "hasKey doc ''input''"
  obtains doc1 where
    "fst (shapeBody e cfg source toFormat doc) = fst (responsesPasses cfg toFormat doc1)"
    "map_of doc1 ''input'' = map_of doc ''input''"
    "\<And>k. k \<notin> insert ''stream'' environmentKeys \<Longrightarrow> map_of doc1 k = map_of doc k"
proof (rule that)
  let ?S = "guarded (streamOn cfg source) forceStream"
  let ?d = "fst (?S (fst (ensureEnvironment e source doc)))"
  have fr: "map_of (fst (?S d)) k = map_of d k" if "k \<noteq> ''stream''" for k d
    using that body_pass.frame [OF stream.guarded_pass] by simp
  show i: "map_of ?d ''input'' = map_of doc ''input''"
    by (simp add: fr ensureEnvironment_input)
  with assms have "hasKey ?d ''input''" by (simp add: hasKey_def)
  then show "fst (shapeBody e cfg source toFormat doc) = fst (responsesPasses cfg toFormat ?d)"
    by (simp add: shapeBody_def protocolPasses_def)
  show "map_of ?d k = map_of doc k" if "k \<notin> insert ''stream'' environmentKeys" for k
    using that assms
    by (auto simp: fr ensureEnvironment_def responses_env.frame environmentKeys_def)
qed

end
