(* ===== verification/Body_Properties.thy ===== *)
theory Body_Properties
  imports Body_Shape
begin

section \<open>Properties of the body rewriting\<close>

text \<open>
  The theorems on \<open>applyFingerprintBody\<close> and the rewriting it runs, with the instances that
  show their hypotheses can hold. \<open>sampleEnv\<close> is one reading of the environment.
\<close>

definition sampleEnv :: env where
  "sampleEnv =
    \<lparr> nowMillis = 1750000000000, getwd = Some ''/srv/app'', idRand = None,
      traceRand = (\<lambda>i. of_nat i), spanRand = (\<lambda>i. of_nat (i + 1)),
      parentRand = (\<lambda>i. of_nat (i + 2)) \<rparr>"

subsection \<open>Lemmas\<close>

lemma shapeBody_changed:
  "snd (shapeBody e cfg source toFormat doc) \<or> fst (shapeBody e cfg source toFormat doc) = doc"
proof (cases "snd (shapeBody e cfg source toFormat doc)")
  case False
  then have "shapeBody e cfg source toFormat doc = (doc, False)" by (rule shapeBody_settled_env)
  then show ?thesis by simp
qed simp

lemma applyFingerprintBody_changed:
  "applyFingerprintBody e J body cfg source toFormat = (out, True) \<longleftrightarrow>
     body \<noteq> [] \<and> (\<exists>doc. unmarshalMap J body = Root doc \<and>
       snd (shapeBody e cfg (ToLower (TrimSpace source)) toFormat doc) \<and>
       marshal J (JObj (fst (shapeBody e cfg (ToLower (TrimSpace source)) toFormat doc))) = Some out)"
  by (auto simp: applyFingerprintBody_def split: root.splits prod.splits option.splits if_splits)

lemma guarded_additional_keeps:
  "prefix (arrVal (jget d ''tools'')) (arrVal (jget (fst (guarded b stripAdditionalTools d)) ''tools''))"
  by (cases b) (simp_all add: stripAdditionalTools_keeps)

lemma responses_tools_kept:
  "prefix (arrVal (jget doc ''tools'')) (arrVal (jget (fst (responsesPasses cfg toFormat doc)) ''tools''))"
proof -
  define d3 where "d3 = fst (guarded (BoolVal (StripReasoning cfg) DefaultFingerprintStripRsn)
    stripReasoningItems (fst (normalizeMaxOutputTokens (fst (forceNoStore doc)))))"
  define b where
    "b = (isResponsesWire toFormat \<and> BoolVal (StripAdditionalTools cfg) DefaultFingerprintStripAdd)"
  have "jget d3 ''tools'' = jget doc ''tools''"
    by (simp add: d3_def body_pass.frame_jget [OF reasoning.guarded_pass] cap.frame_jget
        store.frame_jget tokenCapKeys_def)
  moreover have "fst (responsesPasses cfg toFormat doc) =
      fst (ensureTools (fingerprintTools cfg) responsesToolEntry (fst (guarded b stripAdditionalTools d3)))"
    by (simp add: responses_stages Let_def d3_def b_def)
  ultimately show ?thesis
    using prefix_order.trans [OF guarded_additional_keeps [of d3 b] ensureTools_keeps] by simp
qed

lemma ensureEnvironment_tools:
  "jget (fst (ensureEnvironment e source doc)) ''tools'' = jget doc ''tools''"
  by (auto simp: ensureEnvironment_def responses_env.frame_jget claude_env.frame_jget
      gemini_env.frame_jget chat_env.frame_jget geminiKeys_def)

lemma ensureEnvironment_hasInput:
  "hasKey (fst (ensureEnvironment e source doc)) ''input'' = hasKey doc ''input''"
  using ensureEnvironment_input [of e source doc] by (simp add: hasKey_def)

lemma shapeBody_hasInput:
  "hasKey (fst (shapeBody e cfg source toFormat doc)) ''input'' = hasKey doc ''input''"
  by (simp add: shapeBody_def protocolPasses_hasInput ensureEnvironment_hasInput
      body_pass.frame_hasKey [OF stream.guarded_pass])

lemma chat_env_present:
  assumes "jget doc ''messages'' = JNull \<or> jget doc ''messages'' = JArr ms"
    and "placeInPreamble e (arrVal (jget doc ''messages'')) \<noteq> Rejected"
  shows "messagesHaveEnvironment (jget (fst (ensureChatEnvironment e doc)) ''messages'')"
proof -
  have ok: "jget doc ''messages'' = JNull \<or> isArr (jget doc ''messages'')" using assms(1) by auto
  show ?thesis
  proof (cases "messagesHaveEnvironment (jget doc ''messages'')")
    case True
    then show ?thesis by (simp add: ensureChatEnvironment_def)
  next
    case False
    with ok assms(2) placeInPreamble_env [of e "arrVal (jget doc ''messages'')"] show ?thesis
      by (auto simp: ensureChatEnvironment_def Let_def environmentMessage_env split: placement.splits)
  qed
qed

text \<open>A preamble message the environment can be added to: text, a list of parts, or nothing.\<close>

definition plainContent :: "json \<Rightarrow> bool" where
  "plainContent v \<longleftrightarrow> v = JNull \<or> isStr v \<or> isArr v"

lemma withEnvironment_plain: "plainContent v \<Longrightarrow> withEnvironment e v \<noteq> None"
  by (cases v) (auto simp: plainContent_def withEnvironment_def)

lemma placeInPreamble_plain:
  "\<forall>m\<in>set ms. isPreamble (objVal m) \<longrightarrow> plainContent (jget (objVal m) ''content'') \<Longrightarrow>
     placeInPreamble e ms \<noteq> Rejected"
proof (induction ms)
  case Nil
  then show ?case by simp
next
  case (Cons raw rest)
  then show ?case
    using withEnvironment_plain [of "jget (objVal raw) ''content''" e]
    by (auto simp: Let_def split: placement.splits option.splits)
qed

text \<open>Where the block is after the rewriting, and the bodies it can be put into.\<close>

definition environmentPlaced :: "string \<Rightarrow> obj \<Rightarrow> bool" where
  "environmentPlaced source doc \<longleftrightarrow>
     (if hasKey doc ''input'' then hasEnvironment (jget doc ''instructions'')
      else if source = ''claude'' then hasEnvironment (jget doc ''system'')
      else if source = ''gemini'' then hasEnvironment (jget doc (geminiSystemKey doc))
      else messagesHaveEnvironment (jget doc ''messages''))"

definition environmentFits :: "string \<Rightarrow> obj \<Rightarrow> bool" where
  "environmentFits source doc \<longleftrightarrow>
     (if hasKey doc ''input'' then
        (jget doc ''instructions'' = JNull \<or> isStr (jget doc ''instructions'')) \<and>
        \<not> messagesHaveEnvironment (jget doc ''input'')
      else if source = ''claude'' then plainContent (jget doc ''system'')
      else if source = ''gemini'' then
        (let system = jget doc (geminiSystemKey doc); parts = jget (objVal system) ''parts'' in
         (system = JNull \<or> isObj system) \<and> (parts = JNull \<or> isArr parts))
      else
        (jget doc ''messages'' = JNull \<or> isArr (jget doc ''messages'')) \<and>
        list_all (\<lambda>m. isPreamble (objVal m) \<longrightarrow> plainContent (jget (objVal m) ''content''))
          (arrVal (jget doc ''messages'')))"

lemma responses_env_placed:
  assumes "jget doc ''instructions'' = JNull \<or> isStr (jget doc ''instructions'')"
    and "\<not> messagesHaveEnvironment (jget doc ''input'')"
  shows "hasEnvironment (jget (fst (ensureResponsesEnvironment e doc)) ''instructions'')"
  using assms appendEnvironment_env [of e]
  by (cases "jget doc ''instructions''") (simp_all add: ensureResponsesEnvironment_def del: hasEnvironment.simps(1))

lemma claude_env_placed:
  "plainContent (jget doc ''system'') \<Longrightarrow> hasEnvironment (jget (fst (ensureClaudeEnvironment e doc)) ''system'')"
  using withEnvironment_plain [of "jget doc ''system''" e] withEnvironment_env [of e "jget doc ''system''"]
  by (auto simp: ensureClaudeEnvironment_def)

lemma gemini_env_placed:
  assumes "jget doc (geminiSystemKey doc) = JNull \<or> isObj (jget doc (geminiSystemKey doc))"
    and "jget (objVal (jget doc (geminiSystemKey doc))) ''parts'' = JNull \<or>
      isArr (jget (objVal (jget doc (geminiSystemKey doc))) ''parts'')"
  shows "hasEnvironment (jget (fst (ensureGeminiEnvironment e doc))
    (geminiSystemKey (fst (ensureGeminiEnvironment e doc))))"
proof -
  let ?key = "geminiSystemKey doc"
  let ?system = "objVal (jget doc ?key)"
  let ?parts = "JArr (arrVal (jget ?system ''parts'') @ [JObj [(''text'', JStr (Environment e))]])"
  have "hasEnvironment ?parts" using Environment_env [of "[]" e] by simp
  then have new: "hasEnvironment (JObj (jset ''parts'' ?parts ?system))"
    by (rule hasEnvironment_entry) (rule update_member)
  show ?thesis
  proof (cases "hasEnvironment (JObj ?system)")
    case True
    then have "isObj (jget doc ?key)" using assms(1) by auto
    with True show ?thesis by (cases "jget doc ?key") (simp_all add: ensureGeminiEnvironment_def Let_def)
  next
    case False
    with assms have "fst (ensureGeminiEnvironment e doc) = jset ?key (JObj (jset ''parts'' ?parts ?system)) doc"
      by (auto simp: ensureGeminiEnvironment_def Let_def)
    with new show ?thesis by (simp only: geminiSystemKey_update jget_update_same)
  qed
qed

lemma isArr_arrVal: "isArr v \<Longrightarrow> v = JArr (arrVal v)"
  by (cases v) simp_all

lemma ensureEnvironment_placed:
  "environmentFits source doc \<Longrightarrow> environmentPlaced source (fst (ensureEnvironment e source doc))"
  unfolding environmentFits_def environmentPlaced_def ensureEnvironment_hasInput
  using chat_env_present [of doc "arrVal (jget doc ''messages'')" e]
    placeInPreamble_plain [of "arrVal (jget doc ''messages'')" e]
  by (auto simp: ensureEnvironment_def responses_env_placed claude_env_placed gemini_env_placed Let_def
      list_all_iff dest: isArr_arrVal split: if_splits)

lemma protocolPasses_frame:
  "k \<notin> responsesKeys \<Longrightarrow> map_of (fst (protocolPasses cfg source toFormat doc)) k = map_of doc k"
  by (simp add: protocolPasses_def body_pass.frame [OF responses_pass] chat_tools.frame
      claude_tools.frame gemini_tools.frame responsesKeys_def)

lemma shapeBody_keeps_environment:
  assumes "k \<notin> insert ''stream'' responsesKeys"
  shows "map_of (fst (shapeBody e cfg source toFormat doc)) k = map_of (fst (ensureEnvironment e source doc)) k"
  using assms by (simp add: shapeBody_def protocolPasses_frame body_pass.frame [OF stream.guarded_pass])

lemma shapeBody_environment:
  "environmentPlaced source (fst (shapeBody e cfg source toFormat doc)) \<longleftrightarrow>
   environmentPlaced source (fst (ensureEnvironment e source doc))"
proof -
  let ?out = "fst (shapeBody e cfg source toFormat doc)" and ?mid = "fst (ensureEnvironment e source doc)"
  have keys: "map_of ?out k = map_of ?mid k"
    if "k \<in> {''instructions'', ''system'', ''systemInstruction'', ''system_instruction'', ''messages''}" for k
    using that by (intro shapeBody_keeps_environment) (auto simp: responsesKeys_def tokenCapKeys_def)
  have "geminiSystemKey ?out = geminiSystemKey ?mid"
    by (simp add: geminiSystemKey_def hasKey_def keys)
  moreover have "jget ?out (geminiSystemKey ?mid) = jget ?mid (geminiSystemKey ?mid)"
    using geminiSystemKey_in [of ?mid] by (auto simp: jget_def keys geminiKeys_def)
  moreover have "jget ?out ''instructions'' = jget ?mid ''instructions''" "jget ?out ''system'' = jget ?mid ''system''"
    "jget ?out ''messages'' = jget ?mid ''messages''" by (simp_all add: jget_def keys)
  ultimately show ?thesis
    by (simp only: environmentPlaced_def shapeBody_hasInput ensureEnvironment_hasInput)
qed

subsection \<open>Rewriting a body twice\<close>

text \<open>
  C4. The rewriting is idempotent: a Chat, Claude or Gemini body that \<open>applyFingerprintBody\<close> has
  rewritten is left as it is, byte for byte and without the changed flag, by a second run,
  even one in another working directory. (The encoder and decoder are used on one value
  only, the rewritten body, which has to decode to what was encoded.)
\<close>

theorem body_idempotent:
  assumes "applyFingerprintBody e J body cfg source toFormat = (out, True)"
    and "\<forall>doc. unmarshalMap J body = Root doc \<longrightarrow> \<not> hasKey doc ''input'' \<and>
      codec_inverse J (JObj (fst (shapeBody e cfg (ToLower (TrimSpace source)) toFormat doc)))"
  shows "applyFingerprintBody e' J out cfg source toFormat = (out, False)"
proof -
  let ?f = "\<lambda>e. shapeBody e cfg (ToLower (TrimSpace source)) toFormat"
  from assms(1) obtain doc where d: "unmarshalMap J body = Root doc"
    "marshal J (JObj (fst (?f e doc))) = Some out"
    unfolding applyFingerprintBody_changed by blast
  with assms(2) have "codec_inverse J (JObj (fst (?f e doc)))" "\<not> hasKey doc ''input''" by auto
  with d(2) have "unmarshalMap J out = Root (fst (?f e doc))"
    "?f e' (fst (?f e doc)) = (fst (?f e doc), False)"
    by (auto simp: codec_inverse_def unmarshalMap_Root shapeBody_twice)
  then show ?thesis by (simp add: applyFingerprintBody_def)
qed

definition sampleChat :: obj where
  "sampleChat =
     [(''model'', JStr ''mimo-free''),
      (''messages'', JArr [JObj [(''role'', JStr ''user''), (''content'', JStr ''hi'')]])]"

text \<open>A codec that knows two documents, the sample and its rewriting.\<close>

definition sampleShaped :: obj where
  "sampleShaped = fst (shapeBody sampleEnv defaultFingerprintConfig ''openai'' ''openai'' sampleChat)"

definition sampleCodec :: codec where
  "sampleCodec =
    \<lparr> unmarshal = (\<lambda>b. if b = ''chat'' then Some (JObj sampleChat)
                      else if b = ''shaped'' then Some (JObj sampleShaped) else None),
      marshal = (\<lambda>v. if v = JObj sampleShaped then Some ''shaped'' else None),
      rawMap = (\<lambda>b. None), decodeErr = (\<lambda>b. ''invalid''), marshalErr = ''unsupported'' \<rparr>"

lemma ToLower_openai [simp]: "ToLower (TrimSpace ''openai'') = ''openai''"
proof -
  have "TrimSpace ''openai'' = ''openai''" by (rule TrimSpace_visible) (simp_all add: visibleByte_def)
  moreover have "asciiOnly ''openai''" by (simp add: asciiOnly_def)
  ultimately show ?thesis by (simp add: ToLower_ascii lowerByte_def)
qed

lemma sampleShaped_changed: "snd (shapeBody sampleEnv defaultFingerprintConfig ''openai'' ''openai'' sampleChat)"
proof -
  let ?d = "fst (ensureEnvironment sampleEnv ''openai'' sampleChat)"
  have "jget ?d ''stream'' = JNull"
    by (simp add: ensureEnvironment_def sampleChat_def hasKey_def chat_env.frame_jget)
      (simp add: jget_def)
  then have "snd (forceStream ?d)" by (simp add: forceStream_def)
  then show ?thesis
    by (simp add: shapeBody_def defaultFingerprintConfig_def DefaultFingerprintStream_def)
qed

lemma body_idempotent_witness:
  "applyFingerprintBody sampleEnv sampleCodec ''shaped'' defaultFingerprintConfig ''openai'' ''openai''
     = (''shaped'', False)"
proof -
  have "applyFingerprintBody sampleEnv sampleCodec ''chat'' defaultFingerprintConfig ''openai'' ''openai''
      = (''shaped'', True)"
    unfolding applyFingerprintBody_changed using sampleShaped_changed
    by (simp add: unmarshalMap_Root) (simp add: sampleCodec_def sampleShaped_def)
  then show ?thesis
    by (rule body_idempotent)
      (auto simp: unmarshalMap_Root codec_inverse_def sampleCodec_def sampleShaped_def sampleChat_def
        hasKey_def)
qed

subsection \<open>What the rewriting leaves alone\<close>

definition editedKeys :: "string \<Rightarrow> obj \<Rightarrow> string set" where
  "editedKeys source doc =
     (if hasKey doc ''input'' then {''instructions'', ''stream''} \<union> responsesKeys else shapeKeys source)"

text \<open>
  C7. Only the members a protocol needs are edited: every other member of the client's body
  (model, temperature, metadata, ...) is present after the rewriting exactly as it was before,
  for each of the four protocols.
\<close>

theorem body_frame:
  assumes "k \<notin> editedKeys source doc"
  shows "map_of (fst (shapeBody e cfg source toFormat doc)) k = map_of doc k"
proof (cases "hasKey doc ''input''")
  case False
  with assms shapeBody_frame show ?thesis by (simp add: editedKeys_def)
next
  case True
  let ?d1 = "fst (ensureEnvironment e source doc)"
  let ?d2 = "fst (guarded (streamOn cfg source) forceStream ?d1)"
  have k: "k \<noteq> ''instructions''" "k \<noteq> ''stream''" "k \<notin> responsesKeys"
    using assms True by (auto simp: editedKeys_def)
  have "hasKey ?d2 ''input''"
    using True by (simp add: ensureEnvironment_hasInput body_pass.frame_hasKey [OF stream.guarded_pass])
  then have "map_of (fst (shapeBody e cfg source toFormat doc)) k = map_of ?d2 k"
    using body_pass.frame [OF responses_pass k(3)] by (simp add: shapeBody_def protocolPasses_def)
  also have "\<dots> = map_of ?d1 k" using k(2) by (intro body_pass.frame [OF stream.guarded_pass]) simp
  also have "\<dots> = map_of doc k" using True k(1) by (simp add: ensureEnvironment_def responses_env.frame)
  finally show ?thesis .
qed

lemma body_frame_witness:
  "map_of (fst (shapeBody sampleEnv defaultFingerprintConfig ''openai'' ''openai'' sampleChat)) ''model''
     = Some (JStr ''mimo-free'')"
proof -
  have "''model'' \<notin> editedKeys ''openai'' sampleChat"
    by (simp add: editedKeys_def sampleChat_def hasKey_def shapeKeys_def)
  from body_frame [OF this, of sampleEnv defaultFingerprintConfig "''openai''"] show ?thesis
    by (simp add: sampleChat_def)
qed

subsection \<open>Tools\<close>

text \<open>
  C8. The upstream sees the official tools: after the rewriting every configured tool name is
  declared, and every tool that is declared is one of the client's own (at the top level, or in
  an \<open>additional_tools\<close> item) or declares a configured name in the shape of the body's protocol
  (\<open>declares\<close>). So a name the client does not declare itself gets a declaration of that shape.
\<close>

theorem body_tools_declared:
  "set (fingerprintTools cfg) \<subseteq> declaredTools source (fst (shapeBody e cfg source toFormat doc)) \<and>
   set (toolList source (fst (shapeBody e cfg source toFormat doc))) \<subseteq>
     clientTools source doc \<union> {v. \<exists>n\<in>set (fingerprintTools cfg). declares source doc n v}"
proof (rule conjI [OF shapeBody_tools])
  define d where "d = fst (guarded (streamOn cfg source) forceStream (fst (ensureEnvironment e source doc)))"
  have "jget d ''tools'' = jget doc ''tools''"
    by (simp add: d_def body_pass.frame_jget [OF stream.guarded_pass] ensureEnvironment_tools)
  moreover have "hasKey d ''input'' = hasKey doc ''input''"
    by (simp add: d_def body_pass.frame_hasKey [OF stream.guarded_pass] ensureEnvironment_hasInput)
  moreover have "jget d ''input'' = jget doc ''input''"
    by (simp add: d_def body_pass.frame_jget [OF stream.guarded_pass]) (simp add: jget_def ensureEnvironment_input)
  ultimately have c: "clientTools source d = clientTools source doc" "declares source d = declares source doc"
    by (simp_all add: clientTools_def toolList_def declares_def fun_eq_iff)
  have "fst (shapeBody e cfg source toFormat doc) = fst (protocolPasses cfg source toFormat d)"
    by (simp add: shapeBody_def d_def)
  with protocolPasses_entries [of source cfg toFormat d] show "set (toolList source
      (fst (shapeBody e cfg source toFormat doc))) \<subseteq>
      clientTools source doc \<union> {v. \<exists>n\<in>set (fingerprintTools cfg). declares source doc n v}"
    by (simp only: c)
qed

text \<open>
  C9. The client's own tools survive: outside Gemini bodies, whose tools are grouped, the list
  of tools after the rewriting starts with the client's list, unchanged and in order.
\<close>

theorem body_client_tools_kept:
  assumes "hasKey doc ''input'' \<or> source \<noteq> ''gemini''"
  shows "prefix (arrVal (jget doc ''tools''))
    (arrVal (jget (fst (shapeBody e cfg source toFormat doc)) ''tools''))"
proof -
  let ?d = "fst (guarded (streamOn cfg source) forceStream (fst (ensureEnvironment e source doc)))"
  have t: "jget ?d ''tools'' = jget doc ''tools''"
    by (simp add: body_pass.frame_jget [OF stream.guarded_pass] ensureEnvironment_tools)
  have i: "hasKey ?d ''input'' = hasKey doc ''input''"
    by (simp add: body_pass.frame_hasKey [OF stream.guarded_pass] ensureEnvironment_hasInput)
  have "prefix (arrVal (jget ?d ''tools'')) (arrVal (jget (fst (protocolPasses cfg source toFormat ?d)) ''tools''))"
    using assms i by (auto simp: protocolPasses_def responses_tools_kept ensureTools_keeps)
  then show ?thesis using t by (simp add: shapeBody_def)
qed

lemma body_client_tools_kept_witness:
  "prefix [JObj (chatToolEntry ''mine'')]
    (arrVal (jget (fst (shapeBody sampleEnv defaultFingerprintConfig ''openai'' ''openai''
      [(''tools'', JArr [JObj (chatToolEntry ''mine'')])])) ''tools''))"
  using body_client_tools_kept
    [of "[(''tools'', JArr [JObj (chatToolEntry ''mine'')])]" "''openai''" sampleEnv
      defaultFingerprintConfig "''openai''"]
  by (simp add: jget_def [of "[(''tools'', _)]"])

subsection \<open>Streaming and the environment block\<close>

text \<open>
  Unless \<open>force_stream\<close> is off or the body is a Gemini body, the request that leaves asks
  for a stream.
\<close>

lemma body_streams:
  assumes "BoolVal (ForceStream cfg) DefaultFingerprintStream" "source \<noteq> ''gemini''"
  shows "jget (fst (shapeBody e cfg source toFormat doc)) ''stream'' = JBool True"
  using assms by (intro shapeBody_stream) simp

text \<open>
  C27. After the rewriting a body carries the working directory block where its protocol has the
  system prompt: the instructions (Responses), the system text (Claude), the system instruction
  under the name the client uses (Gemini), or a system or developer message (Chat). The body has
  to have the types of its protocol in that place, and a Responses body must not bring a block
  along in its input.
\<close>

theorem body_environment:
  assumes "environmentFits source doc"
  shows "environmentPlaced source (fst (shapeBody e cfg source toFormat doc))"
  using ensureEnvironment_placed [OF assms] by (simp add: shapeBody_environment)

lemma body_environment_witness:
  "environmentPlaced ''gemini'' (fst (shapeBody sampleEnv defaultFingerprintConfig ''gemini'' ''gemini''
     [(''system_instruction'', JObj [(''parts'', JArr [JObj [(''text'', JStr ''hi'')]])])]))"
  by (rule body_environment) (simp add: environmentFits_def geminiSystemKey_def hasKey_def jget_def)

subsection \<open>Responses bodies\<close>

text \<open>
  C26. A Responses body leaves without storage and without the Chat names of the token cap, and
  the cap it carries is the client's: \<open>max_output_tokens\<close> if given, else the numeric
  \<open>max_completion_tokens\<close>, else the numeric \<open>max_tokens\<close>.
\<close>

theorem body_responses_hygiene:
  assumes "hasKey doc ''input''"
  shows "let out = fst (shapeBody e cfg source toFormat doc) in
    jget out ''store'' = JBool False \<and> \<not> hasKey out ''max_tokens'' \<and>
    \<not> hasKey out ''max_completion_tokens'' \<and> jget out ''max_output_tokens'' = tokenCap doc"
proof -
  obtain doc1 where d:
    "fst (shapeBody e cfg source toFormat doc) = fst (responsesPasses cfg toFormat doc1)"
    "\<And>k. k \<notin> insert ''stream'' environmentKeys \<Longrightarrow> map_of doc1 k = map_of doc k"
    using shapeBody_responses [OF assms(1)] by blast
  have "tokenCap doc1 = tokenCap doc"
    using d(2) by (simp add: tokenCap_def hasKey_def jget_def environmentKeys_def)
  then show ?thesis
    by (simp add: Let_def d(1) responses_store responses_no_chat_caps responses_tokenCap)
qed

lemma body_responses_hygiene_witness:
  "jget (fst (shapeBody sampleEnv defaultFingerprintConfig ''openai-response'' ''codex''
     [(''input'', JArr []), (''max_tokens'', JNum 7)])) ''max_output_tokens'' = JNum 7"
  using body_responses_hygiene
    [of "[(''input'', JArr []), (''max_tokens'', JNum 7)]" sampleEnv defaultFingerprintConfig
      "''openai-response''" "''codex''"]
  by (simp add: hasKey_def tokenCap_def isNum_def jget_def [of "[_, _]"] Let_def)

text \<open>
  C25. What is left of the input of a Responses body: with \<open>strip_reasoning\<close> on, no reasoning item
  and no encrypted reasoning content; with \<open>strip_additional_tools\<close> on, and on a Responses wire,
  no \<open>additional_tools\<close> item. Neither switch has a say in what the other does.
\<close>

theorem body_responses_input:
  assumes "jget doc ''input'' = JArr input"
  shows "let out = arrVal (jget (fst (shapeBody e cfg source toFormat doc)) ''input'') in
    (BoolVal (StripReasoning cfg) DefaultFingerprintStripRsn \<longrightarrow> \<not> list_ex hasReasoning out) \<and>
    (isResponsesWire toFormat \<and> BoolVal (StripAdditionalTools cfg) DefaultFingerprintStripAdd
       \<longrightarrow> \<not> list_ex isAdditionalTools out)"
proof -
  have "hasKey doc ''input''" using assms by (intro jget_hasKey) simp
  then obtain doc1 where d:
    "fst (shapeBody e cfg source toFormat doc) = fst (responsesPasses cfg toFormat doc1)"
    "map_of doc1 ''input'' = map_of doc ''input''"
    using shapeBody_responses by blast
  have "jget doc1 ''input'' = JArr input" using d(2) assms by (simp add: jget_def)
  from responses_input [OF this, of cfg toFormat] d(1) show ?thesis
    using stripReasoningList_clean [of _ input] by (auto simp: Let_def list_ex_iff)
qed

text \<open>On the codex wire an \<open>additional_tools\<close> item goes also with \<open>strip_reasoning\<close> off.\<close>

lemma body_responses_input_witness:
  "\<not> list_ex isAdditionalTools (arrVal (jget (fst (shapeBody sampleEnv
      (defaultFingerprintConfig\<lparr> StripReasoning := Some False \<rparr>) ''openai-response'' ''codex''
      [(''input'', JArr [JObj [(''type'', JStr ''additional_tools'')], JObj [(''type'', JStr ''reasoning'')]])]))
      ''input'')) \<and>
   \<not> list_ex hasReasoning (arrVal (jget (fst (shapeBody sampleEnv
      defaultFingerprintConfig ''openai-response'' ''openai''
      [(''input'', JArr [JObj [(''type'', JStr ''additional_tools'')], JObj [(''type'', JStr ''reasoning'')]])]))
      ''input''))"
proof -
  let ?input = "[JObj [(''type'', JStr ''additional_tools'')], JObj [(''type'', JStr ''reasoning'')]]"
  have i: "jget [(''input'', JArr ?input)] ''input'' = JArr ?input" by (simp add: jget_def)
  have "TrimSpace ''codex'' = ''codex''" by (rule TrimSpace_visible; simp add: visibleByte_def)
  then have wire: "isResponsesWire ''codex''" by (simp add: isResponsesWire_def)
  have "BoolVal (StripReasoning defaultFingerprintConfig) DefaultFingerprintStripRsn"
    "BoolVal (StripAdditionalTools (defaultFingerprintConfig\<lparr> StripReasoning := Some False \<rparr>)) DefaultFingerprintStripAdd"
    by (simp_all add: defaultFingerprintConfig_def DefaultFingerprintStripRsn_def DefaultFingerprintStripAdd_def)
  with wire show ?thesis
    using body_responses_input [OF i, of sampleEnv "defaultFingerprintConfig\<lparr> StripReasoning := Some False \<rparr>"
        "''openai-response''" "''codex''"]
      body_responses_input [OF i, of sampleEnv defaultFingerprintConfig "''openai-response''" "''openai''"]
    by (simp add: Let_def)
qed

end
