(* ===== verification/Ident.thy ===== *)
theory Ident
  imports Opencode
begin

section \<open>OpenCode identifiers\<close>

text \<open>
  The id shaping of plugin/fingerprint.go (lines 199-260): the accepted session id shape, the
  time and base62 components, the per-conversation session ids the manager caches and the
  per-request ids. \<open>current\<close> is a \<open>uint64\<close>, so it is a 64-bit word and its arithmetic
  wraps. The cache \<open>sessionIDs\<close> is keyed by the SHA-256 digest of the identity.
\<close>

definition sessionIDPrefix :: string where
  "sessionIDPrefix = ''ses_''"

definition requestIDPrefix :: string where
  "requestIDPrefix = ''msg_''"

definition base62Alphabet :: string where
  "base62Alphabet = ''0123456789ABCDEFGHIJKLMNOPQRSTUVWXYZabcdefghijklmnopqrstuvwxyz''"

definition isBase62 :: "char \<Rightarrow> bool" where
  "isBase62 c \<longleftrightarrow> c \<in> set base62Alphabet"

text \<open>The regular expression \<open>^ses_[0-9a-f]{12}[0-9A-Za-z]{14}$\<close>.\<close>

definition openCodeSessionRE :: "string \<Rightarrow> bool" where
  "openCodeSessionRE v \<longleftrightarrow>
     length v = 30 \<and> take 4 v = sessionIDPrefix \<and>
     list_all isHexDigit (take 12 (drop 4 v)) \<and> list_all isBase62 (drop 16 v)"

definition isOpenCodeSessionID :: "string \<Rightarrow> bool" where
  "isOpenCodeSessionID v \<longleftrightarrow> openCodeSessionRE (TrimSpace v)"

definition base62From :: "byte list \<Rightarrow> string" where
  "base62From raw = map (\<lambda>b. base62Alphabet ! (unat b mod length base62Alphabet)) raw"

definition timeHexFrom :: "64 word \<Rightarrow> string" where
  "timeHexFrom value = concat (map (\<lambda>i. hexByte (ucast (drop_bit (40 - 8 * i) value))) [0..<6])"

text \<open>\<open>uint64(time.Now().UnixMilli())*0x1000 + 1\<close>\<close>

definition currentTick :: "env \<Rightarrow> 64 word" where
  "currentTick e = nowMillis e * 0x1000 + 1"

type_synonym session_cache = "(byte list \<times> string) list"

definition sessionDigest :: "string \<Rightarrow> byte list" where
  "sessionDigest identity = sha256 (stringBytes (sessionIDPrefix @ identity))"

definition shapeSessionID :: "env \<Rightarrow> string \<Rightarrow> session_cache \<Rightarrow> string \<times> session_cache" where
  "shapeSessionID e identity sessionIDs =
     (let digest = sessionDigest identity in
      case map_of sessionIDs digest of
        Some v \<Rightarrow>
          if v \<noteq> [] then (v, sessionIDs)
          else
            let fresh = sessionIDPrefix @ timeHexFrom (NOT (currentTick e)) @
                  base62From (take 14 digest)
            in (fresh, AList.update digest fresh sessionIDs)
      | None \<Rightarrow>
          let fresh = sessionIDPrefix @ timeHexFrom (NOT (currentTick e)) @
                base62From (take 14 digest)
          in (fresh, AList.update digest fresh sessionIDs))"

text \<open>When \<open>rand.Read\<close> fails, the bytes are those of the clock value.\<close>

definition requestBytes :: "env \<Rightarrow> byte list" where
  "requestBytes e =
     (case idRand e of
        Some rnd \<Rightarrow> readRand 14 rnd
      | None \<Rightarrow> map (\<lambda>i. ucast (drop_bit (8 * (i mod 8)) (currentTick e))) [0..<14])"

definition newRequestID :: "env \<Rightarrow> string" where
  "newRequestID e = requestIDPrefix @ timeHexFrom (currentTick e) @ base62From (requestBytes e)"

subsection \<open>Shapes\<close>

lemma length_base62Alphabet [simp]: "length base62Alphabet = 62"
  by (simp add: base62Alphabet_def)

lemma length_base62From [simp]: "length (base62From raw) = length raw"
  by (simp add: base62From_def)

lemma base62From_alphabet: "list_all isBase62 (base62From raw)"
  by (auto simp: base62From_def isBase62_def list_all_iff)

lemma length_timeHexFrom [simp]: "length (timeHexFrom v) = 12"
  by (simp add: timeHexFrom_def upt_rec)

lemma timeHexFrom_digits: "list_all isHexDigit (timeHexFrom v)"
  by (auto simp: timeHexFrom_def list_all_iff dest: hexByte_digits)

lemma isBase62_visible: "isBase62 c \<Longrightarrow> visibleByte c"
  by (auto simp: isBase62_def base62Alphabet_def visibleByte_def)

lemma openCodeSessionRE_trimmed:
  assumes "openCodeSessionRE v"
  shows "TrimSpace v = v"
proof (rule TrimSpace_visible)
  from assms have len: "length v = 30" and pre: "take 4 v = sessionIDPrefix"
    and tail: "list_all isBase62 (drop 16 v)"
    by (simp_all add: openCodeSessionRE_def)
  from len show ne: "v \<noteq> []" by auto
  have "hd v = hd (take 4 v)" using ne by (simp add: hd_take)
  with pre show "visibleByte (hd v)" by (simp add: sessionIDPrefix_def visibleByte_def)
  have "last v = last (drop 16 v)" "drop 16 v \<noteq> []" using len by (simp_all add: last_drop)
  with tail have "isBase62 (last v)" by (metis last_in_set list_all_iff)
  then show "visibleByte (last v)" by (rule isBase62_visible)
qed

lemma openCodeSessionRE_isID: "openCodeSessionRE v \<Longrightarrow> isOpenCodeSessionID v"
  by (simp add: isOpenCodeSessionID_def openCodeSessionRE_trimmed)

lemma isID_trimmed: "isOpenCodeSessionID v \<Longrightarrow> TrimSpace v = v \<Longrightarrow> openCodeSessionRE v"
  by (simp add: isOpenCodeSessionID_def)

lemma fresh_id_shape:
  "length raw = 14 \<Longrightarrow>
     openCodeSessionRE (sessionIDPrefix @ timeHexFrom t @ base62From raw)"
  by (simp add: openCodeSessionRE_def sessionIDPrefix_def timeHexFrom_digits base62From_alphabet)

text \<open>A cache whose values all have the official shape.\<close>

definition cache_ok :: "session_cache \<Rightarrow> bool" where
  "cache_ok c \<longleftrightarrow> uniqueKeys c \<and> (\<forall>d v. map_of c d = Some v \<longrightarrow> openCodeSessionRE v)"

lemma cache_ok_Nil [simp]: "cache_ok []"
  by (simp add: cache_ok_def)

lemma openCodeSessionRE_nonempty: "openCodeSessionRE v \<Longrightarrow> v \<noteq> []"
  by (auto simp: openCodeSessionRE_def)

lemma shapeSessionID_cases:
  assumes "shapeSessionID e identity c = (v, c')"
  obtains (hit) "map_of c (sessionDigest identity) = Some v" "v \<noteq> []" "c' = c"
    | (miss) "v = sessionIDPrefix @ timeHexFrom (NOT (currentTick e)) @
                base62From (take 14 (sessionDigest identity))"
        "c' = AList.update (sessionDigest identity) v c"
        "map_of c (sessionDigest identity) \<in> {None, Some []}"
  using assms
  by (auto simp: shapeSessionID_def Let_def split: option.splits if_splits)

lemma length_sessionDigest [simp]: "length (sessionDigest identity) = 32"
  by (simp add: sessionDigest_def)

lemma shapeSessionID_shape:
  assumes "cache_ok c" "shapeSessionID e identity c = (v, c')"
  shows "openCodeSessionRE v \<and> cache_ok c'"
  using assms(2)
proof (cases rule: shapeSessionID_cases)
  case hit
  with assms(1) show ?thesis by (auto simp: cache_ok_def)
next
  case miss
  then have v: "openCodeSessionRE v" by (simp add: fresh_id_shape)
  with miss(2) assms(1) show ?thesis
    by (auto simp: cache_ok_def update_conv' split: if_splits)
qed

subsection \<open>Stable ids: the contract of the cache\<close>

text \<open>
  What the request handlers rely on: an identity that has an id keeps it, whatever other
  identities are seen in between.
\<close>

locale sticky_ids =
  fixes assign :: "'e \<Rightarrow> 'i \<Rightarrow> 's \<Rightarrow> string \<times> 's"
    and known :: "'s \<Rightarrow> 'i \<Rightarrow> string option"
  assumes hit: "known s i = Some v \<Longrightarrow> assign e i s = (v, s)"
    and learn: "assign e i s = (v, s') \<Longrightarrow> known s' i = Some v"
    and keep: "known s j = Some w \<Longrightarrow> assign e i s = (v, s') \<Longrightarrow> known s' j = Some w"
begin

lemma known_after_run:
  "known s i = Some v \<Longrightarrow> known (fold (\<lambda>(e, j) s. snd (assign e j s)) xs s) i = Some v"
proof (induction xs arbitrary: s)
  case Nil
  then show ?case by simp
next
  case (Cons x xs)
  obtain e j where x: "x = (e, j)" by fastforce
  have "known (snd (assign e j s)) i = Some v"
    using keep [OF Cons.prems] by (metis prod.collapse)
  with Cons.IH x show ?case by simp
qed

lemma assign_again:
  "fst (assign e' i (fold (\<lambda>(e, j) s. snd (assign e j s)) xs (snd (assign e i s))))
     = fst (assign e i s)"
proof -
  have "known (snd (assign e i s)) i = Some (fst (assign e i s))"
    using learn by (metis prod.collapse)
  from known_after_run [OF this] show ?thesis using hit by (metis fst_conv)
qed

end

definition cachedID :: "session_cache \<Rightarrow> string \<Rightarrow> string option" where
  "cachedID c identity =
     (case map_of c (sessionDigest identity) of
        Some v \<Rightarrow> if v \<noteq> [] then Some v else None
      | None \<Rightarrow> None)"

interpretation session_ids: sticky_ids shapeSessionID cachedID
proof
  fix s i v e
  assume "cachedID s i = Some v"
  then show "shapeSessionID e i s = (v, s)"
    by (auto simp: cachedID_def shapeSessionID_def Let_def split: option.splits if_splits)
next
  fix e i s v s'
  assume "shapeSessionID e i s = (v, s')"
  then show "cachedID s' i = Some v"
    by (cases rule: shapeSessionID_cases)
      (auto simp: cachedID_def update_conv' sessionIDPrefix_def)
next
  fix s j w e i v s'
  assume j: "cachedID s j = Some w" and a: "shapeSessionID e i s = (v, s')"
  from a show "cachedID s' j = Some w"
  proof (cases rule: shapeSessionID_cases)
    case hit
    with j show ?thesis by simp
  next
    case miss
    with j show ?thesis
      by (auto simp: cachedID_def update_conv' split: option.splits if_splits)
  qed
qed

end
