(* ===== verification/Sessions.thy ===== *)
theory Sessions
  imports Targets Ident
begin

section \<open>Session identity\<close>

text \<open>
  plugin/session.go: where the conversation identity of a request comes from
  (\<open>resolveSessionID\<close>), what is sent for it (\<open>sessionHeaderValue\<close>) and the text of the
  first user turn that the fallback hashes (\<open>firstUserContent\<close>). A \<open>strings.Builder\<close> that
  only grows is the string returned; \<open>collectMessageTurns\<close> and \<open>collectResponsesTurns\<close>
  return their boolean and what they wrote.
\<close>

record sessionResult =
  Value :: string
  Source :: string
  Stable :: bool

definition maxSessionLen :: nat where
  "maxSessionLen = 512"

definition cleanSession :: "string \<Rightarrow> string" where
  "cleanSession raw =
     (let v = TrimSpace raw in
      if v = [] \<or> length v > maxSessionLen then []
      else if ContainsAny v [CHR 0x0D, CHR 0x0A, CHR 0x00] then []
      else v)"

definition hashSession :: "string \<Rightarrow> string" where
  "hashSession v = hexEncode (sha256 (stringBytes v))"

subsection \<open>The text of the first user turn\<close>

fun partText :: "json \<Rightarrow> string" where
  "partText (JObj part) =
     (if isStr (jget part ''text'') then strVal (jget part ''text'')
      else if isStr (jget part ''image_url'') then strVal (jget part ''image_url'')
      else
        (case jget part ''source'' of
           JObj src \<Rightarrow>
             if isStr (jget src ''data'') then strVal (jget src ''data'')
             else strVal (jget src ''url'')
         | _ \<Rightarrow> []))"
| "partText (JStr s) = s"
| "partText _ = []"

definition appendContentParts :: "json \<Rightarrow> string" where
  "appendContentParts content =
     (case content of
        JStr s \<Rightarrow> s
      | JArr parts \<Rightarrow> concat (map partText parts)
      | _ \<Rightarrow> [])"

fun messageTurns :: "bool \<Rightarrow> bool \<Rightarrow> json list \<Rightarrow> bool \<times> string" where
  "messageTurns lenient started [] = (started, [])"
| "messageTurns lenient started (raw # rest) =
     (case raw of
        JObj msg \<Rightarrow>
          (let role = strVal (jget msg ''role'');
               collect = (case messageTurns lenient True rest of
                  (st, text) \<Rightarrow> (st, appendContentParts (jget msg ''content'') @ text))
           in
           if \<not> started then
             (if role = ''user'' then collect
              else if lenient \<or> role = ''system'' \<or> role = ''developer''
                then messageTurns lenient False rest
              else (False, []))
           else if role \<noteq> ''user'' then (True, [])
           else collect)
      | _ \<Rightarrow> messageTurns lenient started rest)"

definition collectMessageTurns :: "obj \<Rightarrow> bool \<Rightarrow> bool \<times> string" where
  "collectMessageTurns doc lenient =
     (case jget doc ''messages'' of
        JArr messages \<Rightarrow> messageTurns lenient False messages
      | _ \<Rightarrow> (False, []))"

definition isUserItem :: "obj \<Rightarrow> bool" where
  "isUserItem item \<longleftrightarrow>
     strVal (jget item ''role'') = ''user'' \<and>
     (strVal (jget item ''type'') = ''message'' \<or> strVal (jget item ''type'') = [])"

fun responsesTurns :: "bool \<Rightarrow> json list \<Rightarrow> bool \<times> string" where
  "responsesTurns started [] = (started, [])"
| "responsesTurns started (raw # rest) =
     (case raw of
        JObj item \<Rightarrow>
          if isUserItem item then
            (case responsesTurns True rest of
               (st, text) \<Rightarrow> (st, appendContentParts (jget item ''content'') @ text))
          else if started then (True, [])
          else responsesTurns False rest
      | _ \<Rightarrow> responsesTurns started rest)"

definition collectResponsesTurns :: "obj \<Rightarrow> bool \<times> string" where
  "collectResponsesTurns doc =
     (case jget doc ''input'' of
        JStr typed \<Rightarrow> (typed \<noteq> [], typed)
      | JArr items \<Rightarrow> responsesTurns False items
      | _ \<Rightarrow> (False, []))"

definition userText :: "string \<Rightarrow> obj \<Rightarrow> string" where
  "userText sourceFormat doc =
     (let format = ToLower (TrimSpace sourceFormat) in
      if format = ''openai'' then snd (collectMessageTurns doc False)
      else if format = ''claude'' then snd (collectMessageTurns doc True)
      else if format = ''openai-response'' then snd (collectResponsesTurns doc)
      else if fst (collectMessageTurns doc False) then snd (collectMessageTurns doc False)
      else if fst (collectMessageTurns doc True) then snd (collectMessageTurns doc True)
      else if fst (collectResponsesTurns doc) then snd (collectResponsesTurns doc)
      else snd (collectResponsesTurns doc))"

definition firstUserContent :: "codec \<Rightarrow> string \<Rightarrow> string \<Rightarrow> string" where
  "firstUserContent J sourceFormat body =
     (if body = [] then []
      else
        (case unmarshalMap J body of
           DecodeError \<Rightarrow> []
         | NilMap \<Rightarrow> userText sourceFormat []
         | Root doc \<Rightarrow> userText sourceFormat doc))"

subsection \<open>Resolution\<close>

definition cleanHeader :: "header \<Rightarrow> string \<Rightarrow> string" where
  "cleanHeader hs name =
     (case headerValue hs name of Some v \<Rightarrow> cleanSession v | None \<Rightarrow> [])"

fun fromSourceHeaders :: "header \<Rightarrow> string \<Rightarrow> string list \<Rightarrow> string option" where
  "fromSourceHeaders hs headerName [] = None"
| "fromSourceHeaders hs headerName (src # srcs) =
     (if EqualFold src headerName then fromSourceHeaders hs headerName srcs
      else if cleanHeader hs src \<noteq> [] then Some (cleanHeader hs src)
      else fromSourceHeaders hs headerName srcs)"

definition HeaderOpenCodeSessionID :: string where
  "HeaderOpenCodeSessionID = ''X-Opencode-Session-Id''"

definition HeaderOpenCodeProject :: string where
  "HeaderOpenCodeProject = ''X-Opencode-Project''"

definition resolveSessionID ::
    "codec \<Rightarrow> RequestInterceptRequest \<Rightarrow> Config \<Rightarrow> string \<Rightarrow> sessionResult option" where
  "resolveSessionID J req cfg headerName =
     (let hs = ReqHeaders req;
          canonical = cleanSession (metadataString (ReqMetadata req) ''canonical_session_id'');
          content = firstUserContent J (SourceFormat req) (ReqBody req)
      in
      if cleanHeader hs headerName \<noteq> [] then
        Some \<lparr> Value = cleanHeader hs headerName, Source = ''native'', Stable = True \<rparr>
      else if cleanHeader hs HeaderOpenCodeSessionID \<noteq> [] then
        Some \<lparr> Value = cleanHeader hs HeaderOpenCodeSessionID, Source = ''native'', Stable = True \<rparr>
      else
        (case fromSourceHeaders hs headerName (SourceHeaders (CSession cfg)) of
           Some cleaned \<Rightarrow> Some \<lparr> Value = cleaned, Source = ''header'', Stable = True \<rparr>
         | None \<Rightarrow>
             if canonical \<noteq> [] then
               Some \<lparr> Value = canonical, Source = ''metadata'', Stable = True \<rparr>
             else if BoolVal (FallbackBodyHash (CSession cfg)) DefaultFallbackBodyHash
                  \<and> content \<noteq> [] then
               Some \<lparr> Value = hexEncode (sha256 (stringBytes content)), Source = ''body'',
                      Stable = True \<rparr>
             else None))"

definition sessionHeaderValue :: "sessionResult \<Rightarrow> Config \<Rightarrow> string" where
  "sessionHeaderValue res cfg =
     (if Source res \<in> set [''native'', ''body'', ''request''] then Value res
      else if BoolVal (HashDerived (CSession cfg)) DefaultHashDerived
        then hashSession (Value res)
      else Value res)"

subsection \<open>Accepted values are safe header values\<close>

definition safeSession :: "string \<Rightarrow> bool" where
  "safeSession v \<longleftrightarrow>
     v \<noteq> [] \<and> length v \<le> maxSessionLen \<and> TrimSpace v = v \<and>
     CHR 0x0D \<notin> set v \<and> CHR 0x0A \<notin> set v \<and> CHR 0x00 \<notin> set v"

lemma ContainsAny_crlf0 [simp]:
  "ContainsAny v [CHR 0x0D, CHR 0x0A, CHR 0x00] \<longleftrightarrow>
     CHR 0x0D \<in> set v \<or> CHR 0x0A \<in> set v \<or> CHR 0x00 \<in> set v"
  by (simp only: ContainsAny_def list_ex_iff set_simps) blast

lemma cleanSession_safe: "cleanSession raw \<noteq> [] \<Longrightarrow> safeSession (cleanSession raw)"
  by (simp add: cleanSession_def Let_def safeSession_def split: if_splits)

lemma cleanSession_id: "safeSession v \<Longrightarrow> cleanSession v = v"
  by (simp add: cleanSession_def safeSession_def)

lemma cleanHeader_safe: "cleanHeader hs name \<noteq> [] \<Longrightarrow> safeSession (cleanHeader hs name)"
  by (auto simp: cleanHeader_def intro: cleanSession_safe split: option.splits)

lemma fromSourceHeaders_safe: "fromSourceHeaders hs n srcs = Some v \<Longrightarrow> safeSession v"
  by (induction hs n srcs rule: fromSourceHeaders.induct)
    (auto intro: cleanHeader_safe split: if_splits)

lemma isHexDigit_safe: "isHexDigit c \<Longrightarrow> c \<noteq> CHR 0x0D \<and> c \<noteq> CHR 0x0A \<and> c \<noteq> CHR 0x00"
  by (auto simp: isHexDigit_def hexDigits_def)

lemma hexEncode_safe:
  assumes "bs \<noteq> []" "2 * length bs \<le> maxSessionLen"
  shows "safeSession (hexEncode bs)"
proof -
  have ne: "hexEncode bs \<noteq> []" using assms(1) by (metis length_0_conv length_hexEncode mult_eq_0_iff zero_neq_numeral)
  then have "TrimSpace (hexEncode bs) = hexEncode bs"
    by (intro TrimSpace_visible isHexDigit_visible hexEncode_digits [of _ bs]) auto
  with ne assms(2) show ?thesis
    using isHexDigit_safe hexEncode_digits by (fastforce simp: safeSession_def)
qed

lemma sha256_hex_safe: "safeSession (hexEncode (sha256 bs))"
  by (rule hexEncode_safe) (auto simp: maxSessionLen_def intro!: length_sha256 simp flip: length_0_conv)

lemma hashSession_safe: "safeSession (hashSession v)"
  by (simp add: hashSession_def sha256_hex_safe)

lemma resolveSessionID_safe:
  "resolveSessionID J req cfg headerName = Some res \<Longrightarrow>
     safeSession (Value res) \<and> Source res \<in> {''native'', ''header'', ''metadata'', ''body''} \<and> Stable res"
  by (auto simp: resolveSessionID_def Let_def sha256_hex_safe
      intro: cleanHeader_safe fromSourceHeaders_safe cleanSession_safe
      split: if_splits option.splits)

subsection \<open>The leading user run\<close>

text \<open>Once the run is closed by another role, later messages do not matter.\<close>

lemma messageTurns_closed:
  assumes "fst (messageTurns lenient started p)" "isObj m" "strVal (jget (objVal m) ''role'') \<noteq> ''user''"
  shows "messageTurns lenient started (p @ m # extra) = messageTurns lenient started p"
  using assms(1)
proof (induction lenient started p rule: messageTurns.induct)
  case (1 lenient started)
  with assms(2,3) show ?case by (cases m) auto
next
  case (2 lenient started raw rest)
  then show ?case
    by (cases raw) (auto simp: Let_def split: prod.splits if_splits)
qed

lemma responsesTurns_closed:
  assumes "fst (responsesTurns started p)" "isObj m" "\<not> isUserItem (objVal m)"
  shows "responsesTurns started (p @ m # extra) = responsesTurns started p"
  using assms(1)
proof (induction started p rule: responsesTurns.induct)
  case (1 started)
  with assms(2,3) show ?case by (cases m) auto
next
  case (2 started raw rest)
  then show ?case
    by (cases raw) (auto split: prod.splits if_splits)
qed

text \<open>System and developer preambles are skipped.\<close>

lemma messageTurns_preamble:
  assumes "isObj m" "strVal (jget (objVal m) ''role'') \<in> {''system'', ''developer''}"
  shows "messageTurns lenient False (m # rest) = messageTurns lenient False rest"
  using assms by (cases m) auto

end
