(* ===== verification/Useragent.thy ===== *)
theory Useragent
  imports Headers
begin

section \<open>Client identity and user agent\<close>

text \<open>
  plugin/useragent.go: which client sent a request (\<open>detectClientType\<close>), the user agent and
  the identity header of a request that is not fingerprinted.
\<close>

definition ClientCodex :: string where "ClientCodex = ''codex''"

definition ClientClaude :: string where "ClientClaude = ''claude''"

definition ClientOpenCode :: string where "ClientOpenCode = ''opencode''"

definition ClientGeneric :: string where "ClientGeneric = ''generic''"

definition defaultGenericUAPatterns :: "string list" where
  "defaultGenericUAPatterns =
     [''go-http-client'',
      ''python-requests'', ''python-urllib'', ''aiohttp'', ''httpx'', ''httptools'',
      ''curl/'', ''wget/'', ''httpie'',
      ''okhttp'', ''axios'', ''node-fetch'', ''undici'', ''got/'', ''ky/'',
      ''java/'', ''libwww'', ''ruby'', ''php/'', ''reqwest'', ''dart'',
      ''postmanruntime'', ''insomnia'', ''httpclient'', ''apache-httpclient'',
      ''guzzle'', ''faraday'', ''restsharp'', ''openai-python'', ''anthropic-python'',
      ''openai-go'', ''anthropic-sdk'', ''openai/'', ''anthropic/'']"

definition detectClientType :: "header \<Rightarrow> string" where
  "detectClientType hs =
     (if hasHeader hs ''X-Opencode-Session'' \<or> hasHeader hs ''X-Session-Affinity''
      then ClientOpenCode
      else if hasHeader hs ''X-Claude-Code-Session-Id'' \<or> hasHeader hs ''X-Claude-Code-Agent-Id''
      then ClientClaude
      else if hasHeader hs ''Session-Id'' \<or> hasHeader hs ''Session_id'' \<or>
        hasHeader hs ''Thread-Id'' \<or> hasHeader hs ''Thread_id'' \<or>
        hasHeader hs ''X-Codex-Turn-Metadata''
      then ClientCodex
      else
        let ua = ToLower (headerGet hs ''User-Agent'') in
        if sublist ''opencode'' ua then ClientOpenCode
        else if sublist ''claude'' ua then ClientClaude
        else if sublist ''codex'' ua then ClientCodex
        else ClientGeneric)"

definition isGenericUserAgent :: "string \<Rightarrow> bool" where
  "isGenericUserAgent ua \<longleftrightarrow>
     (let lower = ToLower (TrimSpace ua) in
      if length lower < 3 then True
      else list_ex (\<lambda>p. sublist p lower) defaultGenericUAPatterns)"

definition resolveUserAgent :: "Config \<Rightarrow> string \<Rightarrow> string" where
  "resolveUserAgent cfg clientUA =
     (let ua = TrimSpace clientUA in
      if ua \<noteq> [] \<and> \<not> isGenericUserAgent ua then ua
      else
        let v = TrimSpace (FallbackValue (CUserAgent cfg)) in
        if v \<noteq> [] then v else DefaultFallbackUA)"

definition resolveClientIdentity :: "Config \<Rightarrow> string \<Rightarrow> string" where
  "resolveClientIdentity cfg clientType =
     (case map_of (ClientMap (CUserAgent cfg)) clientType of
        Some v \<Rightarrow> TrimSpace v
      | None \<Rightarrow> if clientType \<noteq> [] \<and> clientType \<noteq> ClientGeneric then clientType else [])"

subsection \<open>Lemmas\<close>

lemma isGenericUserAgent_trim [simp]: "isGenericUserAgent (TrimSpace ua) = isGenericUserAgent ua"
  by (simp add: isGenericUserAgent_def)

lemma DefaultFallbackUA_trimmed: "TrimSpace DefaultFallbackUA = DefaultFallbackUA"
  by (rule TrimSpace_visible) (simp_all add: DefaultFallbackUA_def visibleByte_def)

lemma DefaultFallbackUA_specific: "\<not> isGenericUserAgent DefaultFallbackUA"
proof -
  have "asciiOnly DefaultFallbackUA" by (simp add: asciiOnly_def DefaultFallbackUA_def)
  then have "ToLower (TrimSpace DefaultFallbackUA) = ''coding-agent/1.0''"
    by (simp add: DefaultFallbackUA_trimmed ToLower_ascii)
      (simp add: DefaultFallbackUA_def lowerByte_def)
  then show ?thesis
    unfolding isGenericUserAgent_def defaultGenericUAPatterns_def by code_simp
qed

lemma resolveUserAgent_nonempty: "resolveUserAgent cfg ua \<noteq> []"
  by (simp add: resolveUserAgent_def Let_def DefaultFallbackUA_def)

lemma resolveUserAgent_specific:
  assumes "isGenericUserAgent (resolveUserAgent cfg ua)"
  shows "resolveUserAgent cfg ua = TrimSpace (FallbackValue (CUserAgent cfg))"
  using assms DefaultFallbackUA_specific
  by (auto simp: resolveUserAgent_def Let_def split: if_splits)

text \<open>The order of the headers matters as little here as it does for the lookups.\<close>

lemma detectClientType_order:
  "foldUnique hs \<Longrightarrow> mset hs = mset hs' \<Longrightarrow> detectClientType hs = detectClientType hs'"
  using headerValue_order [of hs hs']
  by (simp add: detectClientType_def hasHeader_def headerGet_def Let_def)

lemma detectClientType_range:
  "detectClientType hs \<in> {ClientOpenCode, ClientClaude, ClientCodex, ClientGeneric}"
  by (simp add: detectClientType_def Let_def)

end
