(* ===== verification/Session_Properties.thy ===== *)
theory Session_Properties
  imports Body_Properties Sessions Useragent
begin

section \<open>Properties of identities\<close>

text \<open>
  The theorems on what identifies a request upstream: configuration, headers, user agent,
  project, model class and session.
\<close>

subsection \<open>Lemmas\<close>

lemma cleanHeader_order:
  "foldUnique hs \<Longrightarrow> mset hs = mset hs' \<Longrightarrow> cleanHeader hs = cleanHeader hs'"
  using headerValue_order [of hs hs'] by (simp add: cleanHeader_def fun_eq_iff)

lemma fromSourceHeaders_cong:
  "cleanHeader hs = cleanHeader hs' \<Longrightarrow> fromSourceHeaders hs n srcs = fromSourceHeaders hs' n srcs"
  by (induction hs n srcs rule: fromSourceHeaders.induct) auto

text \<open>Only the text of the leading user turns of a body matters to the session.\<close>

lemma resolveSessionID_cong:
  assumes "cleanHeader (ReqHeaders r) = cleanHeader (ReqHeaders r')"
    and "ReqMetadata r = ReqMetadata r'"
    and "firstUserContent J (SourceFormat r) (ReqBody r) = firstUserContent J (SourceFormat r') (ReqBody r')"
  shows "resolveSessionID J r cfg n = resolveSessionID J r' cfg n"
  using fromSourceHeaders_cong [OF assms(1)] assms
  by (simp add: resolveSessionID_def Let_def)

lemma firstUserContent_chat:
  assumes "unmarshalMap J body = Root doc" "body \<noteq> []" "jget doc ''messages'' = JArr ms"
  shows "firstUserContent J ''openai'' body = snd (messageTurns False False ms)"
  using assms by (simp add: firstUserContent_def userText_def collectMessageTurns_def)

lemma hexEncode_hash: "isHexDigit c \<or> c \<notin> set (hashSession v)"
  unfolding hashSession_def using hexEncode_digits by blast

subsection \<open>Headers and user agent\<close>

text \<open>
  C39. Go ranges over the header map in no particular order. As long as no two names differ by
  case alone (\<open>foldUnique\<close>), the order shows neither in the session that is resolved nor in the
  client type. With two such names it does (\<open>case_variants_ordered\<close>).
\<close>

theorem headers_order_independent:
  assumes "foldUnique hs" "mset hs = mset hs'"
  shows "resolveSessionID J (req\<lparr> ReqHeaders := hs \<rparr>) cfg n =
      resolveSessionID J (req\<lparr> ReqHeaders := hs' \<rparr>) cfg n \<and>
    detectClientType hs = detectClientType hs'"
  using resolveSessionID_cong [of "req\<lparr> ReqHeaders := hs \<rparr>" "req\<lparr> ReqHeaders := hs' \<rparr>" J cfg n]
    cleanHeader_order [OF assms] detectClientType_order [OF assms]
  by simp

lemma case_variants_ordered:
  "headerValue [(''Thread-Id'', [''a'']), (''thread-id'', [''b''])] ''Thread-Id'' = Some ''a''"
  "headerValue [(''thread-id'', [''b'']), (''Thread-Id'', [''a''])] ''Thread-Id'' = Some ''b''"
  by code_simp+

lemma headers_order_independent_witness:
  "detectClientType [(''Thread-Id'', [''a'']), (''User-Agent'', [''claude'']) ] =
   detectClientType [(''User-Agent'', [''claude'']), (''Thread-Id'', [''a''])]"
proof -
  have "foldUnique [(''Thread-Id'', [''a'']), (''User-Agent'', [''claude'']) ]"
    by (simp add: foldUnique_def foldCase_ascii asciiOnly_def lowerByte_def)
  from headers_order_independent [OF this,
      of "[(''User-Agent'', [''claude'']), (''Thread-Id'', [''a''])]"]
  show ?thesis by simp
qed

text \<open>
  The user agent of a request that is not fingerprinted is never empty and never that of a
  generic HTTP library, unless the operator configured such a fallback.
\<close>

lemma useragent_never_generic:
  assumes "TrimSpace (FallbackValue (CUserAgent cfg)) = [] \<or>
    \<not> isGenericUserAgent (FallbackValue (CUserAgent cfg))"
  shows "resolveUserAgent cfg ua \<noteq> [] \<and> \<not> isGenericUserAgent (resolveUserAgent cfg ua)"
proof -
  have "\<not> isGenericUserAgent (resolveUserAgent cfg ua)"
  proof
    assume g: "isGenericUserAgent (resolveUserAgent cfg ua)"
    then have "resolveUserAgent cfg ua = TrimSpace (FallbackValue (CUserAgent cfg))"
      by (rule resolveUserAgent_specific)
    with g assms resolveUserAgent_nonempty [of cfg ua] show False by auto
  qed
  with resolveUserAgent_nonempty show ?thesis by blast
qed

subsection \<open>Projects and the request envelope\<close>


text \<open>
  The request envelope is consistent: the four session headers carry the same session, and
  the two tracing headers name the same trace (32 digits) and the same span (16 digits).
\<close>

lemma envelope_consistent:
  "\<exists>trace span parent.
     list_all (\<lambda>n. headerFirst (opencodeHeaders e session project) n = session) sessionHeaderNames \<and>
     headerFirst (opencodeHeaders e session project) ''B3'' =
       trace @ ''-'' @ span @ ''-1-'' @ parent \<and>
     headerFirst (opencodeHeaders e session project) ''Traceparent'' =
       ''00-'' @ trace @ ''-'' @ span @ ''-01'' \<and>
     length trace = 32 \<and> length span = 16 \<and> length parent = 16 \<and>
     list_all isHexDigit (trace @ span @ parent)"
proof (intro exI conjI)
  let ?t = "hexEncode (readRand 16 (traceRand e))"
  let ?s = "hexEncode (readRand 8 (spanRand e))"
  let ?p = "hexEncode (readRand 8 (parentRand e))"
  have c: "CanonicalHeaderKey ''B3'' = ''B3''" "CanonicalHeaderKey ''Traceparent'' = ''Traceparent''"
    "list_all (\<lambda>n. CanonicalHeaderKey n = n) sessionHeaderNames"
    by code_simp+
  show "headerFirst (opencodeHeaders e session project) ''B3'' = ?t @ ''-'' @ ?s @ ''-1-'' @ ?p"
    "headerFirst (opencodeHeaders e session project) ''Traceparent'' = ''00-'' @ ?t @ ''-'' @ ?s @ ''-01''"
    by (simp_all add: headerFirst_def c opencodeHeaders_list)
  show "list_all (\<lambda>n. headerFirst (opencodeHeaders e session project) n = session) sessionHeaderNames"
    using c(3) by (simp add: headerFirst_def opencodeHeaders_list sessionHeaderNames_def)
  show "list_all isHexDigit (?t @ ?s @ ?p)"
    by (auto simp: list_all_iff dest: hexEncode_digits)
qed simp_all

subsection \<open>Models\<close>

text \<open>
  A model the operator lists as paid is never fingerprinted (with \<open>free_only\<close> on): whatever
  its markers and the free list say, however it is cased, and whichever provider prefix the
  request or the list puts before it.
\<close>

lemma paid_not_fingerprinted:
  assumes "paid \<in> set (PaidModels (CFreeTier cfg))" "paid' \<in> set (PaidModels (CFreeTier cfg))"
    and "lastSegment (Model req) = lastSegment paid"
    and "lastSegment (RequestedModel req) = lastSegment paid'"
    and "BoolVal (FreeOnly (CFingerprint cfg)) DefaultFingerprintFreeOnly"
  shows "\<not> fingerprintApplies req cfg"
  using paid_never_free [OF assms(1,3)] paid_never_free [OF assms(2,4)] assms(5)
  by (simp add: fingerprintApplies_def)

definition paidConfig :: Config where
  "paidConfig = DefaultConfig\<lparr> CFreeTier :=
     \<lparr> Markers = [''-free'', '':free''], FreeModels = [], PaidModels = [''big-free''] \<rparr> \<rparr>"

definition plainRequest :: RequestInterceptRequest where
  "plainRequest =
    \<lparr> RequestID = ''r-1'', SourceFormat = ''openai'', ToFormat = ''openai'', Model = ''big-free'',
      RequestedModel = ''big-free'', ReqHeaders = [], ReqBody = [], ReqMetadata = [] \<rparr>"

subsection \<open>Sessions\<close>

text \<open>
  C30. A resolved session can be sent as a header value: it is not empty, at most 512 bytes long,
  trimmed, and without CR, LF or NUL; so is what is finally sent for it, hashed or not.
\<close>

theorem session_value_safe:
  assumes "resolveSessionID J req cfg headerName = Some res"
  shows "safeSession (Value res) \<and> safeSession (sessionHeaderValue res cfg)"
  using resolveSessionID_safe [OF assms] by (simp add: sessionHeaderValue_def hashSession_safe)

definition clientRequest :: RequestInterceptRequest where
  "clientRequest = plainRequest\<lparr> ReqHeaders := [(''Session-Id'', [''  abc  ''])] \<rparr>"

lemma clientRequest_session:
  "resolveSessionID sampleCodec clientRequest DefaultConfig ''x-opencode-session'' =
     Some \<lparr> Value = ''abc'', Source = ''header'', Stable = True \<rparr>"
proof -
  have t: "TrimSpace ''  abc  '' = ''abc''" "TrimSpace ''abc'' = ''abc''" by code_simp+
  have h: "headerValue [(''Session-Id'', [''  abc  ''])] n =
      (if EqualFold ''Session-Id'' n then Some ''abc'' else None)" for n
    by (simp add: t)
  have e: "\<not> EqualFold ''Session-Id'' ''x-opencode-session''"
    "\<not> EqualFold ''Session-Id'' ''X-Opencode-Session-Id''"
    "EqualFold ''X-Opencode-Session'' ''x-opencode-session''"
    by code_simp+
  have c: "cleanSession ''abc'' = ''abc''" by (simp add: cleanSession_def t maxSessionLen_def)
  have src: "fromSourceHeaders [(''Session-Id'', [''  abc  ''])] ''x-opencode-session''
      (SourceHeaders (CSession DefaultConfig)) = Some ''abc''"
  proof -
    have "\<exists>rest. SourceHeaders (CSession DefaultConfig) = ''X-Opencode-Session'' # ''Session-Id'' # rest"
      by (simp add: DefaultConfig_def)
    then obtain rest where
      r: "SourceHeaders (CSession DefaultConfig) = ''X-Opencode-Session'' # ''Session-Id'' # rest" by blast
    have cl: "cleanHeader [(''Session-Id'', [''  abc  ''])] ''Session-Id'' = ''abc''"
      unfolding cleanHeader_def h by (simp add: c)
    show ?thesis unfolding r fromSourceHeaders.simps cl using e by simp
  qed
  show ?thesis
    using e src
    by (simp add: resolveSessionID_def Let_def clientRequest_def plainRequest_def cleanHeader_def h
        HeaderOpenCodeSessionID_def del: headerValue.simps)
qed

lemma session_value_safe_witness:
  "safeSession (sessionHeaderValue \<lparr> Value = ''abc'', Source = ''header'', Stable = True \<rparr> DefaultConfig)"
  using session_value_safe [OF clientRequest_session] by simp

text \<open>
  C29. A conversation keeps its session: a Chat request whose messages continue those of an
  earlier one (after the run of user turns was closed by an answer) resolves to the same
  session, if the client's headers and metadata are the same.
\<close>

theorem conversation_keeps_session:
  assumes "unmarshalMap J (ReqBody r) = Root d" "jget d ''messages'' = JArr p"
    and "unmarshalMap J (ReqBody r') = Root d'" "jget d' ''messages'' = JArr (p @ answer # later)"
    and "ReqBody r \<noteq> []" "ReqBody r' \<noteq> []" "SourceFormat r = ''openai''" "SourceFormat r' = ''openai''"
    and "ReqHeaders r = ReqHeaders r'" "ReqMetadata r = ReqMetadata r'"
    and "fst (messageTurns False False p)"
    and "isObj answer" "strVal (jget (objVal answer) ''role'') \<noteq> ''user''"
  shows "resolveSessionID J r cfg n = resolveSessionID J r' cfg n"
proof (rule resolveSessionID_cong)
  show "firstUserContent J (SourceFormat r) (ReqBody r) = firstUserContent J (SourceFormat r') (ReqBody r')"
    using firstUserContent_chat [OF assms(1,5,2)] firstUserContent_chat [OF assms(3,6,4)] assms(7,8)
      messageTurns_closed [OF assms(11-13)]
    by simp
qed (use assms(9,10) in simp_all)

definition userMessage :: json where
  "userMessage = JObj [(''role'', JStr ''user''), (''content'', JStr ''fix the build'')]"

definition answerMessage :: json where
  "answerMessage = JObj [(''role'', JStr ''assistant''), (''content'', JStr ''done'')]"

definition turnsCodec :: codec where
  "turnsCodec = sampleCodec\<lparr> unmarshal :=
     (\<lambda>b. if b = ''one'' then Some (JObj [(''messages'', JArr [userMessage])])
          else if b = ''two'' then Some (JObj [(''messages'', JArr [userMessage, answerMessage, userMessage])])
          else None) \<rparr>"

lemma conversation_keeps_session_witness:
  "resolveSessionID turnsCodec (plainRequest\<lparr> ReqBody := ''one'' \<rparr>) DefaultConfig ''x-opencode-session'' =
   resolveSessionID turnsCodec (plainRequest\<lparr> ReqBody := ''two'' \<rparr>) DefaultConfig ''x-opencode-session''"
  by (rule conversation_keeps_session
      [where d = "[(''messages'', JArr [userMessage])]" and p = "[userMessage]"
        and d' = "[(''messages'', JArr [userMessage, answerMessage, userMessage])]"
        and answer = answerMessage and later = "[userMessage]"])
    (simp_all add: unmarshalMap_Root turnsCodec_def jget_def plainRequest_def
      userMessage_def answerMessage_def split: prod.splits)

end
