(* ===== verification/Structs.thy ===== *)
theory Structs
  imports Headers
begin

section \<open>Decoding into structs\<close>

text \<open>
  What \<open>json.Unmarshal\<close> does with a struct target, over decoded values: a member fills the
  field whose name it matches up to case, in the order of the document, so of several
  spellings the last one counts; \<open>null\<close> leaves a string or a bool as it was and clears a
  slice or a map; a value of another type is an error (None). Go goes on after such an
  error, but the callers that look at the error drop the value; \<open>lenientString\<close> is the
  field of the one caller that ignores it.
\<close>

fun decodeAll :: "(json \<Rightarrow> 'a \<Rightarrow> 'a option) \<Rightarrow> json list \<Rightarrow> 'a \<Rightarrow> 'a option" where
  "decodeAll into [] x = Some x"
| "decodeAll into (v # vs) x =
     (case into v x of None \<Rightarrow> None | Some y \<Rightarrow> decodeAll into vs y)"

definition fieldValues :: "string \<Rightarrow> obj \<Rightarrow> json list" where
  "fieldValues name m = map snd (filter (\<lambda>(k, v). EqualFold k name) m)"

definition structField :: "(json \<Rightarrow> 'a \<Rightarrow> 'a option) \<Rightarrow> string \<Rightarrow> 'a \<Rightarrow> obj \<Rightarrow> 'a option" where
  "structField into name zero m = decodeAll into (fieldValues name m) zero"

definition intoString :: "json \<Rightarrow> string \<Rightarrow> string option" where
  "intoString v x = (case v of JNull \<Rightarrow> Some x | JStr s \<Rightarrow> Some s | _ \<Rightarrow> None)"

definition intoBool :: "json \<Rightarrow> bool \<Rightarrow> bool option" where
  "intoBool v x = (case v of JNull \<Rightarrow> Some x | JBool b \<Rightarrow> Some b | _ \<Rightarrow> None)"

text \<open>A \<open>map[string]string\<close>: members are added to the map, a \<open>null\<close> member is empty.\<close>

fun addStrings :: "obj \<Rightarrow> (string \<times> string) list \<Rightarrow> (string \<times> string) list option" where
  "addStrings [] x = Some x"
| "addStrings ((k, v) # m) x =
     (case intoString v [] of None \<Rightarrow> None | Some s \<Rightarrow> addStrings m (AList.update k s x))"

definition intoStringMap :: "json \<Rightarrow> (string \<times> string) list \<Rightarrow> (string \<times> string) list option" where
  "intoStringMap v x =
     (case v of JNull \<Rightarrow> Some [] | JObj m \<Rightarrow> addStrings m x | _ \<Rightarrow> None)"

text \<open>
  A slice: element \<open>i\<close> is decoded into what the slice already holds there.
\<close>

fun intoElems :: "(json \<Rightarrow> 'a \<Rightarrow> 'a option) \<Rightarrow> 'a \<Rightarrow> json list \<Rightarrow> 'a list \<Rightarrow> 'a list option" where
  "intoElems into zero [] old = Some []"
| "intoElems into zero (v # vs) old =
     (case into v (case old of [] \<Rightarrow> zero | o1 # _ \<Rightarrow> o1) of
        None \<Rightarrow> None
      | Some x \<Rightarrow>
          (case intoElems into zero vs (tl old) of None \<Rightarrow> None | Some xs \<Rightarrow> Some (x # xs)))"

definition intoSlice :: "(json \<Rightarrow> 'a \<Rightarrow> 'a option) \<Rightarrow> 'a \<Rightarrow> json \<Rightarrow> 'a list \<Rightarrow> 'a list option" where
  "intoSlice into zero v x =
     (case v of JNull \<Rightarrow> Some [] | JArr vs \<Rightarrow> intoElems into zero vs x | _ \<Rightarrow> None)"

definition lenientString :: "string \<Rightarrow> obj \<Rightarrow> string" where
  "lenientString name m =
     fold (\<lambda>v x. case v of JStr s \<Rightarrow> s | _ \<Rightarrow> x) (fieldValues name m) []"

subsection \<open>Lemmas\<close>

lemma structField_single:
  "fieldValues name m = [v] \<Longrightarrow> structField into name zero m = into v zero"
  by (simp add: structField_def split: option.splits)

lemma structField_absent: "fieldValues name m = [] \<Longrightarrow> structField into name zero m = Some zero"
  by (simp add: structField_def)

lemma addStrings_unique: "addStrings m x = Some y \<Longrightarrow> uniqueKeys x \<Longrightarrow> uniqueKeys y"
  by (induction m x rule: addStrings.induct) (auto split: option.splits)

lemma intoStringMap_unique: "intoStringMap v x = Some y \<Longrightarrow> uniqueKeys x \<Longrightarrow> uniqueKeys y"
  by (auto simp: intoStringMap_def intro: addStrings_unique split: json.splits)

lemma decodeAll_inv:
  assumes "\<And>v x y. into v x = Some y \<Longrightarrow> I x \<Longrightarrow> I y"
  shows "decodeAll into vs x = Some y \<Longrightarrow> I x \<Longrightarrow> I y"
  by (induction vs arbitrary: x) (auto intro: assms split: option.splits)

lemma structField_inv:
  assumes "structField into name zero m = Some y" "I zero"
    and "\<And>v x y. into v x = Some y \<Longrightarrow> I x \<Longrightarrow> I y"
  shows "I y"
  using decodeAll_inv [of into I] assms by (auto simp: structField_def)

end
