(* ===== verification/Auth.thy ===== *)
theory Auth
  imports Structs Targets Types
begin

section \<open>Native credentials\<close>

text \<open>
  The credential half of plugin/native.go (lines 14-144, 172-246) and
  \<open>normalizeNativeProxy\<close> of plugin/native_transport.go: how a stored credential is decoded and
  checked and what the auth and model methods answer. \<open>net/url\<close> is the argument
  \<open>urlParse\<close>; the fields of a \<open>url\<close> are what the code reads of the parsed value
  (\<open>UString\<close> is \<open>u.String()\<close>). Go errors are their texts.
\<close>

record url =
  UScheme :: string
  UHostname :: string
  UPort :: string
  UUser :: "(string \<times> string) option"
  URawQuery :: string
  UFragment :: string
  UPath :: string
  UString :: string

record nativeModel =
  ModelName :: string
  ModelAlias :: string

record nativeAuth =
  AuthType :: string
  APIKey :: string
  BaseURL :: string
  ProxyURL :: string
  AuthPrefix :: string
  AuthLabel :: string
  Disabled :: bool
  AuthHeaders :: "(string \<times> string) list"
  AuthModels :: "nativeModel list"

record nativeAuthData =
  DataProvider :: string
  DataID :: string
  DataFileName :: string
  DataLabel :: string
  DataPrefix :: string
  DataProxyURL :: string
  DataDisabled :: bool
  StorageJSON :: string
  DataMetadata :: obj
  Attributes :: "(string \<times> string) list"

definition nativeBaseURL :: string where
  "nativeBaseURL = ''https://opencode.ai/inference/openai/v1''"

definition nativeExecutionIDHeader :: string where
  "nativeExecutionIDHeader = ''X-CPA-OpenCode-Execution-ID''"

definition nativeSourceFormatHeader :: string where
  "nativeSourceFormatHeader = ''X-CPA-OpenCode-Source-Format''"

subsection \<open>Endpoint and proxy\<close>

definition trimSlashes :: "string \<Rightarrow> string" where
  "trimSlashes s = rev (dropWhile (\<lambda>c. c = CHR ''/'') (rev s))"

definition officialURL :: "url \<Rightarrow> bool" where
  "officialURL u \<longleftrightarrow>
     UScheme u = ''https'' \<and> EqualFold (UHostname u) ''opencode.ai'' \<and>
     (UPort u = [] \<or> UPort u = ''443'') \<and> UUser u = None \<and> URawQuery u = [] \<and>
     UFragment u = [] \<and> (UPath u = ''/inference/openai/v1'' \<or> UPath u = ''/inference/v1'')"

definition validateNativeURL :: "(string \<Rightarrow> url option) \<Rightarrow> string \<Rightarrow> string + string" where
  "validateNativeURL urlParse raw =
     (if TrimSpace raw = [] then Inr nativeBaseURL
      else
        (case urlParse (trimSlashes (TrimSpace raw)) of
           Some u \<Rightarrow>
             if officialURL u then Inr (UString u)
             else Inl ''native OpenCode base_url must be the official HTTPS inference endpoint''
         | None \<Rightarrow> Inl ''native OpenCode base_url must be the official HTTPS inference endpoint''))"

definition normalizeNativeProxy :: "string \<Rightarrow> string" where
  "normalizeNativeProxy raw =
     (let v = TrimSpace raw in
      if EqualFold v ''direct'' \<or> EqualFold v ''none'' \<or> EqualFold v ''direct://''
      then ''direct://'' else v)"

subsection \<open>Decoding a stored credential\<close>

definition zeroModel :: nativeModel where
  "zeroModel = \<lparr> ModelName = [], ModelAlias = [] \<rparr>"

definition intoModel :: "json \<Rightarrow> nativeModel \<Rightarrow> nativeModel option" where
  "intoModel v x =
     (case v of
        JNull \<Rightarrow> Some x
      | JObj m \<Rightarrow>
          (case (structField intoString ''name'' (ModelName x) m,
                 structField intoString ''alias'' (ModelAlias x) m) of
             (Some n, Some a) \<Rightarrow> Some \<lparr> ModelName = n, ModelAlias = a \<rparr>
           | _ \<Rightarrow> None)
      | _ \<Rightarrow> None)"

definition zeroAuth :: nativeAuth where
  "zeroAuth =
    \<lparr> AuthType = [], APIKey = [], BaseURL = [], ProxyURL = [], AuthPrefix = [], AuthLabel = [],
      Disabled = False, AuthHeaders = [], AuthModels = [] \<rparr>"

definition authFields :: "obj \<Rightarrow> nativeAuth option" where
  "authFields m =
     (case (structField intoString ''type'' [] m, structField intoString ''api_key'' [] m,
            structField intoString ''base_url'' [] m, structField intoString ''proxy_url'' [] m,
            structField intoString ''prefix'' [] m, structField intoString ''label'' [] m,
            structField intoBool ''disabled'' False m,
            structField intoStringMap ''headers'' [] m,
            structField (intoSlice intoModel zeroModel) ''models'' [] m) of
        (Some t, Some k, Some b, Some p, Some pre, Some l, Some d, Some hs, Some ms) \<Rightarrow>
          Some \<lparr> AuthType = t, APIKey = k, BaseURL = b, ProxyURL = p, AuthPrefix = pre,
            AuthLabel = l, Disabled = d, AuthHeaders = hs, AuthModels = ms \<rparr>
      | _ \<Rightarrow> None)"

definition unmarshalAuth :: "codec \<Rightarrow> string \<Rightarrow> nativeAuth option" where
  "unmarshalAuth J raw =
     (case unmarshal J raw of
        Some (JObj m) \<Rightarrow> authFields m
      | Some JNull \<Rightarrow> Some zeroAuth
      | _ \<Rightarrow> None)"

text \<open>The inner loop over a model's name and alias; None is the ambiguity error.\<close>

fun claimIDs :: "string \<Rightarrow> string list \<Rightarrow> (string \<rightharpoonup> string) \<Rightarrow> (string \<rightharpoonup> string) option" where
  "claimIDs name [] seen = Some seen"
| "claimIDs name (i # ids) seen =
     (if i = [] then claimIDs name ids seen
      else if (case seen i of Some prior \<Rightarrow> prior \<noteq> name | None \<Rightarrow> False) then None
      else claimIDs name ids (seen(i \<mapsto> name)))"

fun checkModels ::
    "FreeTierConfig \<Rightarrow> (string \<rightharpoonup> string) \<Rightarrow> nativeModel list \<Rightarrow> string + nativeModel list" where
  "checkModels cfg seen [] = Inr []"
| "checkModels cfg seen (m # ms) =
     (let name = TrimSpace (ModelName m); alias = TrimSpace (ModelAlias m) in
      if prefix ''muse-'' (lastSegment name)
      then Inl ''Responses-only Muse models are unsupported by the native Chat executor''
      else if name = [] \<or> ContainsAny (name @ alias) [CHR 0x0D, CHR 0x0A] \<or>
        isExplicitPaidModel (lastSegment name) cfg
      then Inl (''invalid or explicitly paid OpenCode model: '' @ name)
      else
        (case claimIDs name [name, alias] seen of
           None \<Rightarrow> Inl ''ambiguous OpenCode model alias''
         | Some seen' \<Rightarrow>
             (case checkModels cfg seen' ms of
                Inl err \<Rightarrow> Inl err
              | Inr ms' \<Rightarrow> Inr (\<lparr> ModelName = name, ModelAlias = alias \<rparr> # ms'))))"

text \<open>
  The loop over the runes of a name or a value only compares with ASCII code points, so a
  byte of a longer encoding never passes the first test and always passes the second.
\<close>

definition validNativeHeader :: "string \<Rightarrow> string \<Rightarrow> bool" where
  "validNativeHeader name v \<longleftrightarrow>
     name \<noteq> [] \<and> list_all isTokenByte name \<and>
     list_all (\<lambda>c. \<not> ((of_char c :: nat) < 32 \<and> c \<noteq> CHR 0x09 \<or> (of_char c :: nat) = 127)) v"

definition isRequestHeader :: "string \<Rightarrow> bool" where
  "isRequestHeader name \<longleftrightarrow> EqualFold name ''X-Opencode-Request''"

fun checkHeaders :: "(string \<times> string) list \<Rightarrow> (string \<times> string) list option" where
  "checkHeaders [] = Some []"
| "checkHeaders ((name, v) # hs) =
     (if isRequestHeader name then checkHeaders hs
      else if \<not> validNativeHeader name v then None
      else (case checkHeaders hs of None \<Rightarrow> None | Some hs' \<Rightarrow> Some ((name, v) # hs')))"

definition decodeNativeAuth ::
    "codec \<Rightarrow> (string \<Rightarrow> url option) \<Rightarrow> Config \<Rightarrow> string \<Rightarrow> string + nativeAuth" where
  "decodeNativeAuth J urlParse cfg raw =
     (case unmarshalAuth J raw of
        None \<Rightarrow> Inl ''invalid OpenCode auth JSON''
      | Some auth \<Rightarrow>
          if AuthType auth \<noteq> PluginID then Inl ''unexpected OpenCode auth type''
          else if TrimSpace (APIKey auth) = [] then Inl ''OpenCode api_key is required''
          else
            (case validateNativeURL urlParse (BaseURL auth) of
               Inl err \<Rightarrow> Inl err
             | Inr base \<Rightarrow>
                 (case checkModels (CFreeTier cfg) Map.empty (AuthModels auth) of
                    Inl err \<Rightarrow> Inl err
                  | Inr models \<Rightarrow>
                      (case checkHeaders (AuthHeaders auth) of
                         None \<Rightarrow> Inl ''invalid OpenCode custom header''
                       | Some hs \<Rightarrow>
                           Inr (auth\<lparr> APIKey := TrimSpace (APIKey auth), BaseURL := base,
                             ProxyURL := normalizeNativeProxy (ProxyURL auth),
                             AuthModels := models, AuthHeaders := hs \<rparr>)))))"

subsection \<open>The auth and model methods\<close>

record parseRequest =
  ParseProvider :: string
  ParsePath :: string
  ParseFileName :: string
  ParseRawJSON :: string
  ParseHostProxyURL :: string

record forAuthRequest =
  ForAuthProvider :: string
  ForStorageJSON :: string

record refreshRequest =
  RefreshAuthID :: string
  RefreshAuthProvider :: string
  RefreshStorageJSON :: string

datatype nativeReply =
    RIdentifier string
  | RNotHandled
  | RHandled nativeAuthData
  | RModels "json list"
  | RNoModels
  | RRefreshed nativeAuthData
  | RDone

text \<open>\<open>filepath.Base\<close> on a Unix path.\<close>

definition filepathBase :: "string \<Rightarrow> string" where
  "filepathBase path =
     (if path = [] then ''.''
      else let p = trimSlashes path; b = afterLast (CHR ''/'') p in
        if b = [] then ''/'' else b)"

definition kindType :: "codec \<Rightarrow> string \<Rightarrow> string" where
  "kindType J raw =
     (case unmarshal J raw of Some (JObj m) \<Rightarrow> lenientString ''type'' m | _ \<Rightarrow> [])"

definition authAttributes :: "nativeAuth \<Rightarrow> string \<Rightarrow> (string \<times> string) list" where
  "authAttributes auth proxyURL =
     fold (\<lambda>(k, v). AList.update (''header:'' @ k) v) (AuthHeaders auth)
       [(''api_key'', APIKey auth), (''auth_type'', ''api_key''), (''proxy_url'', proxyURL)]"

definition authParse ::
    "codec \<Rightarrow> (string \<Rightarrow> url option) \<Rightarrow> Config \<Rightarrow> parseRequest \<Rightarrow> nativeReply envelope" where
  "authParse J urlParse cfg req =
     (if ParseProvider req \<noteq> PluginID \<and> kindType J (ParseRawJSON req) \<noteq> PluginID
      then OKEnvelope RNotHandled
      else
        (case decodeNativeAuth J urlParse cfg (ParseRawJSON req) of
           Inl err \<Rightarrow> nativeError ''invalid_auth'' err 400
         | Inr auth \<Rightarrow>
             let name = (if ParseFileName req = [] then filepathBase (ParsePath req)
                         else ParseFileName req) in
             if name = [] \<or> name = ''.''
             then nativeError ''invalid_auth'' ''OpenCode credential file name is required'' 400
             else
               let proxy = (if ProxyURL auth = [] then normalizeNativeProxy (ParseHostProxyURL req)
                            else ProxyURL auth) in
               OKEnvelope (RHandled
                 \<lparr> DataProvider = PluginID, DataID = PluginID @ '':'' @ name, DataFileName = name,
                   DataLabel = AuthLabel auth, DataPrefix = AuthPrefix auth,
                   DataProxyURL = proxy, DataDisabled = Disabled auth,
                   StorageJSON = ParseRawJSON req,
                   DataMetadata =
                     (case unmarshalMap J (ParseRawJSON req) of Root m \<Rightarrow> m | _ \<Rightarrow> []),
                   Attributes = authAttributes auth proxy \<rparr>)))"

text \<open>The pairs of an id and the model it stands for, each id once.\<close>

fun publishIDs :: "string list \<Rightarrow> (string \<times> string) list \<Rightarrow> (string \<times> string) list" where
  "publishIDs seen [] = []"
| "publishIDs seen ((i, name) # ids) =
     (if i = [] \<or> i \<in> set seen then publishIDs seen ids
      else (i, name) # publishIDs (i # seen) ids)"

definition modelIDs :: "nativeModel list \<Rightarrow> (string \<times> string) list" where
  "modelIDs ms =
     concat (map (\<lambda>m. [(ModelName m, ModelName m), (ModelAlias m, ModelName m)]) ms)"

definition publishedModels :: "nativeModel list \<Rightarrow> (string \<times> string) list" where
  "publishedModels ms = publishIDs [] (modelIDs ms)"

definition modelEntry :: "string \<times> string \<Rightarrow> json" where
  "modelEntry entry =
     JObj [(''ID'', JStr (fst entry)), (''Name'', JStr (snd entry)), (''Object'', JStr ''model''),
       (''OwnedBy'', JStr ''opencode''), (''Type'', JStr ''openai''),
       (''DisplayName'', JStr (fst entry))]"

definition modelForAuth ::
    "codec \<Rightarrow> (string \<Rightarrow> url option) \<Rightarrow> Config \<Rightarrow> forAuthRequest \<Rightarrow> nativeReply envelope" where
  "modelForAuth J urlParse cfg req =
     (if ForAuthProvider req \<noteq> PluginID then OKEnvelope RNoModels
      else
        (case decodeNativeAuth J urlParse cfg (ForStorageJSON req) of
           Inl err \<Rightarrow> nativeError ''invalid_auth'' err 400
         | Inr auth \<Rightarrow> OKEnvelope (RModels (map modelEntry (publishedModels (AuthModels auth))))))"

definition authRefresh :: "refreshRequest \<Rightarrow> nativeReply envelope" where
  "authRefresh req =
     OKEnvelope (RRefreshed
       \<lparr> DataProvider = RefreshAuthProvider req, DataID = RefreshAuthID req, DataFileName = [],
         DataLabel = [], DataPrefix = [], DataProxyURL = [], DataDisabled = False,
         StorageJSON = RefreshStorageJSON req, DataMetadata = [], Attributes = [] \<rparr>)"

text \<open>The executor's choice of a model (the loop of \<open>executeNative\<close>).\<close>

definition trimBothSlashes :: "string \<Rightarrow> string" where
  "trimBothSlashes s = trimSlashes (dropWhile (\<lambda>c. c = CHR ''/'') s)"

fun selectModel :: "string \<Rightarrow> nativeModel list \<Rightarrow> string" where
  "selectModel requested [] = []"
| "selectModel requested (m # ms) =
     (if requested = ModelName m \<or> (ModelAlias m \<noteq> [] \<and> requested = ModelAlias m)
      then ModelName m else selectModel requested ms)"

definition requestedModel :: "nativeAuth \<Rightarrow> string \<Rightarrow> string" where
  "requestedModel auth model = TrimPrefix model (trimBothSlashes (AuthPrefix auth) @ ''/'')"

end
