(* ===== verification/Registry.thy ===== *)
theory Registry
  imports Json
begin

section \<open>Running native executions\<close>

text \<open>
  The map \<open>nativeRequests\<close> of plugin/native.go: \<open>nativeContext\<close> and its clean-up closure,
  \<open>cancelNativeRequests\<close> and the case \<open>request.complete\<close>. An execution is a pointer, so it
  is a number here (\<open>nextExec\<close> is the next one to be allocated), and calling its cancel
  function puts it into \<open>cancelled\<close>; the map goes from request ids to executions.

  The functions are the critical sections one after the other, as a caller that is not
  interrupted runs them. The relation \<open>step\<close> takes them apart at the lock: a context is
  created before it is registered, and its clean-up cancels before it takes the lock, so the
  steps of different calls interleave.
\<close>

type_synonym handle = nat

record Registry =
  nativeRequests :: "(string \<times> handle) list"
  nextExec :: handle
  cancelled :: "handle set"

definition emptyRegistry :: Registry where
  "emptyRegistry = \<lparr> nativeRequests = [], nextExec = 0, cancelled = {} \<rparr>"

definition cancelExec :: "handle \<Rightarrow> Registry \<Rightarrow> Registry" where
  "cancelExec h r = r\<lparr> cancelled := insert h (cancelled r) \<rparr>"

text \<open>The locked part of \<open>nativeContext\<close>: an older execution of the id is cancelled.\<close>

definition registerExec :: "string \<Rightarrow> handle \<Rightarrow> Registry \<Rightarrow> Registry" where
  "registerExec i h r =
     (let r1 = (case map_of (nativeRequests r) i of
                  Some prior \<Rightarrow> cancelExec prior r | None \<Rightarrow> r)
      in r1\<lparr> nativeRequests := AList.update i h (nativeRequests r1) \<rparr>)"

definition nativeContext :: "string \<Rightarrow> Registry \<Rightarrow> handle \<times> Registry" where
  "nativeContext i r =
     (let h = nextExec r in (h, registerExec i h (r\<lparr> nextExec := Suc h \<rparr>)))"

text \<open>The locked part of the clean-up closure, and the closure.\<close>

definition releaseExec :: "string \<Rightarrow> handle \<Rightarrow> Registry \<Rightarrow> Registry" where
  "releaseExec i h r =
     (if map_of (nativeRequests r) i = Some h
      then r\<lparr> nativeRequests := AList.delete i (nativeRequests r) \<rparr> else r)"

definition cleanupExec :: "string \<Rightarrow> handle \<Rightarrow> Registry \<Rightarrow> Registry" where
  "cleanupExec i h r = releaseExec i h (cancelExec h r)"

definition completeRequest :: "string \<Rightarrow> Registry \<Rightarrow> Registry" where
  "completeRequest i r =
     (case map_of (nativeRequests r) i of
        Some h \<Rightarrow> (cancelExec h r)\<lparr> nativeRequests := AList.delete i (nativeRequests r) \<rparr>
      | None \<Rightarrow> r)"

text \<open>\<open>for id, execution := range m.nativeRequests { execution.cancel(); delete(...) }\<close>\<close>

definition cancelNativeRequests :: "Registry \<Rightarrow> Registry" where
  "cancelNativeRequests r =
     fold (\<lambda>(i, h) r. (cancelExec h r)\<lparr> nativeRequests := AList.delete i (nativeRequests r) \<rparr>)
       (nativeRequests r) r"

subsection \<open>The operations on the map\<close>

lemma cancelExec_simps [simp]:
  "nativeRequests (cancelExec h r) = nativeRequests r"
  "nextExec (cancelExec h r) = nextExec r"
  "cancelled (cancelExec h r) = insert h (cancelled r)"
  by (simp_all add: cancelExec_def)

lemma registerExec_simps [simp]:
  "nativeRequests (registerExec i h r) = AList.update i h (nativeRequests r)"
  "nextExec (registerExec i h r) = nextExec r"
  "cancelled (registerExec i h r) =
     set_option (map_of (nativeRequests r) i) \<union> cancelled r"
  by (auto simp: registerExec_def Let_def split: option.splits)

lemma releaseExec_simps [simp]:
  "nextExec (releaseExec i h r) = nextExec r"
  "cancelled (releaseExec i h r) = cancelled r"
  by (simp_all add: releaseExec_def)

lemma map_of_releaseExec:
  "map_of (nativeRequests (releaseExec i h r)) j =
     (if j = i \<and> map_of (nativeRequests r) i = Some h then None else map_of (nativeRequests r) j)"
  by (simp add: releaseExec_def delete_conv')

lemma delete_missing: "map_of m k = None \<Longrightarrow> AList.delete k m = m"
  by (simp add: delete_id map_of_eq_None_iff)

lemma completeRequest_simps [simp]:
  "nativeRequests (completeRequest i r) = AList.delete i (nativeRequests r)"
  "nextExec (completeRequest i r) = nextExec r"
  "cancelled (completeRequest i r) = set_option (map_of (nativeRequests r) i) \<union> cancelled r"
  by (simp_all add: completeRequest_def delete_missing split: option.splits)

lemma cancel_loop:
  "fold (\<lambda>(i, h) r. (cancelExec h r)\<lparr> nativeRequests := AList.delete i (nativeRequests r) \<rparr>) m r
     = r\<lparr> nativeRequests := fold AList.delete (map fst m) (nativeRequests r),
          cancelled := snd ` set m \<union> cancelled r \<rparr>"
  by (induction m arbitrary: r) (auto simp: cancelExec_def)

lemma delete_all_keys:
  "set (map fst m) \<subseteq> set ks \<Longrightarrow> fold AList.delete ks m = []"
proof (induction ks arbitrary: m)
  case Nil
  then show ?case by simp
next
  case (Cons k ks)
  have "set (map fst (AList.delete k m)) \<subseteq> set ks"
    using Cons.prems by (auto simp: delete_keys [symmetric] simp del: delete_keys)
      (auto simp: AList.delete_eq)
  then show ?case using Cons.IH by simp
qed

lemma cancelNativeRequests_eq:
  "cancelNativeRequests r =
     r\<lparr> nativeRequests := [], cancelled := snd ` set (nativeRequests r) \<union> cancelled r \<rparr>"
  by (simp add: cancelNativeRequests_def cancel_loop delete_all_keys)

lemma cleanup_after_context:
  "map_of (nativeRequests (cleanupExec i (nextExec r) (snd (nativeContext i r)))) j =
     (if j = i then None else map_of (nativeRequests r) j)"
  by (simp add: cleanupExec_def nativeContext_def Let_def map_of_releaseExec update_conv')

text \<open>A clean-up that comes late leaves the newer execution of the same id alone.\<close>

lemma cleanup_late:
  "map_of (nativeRequests r) i \<noteq> Some h \<Longrightarrow>
     nativeRequests (cleanupExec i h r) = nativeRequests r"
  by (simp add: cleanupExec_def releaseExec_def)

subsection \<open>Interleaved calls\<close>

datatype phase = Created | Running | Cleaning | Finished

text \<open>The phases in the order an execution goes through them.\<close>

fun phaseRank :: "phase \<Rightarrow> nat" where
  "phaseRank Created = 0"
| "phaseRank Running = 1"
| "phaseRank Cleaning = 2"
| "phaseRank Finished = 3"

lemma phaseRank_inj: "phaseRank p = phaseRank q \<Longrightarrow> p = q"
  by (cases p; cases q) simp_all

instantiation phase :: linorder
begin

definition less_eq_phase :: "phase \<Rightarrow> phase \<Rightarrow> bool" where
  "less_eq_phase p q \<longleftrightarrow> phaseRank p \<le> phaseRank q"

definition less_phase :: "phase \<Rightarrow> phase \<Rightarrow> bool" where
  "less_phase p q \<longleftrightarrow> phaseRank p < phaseRank q"

instance
  by standard (auto simp: less_eq_phase_def less_phase_def intro: phaseRank_inj)

end

lemma phase_top [simp]: "p \<le> Finished" "Finished \<le> p \<longleftrightarrow> p = Finished"
  by (cases p; simp add: less_eq_phase_def)+

record execs =
  reg :: Registry
  owner :: "handle \<Rightarrow> string"
  phaseOf :: "handle \<Rightarrow> phase"

definition emptyExecs :: execs where
  "emptyExecs = \<lparr> reg = emptyRegistry, owner = (\<lambda>h. []), phaseOf = (\<lambda>h. Finished) \<rparr>"

definition toPhase :: "handle \<Rightarrow> phase \<Rightarrow> (Registry \<Rightarrow> Registry) \<Rightarrow> execs \<Rightarrow> execs" where
  "toPhase h p f s = s\<lparr> reg := f (reg s), phaseOf := (phaseOf s)(h := p) \<rparr>"

inductive step :: "execs \<Rightarrow> execs \<Rightarrow> bool" where
  create: "h = nextExec (reg s) \<Longrightarrow>
     step s (toPhase h Created (\<lambda>r. r\<lparr> nextExec := Suc h \<rparr>) s\<lparr> owner := (owner s)(h := i) \<rparr>)"
| register: "h < nextExec (reg s) \<Longrightarrow> phaseOf s h = Created \<Longrightarrow>
     step s (toPhase h Running (registerExec (owner s h) h) s)"
| cleanup_cancel: "h < nextExec (reg s) \<Longrightarrow> phaseOf s h = Running \<Longrightarrow>
     step s (toPhase h Cleaning (cancelExec h) s)"
| cleanup_release: "h < nextExec (reg s) \<Longrightarrow> phaseOf s h = Cleaning \<Longrightarrow>
     step s (toPhase h Finished (releaseExec (owner s h) h) s)"
| complete: "step s (s\<lparr> reg := completeRequest i (reg s) \<rparr>)"
| cancel_all: "step s (s\<lparr> reg := cancelNativeRequests (reg s) \<rparr>)"

inductive_cases stepE: "step s s'"

inductive reachable :: "execs \<Rightarrow> bool" where
  start: "reachable emptyExecs"
| advance: "reachable s \<Longrightarrow> step s s' \<Longrightarrow> reachable s'"

lemma toPhase_simps [simp]:
  "reg (toPhase h p f s) = f (reg s)"
  "owner (toPhase h p f s) = owner s"
  "phaseOf (toPhase h p f s) = (phaseOf s)(h := p)"
  by (simp_all add: toPhase_def)

text \<open>
  The invariant: a map entry belongs to an execution of its id that has been registered and
  has not finished; an execution that has been registered and is no longer in the map has
  been cancelled; so has one whose clean-up has begun.
\<close>

definition execs_ok :: "execs \<Rightarrow> bool" where
  "execs_ok s \<longleftrightarrow>
     (\<forall>i h. map_of (nativeRequests (reg s)) i = Some h \<longrightarrow>
        h < nextExec (reg s) \<and> owner s h = i \<and> phaseOf s h \<in> {Running, Cleaning}) \<and>
     (\<forall>h < nextExec (reg s). phaseOf s h = Running \<longrightarrow>
        map_of (nativeRequests (reg s)) (owner s h) = Some h \<or> h \<in> cancelled (reg s)) \<and>
     (\<forall>h < nextExec (reg s). phaseOf s h \<in> {Cleaning, Finished} \<longrightarrow> h \<in> cancelled (reg s))"

lemma execs_okD:
  assumes "execs_ok s"
  shows "map_of (nativeRequests (reg s)) i = Some h \<Longrightarrow>
      h < nextExec (reg s) \<and> owner s h = i \<and> (phaseOf s h = Running \<or> phaseOf s h = Cleaning)"
    and "h < nextExec (reg s) \<Longrightarrow> phaseOf s h = Running \<Longrightarrow>
      map_of (nativeRequests (reg s)) (owner s h) = Some h \<or> h \<in> cancelled (reg s)"
    and "h < nextExec (reg s) \<Longrightarrow> phaseOf s h = Cleaning \<or> phaseOf s h = Finished \<Longrightarrow> h \<in> cancelled (reg s)"
  using assms unfolding execs_ok_def by blast+

lemma in_map_of: "(i, h) \<in> set m \<Longrightarrow> uniqueKeys m \<Longrightarrow> map_of m i = Some h"
  by (simp add: uniqueKeys_def)

lemma step_unique: "step s s' \<Longrightarrow> uniqueKeys (nativeRequests (reg s)) \<Longrightarrow> uniqueKeys (nativeRequests (reg s'))"
  by (erule stepE) (auto simp: releaseExec_def cancelNativeRequests_eq)

lemma execs_okI:
  assumes "\<And>i h. map_of (nativeRequests (reg s)) i = Some h \<Longrightarrow>
      h < nextExec (reg s) \<and> owner s h = i \<and> (phaseOf s h = Running \<or> phaseOf s h = Cleaning)"
    and "\<And>h. h < nextExec (reg s) \<Longrightarrow> phaseOf s h = Running \<Longrightarrow>
      map_of (nativeRequests (reg s)) (owner s h) = Some h \<or> h \<in> cancelled (reg s)"
    and "\<And>h. h < nextExec (reg s) \<Longrightarrow> phaseOf s h = Cleaning \<or> phaseOf s h = Finished \<Longrightarrow>
      h \<in> cancelled (reg s)"
  shows "execs_ok s"
  using assms by (simp add: execs_ok_def)

lemma step_ok:
  assumes "step s s'" "execs_ok s"
  shows "execs_ok s'"
proof -
  note old = execs_okD [OF assms(2)]
  have lt: "map_of (nativeRequests (reg s)) i = Some h \<Longrightarrow> h < nextExec (reg s)" for i h
    using old(1) by blast
  from assms(1) show ?thesis
  proof cases
    case (create h i)
    show ?thesis
      by (rule execs_okI) (auto simp: create less_Suc_eq dest: old(1) lt old(2,3))
  next
    case (register h)
    show ?thesis
    proof (rule execs_okI)
      fix j k
      assume "map_of (nativeRequests (reg s')) j = Some k"
      then show "k < nextExec (reg s') \<and> owner s' k = j \<and>
          (phaseOf s' k = Running \<or> phaseOf s' k = Cleaning)"
        using register old(1) [of j k] by (auto simp: update_conv' split: if_splits)
    next
      fix k
      assume k: "k < nextExec (reg s')" "phaseOf s' k = Running"
      show "map_of (nativeRequests (reg s')) (owner s' k) = Some k \<or> k \<in> cancelled (reg s')"
        using register k old(2) [of k] by (auto simp: update_conv' split: if_splits)
    next
      fix k
      assume "k < nextExec (reg s')" "phaseOf s' k = Cleaning \<or> phaseOf s' k = Finished"
      then show "k \<in> cancelled (reg s')"
        using register old(3) [of k] by (auto split: if_splits)
    qed
  next
    case (cleanup_cancel h)
    show ?thesis
      by (rule execs_okI) (auto simp: cleanup_cancel split: if_splits dest: old)
  next
    case (cleanup_release h)
    show ?thesis
    proof (rule execs_okI)
      fix j k
      assume m: "map_of (nativeRequests (reg s')) j = Some k"
      then have k: "map_of (nativeRequests (reg s)) j = Some k"
        using cleanup_release by (auto simp: map_of_releaseExec split: if_splits)
      moreover have "k \<noteq> h"
        using m cleanup_release old(1) [OF k] by (auto simp: map_of_releaseExec split: if_splits)
      ultimately show "k < nextExec (reg s') \<and> owner s' k = j \<and>
          (phaseOf s' k = Running \<or> phaseOf s' k = Cleaning)"
        using old(1) [OF k] by (simp add: cleanup_release)
    next
      fix k
      assume k: "k < nextExec (reg s')" "phaseOf s' k = Running"
      then have "k \<noteq> h" using cleanup_release by auto
      with k show "map_of (nativeRequests (reg s')) (owner s' k) = Some k \<or> k \<in> cancelled (reg s')"
        using old(2) [of k] by (auto simp: cleanup_release map_of_releaseExec)
    next
      fix k
      assume "k < nextExec (reg s')" "phaseOf s' k = Cleaning \<or> phaseOf s' k = Finished"
      then show "k \<in> cancelled (reg s')"
        using cleanup_release old(3) [of k] old(3) [of h] by (auto split: if_splits)
    qed
  next
    case (complete i)
    show ?thesis
    proof (rule execs_okI)
      fix k
      assume "k < nextExec (reg s')" "phaseOf s' k = Running"
      then show "map_of (nativeRequests (reg s')) (owner s' k) = Some k \<or> k \<in> cancelled (reg s')"
        using old(2) [of k] by (auto simp: complete delete_conv')
    qed (auto simp: complete delete_conv' split: if_splits dest: old)
  next
    case cancel_all
    show ?thesis
    proof (rule execs_okI)
      fix k
      assume "k < nextExec (reg s')" "phaseOf s' k = Running"
      then show "map_of (nativeRequests (reg s')) (owner s' k) = Some k \<or> k \<in> cancelled (reg s')"
        using old(2) [of k] by (auto simp: cancel_all cancelNativeRequests_eq dest!: map_of_SomeD) force
    qed (auto simp: cancel_all cancelNativeRequests_eq dest: old)
  qed
qed

text \<open>An execution only goes forward, and its handle is never given out again.\<close>

lemma step_forward:
  assumes "step s s'" "h < nextExec (reg s)"
  shows "phaseOf s h \<le> phaseOf s' h \<and> h < nextExec (reg s')"
  using assms by cases (auto simp: less_eq_phase_def cancelNativeRequests_eq)

lemma steps_forward:
  assumes "step\<^sup>*\<^sup>* s s'" "h < nextExec (reg s)"
  shows "phaseOf s h \<le> phaseOf s' h \<and> h < nextExec (reg s')"
  using assms
proof (induction rule: rtranclp_induct)
  case base
  then show ?case by simp
next
  case (step s' s'')
  then show ?case using step_forward [OF step.hyps(2)] by (meson order_trans)
qed

lemma reachable_steps: "step\<^sup>*\<^sup>* s s' \<Longrightarrow> reachable s \<Longrightarrow> reachable s'"
  by (induction rule: rtranclp_induct) (auto intro: advance)

lemma reachable_ok: "reachable s \<Longrightarrow> execs_ok s \<and> uniqueKeys (nativeRequests (reg s))"
proof (induction rule: reachable.induct)
  case start
  then show ?case by (simp add: emptyExecs_def emptyRegistry_def execs_ok_def)
next
  case (advance s s')
  then show ?case using step_ok step_unique by blast
qed

end
