(* ===== verification/Sse.thy ===== *)
theory Sse
  imports Json
begin

section \<open>Reading server-sent events\<close>

text \<open>
  \<open>readNativeSSE\<close> of plugin/native_execute.go (lines 202-264). The response body is the text
  it delivers and the error its reader ends with (None at the end of the input); how the
  text is cut into reads does not show, since a \<open>bufio.Scanner\<close> only hands out whole lines.
  The callback \<open>emit\<close> takes a frame, its data and the state of the caller; it returns an
  error or None, and the new state.
\<close>

type_synonym 's emitter = "string \<Rightarrow> string \<Rightarrow> 's \<Rightarrow> string option \<times> 's"

definition maxFrame :: nat where
  "maxFrame = 8 * 1024 * 1024"

abbreviation LF :: char where
  "LF \<equiv> CHR 0x0A"

definition dropCR :: "string \<Rightarrow> string" where
  "dropCR l = (if l \<noteq> [] \<and> last l = CHR 0x0D then butlast l else l)"

subsection \<open>bufio.Scanner with ScanLines\<close>

text \<open>
  A line and its line feed have to fit into the buffer of \<open>maxFrame\<close> bytes.
\<close>

datatype scan = EndOfInput | TooLong | Line string string

definition nextLine :: "string \<Rightarrow> scan" where
  "nextLine s =
     (if s = [] then EndOfInput
      else
        let l = takeWhile (\<lambda>c. c \<noteq> LF) s in
        if length l \<ge> maxFrame then TooLong
        else Line (dropCR l) (drop (Suc (length l)) s))"

lemma nextLine_shorter: "nextLine s = Line l rest \<Longrightarrow> length rest < length s"
  by (cases s) (auto simp: nextLine_def Let_def split: if_splits)

subsection \<open>Events\<close>

record 's sse =
  sseFrame :: string
  sseData :: "string list"
  sseDone :: bool
  sseSink :: 's

definition isDone :: "string \<Rightarrow> bool" where
  "isDone payload \<longleftrightarrow> TrimSpace payload = ''[DONE]''"

definition eventError :: "codec \<Rightarrow> string \<Rightarrow> string option" where
  "eventError J payload =
     (case rawMap J payload of
        None \<Rightarrow> Some ''OpenCode returned an invalid SSE JSON event''
      | Some event \<Rightarrow>
          (case map_of event ''error'' of
             Some raw \<Rightarrow> Some (''OpenCode stream error: '' @ raw)
           | None \<Rightarrow> None))"

definition flushEvent :: "codec \<Rightarrow> 's emitter \<Rightarrow> 's sse \<Rightarrow> string option \<times> 's sse" where
  "flushEvent J emit s =
     (if sseFrame s = [] then (None, s)
      else
        let payload = joinWith [LF] (sseData s);
            raw = sseFrame s;
            s1 = s\<lparr> sseFrame := [], sseData := [] \<rparr>
        in
        if payload = [] then (None, s1)
        else if \<not> isDone payload \<and> eventError J payload \<noteq> None
        then (eventError J payload, s1)
        else
          (case emit raw payload (sseSink s) of
             (err, sink) \<Rightarrow>
               (err, s1\<lparr> sseDone := (if isDone payload then True else sseDone s),
                         sseSink := sink \<rparr>)))"

definition dataLine :: "string \<Rightarrow> string" where
  "dataLine l = TrimPrefix (TrimPrefix l ''data:'') '' ''"

text \<open>One turn of the scanner loop: the error to return, or whether to go on.\<close>

datatype 's turn = Stop "string option" 's | Continue "'s sse"

definition takeLine :: "codec \<Rightarrow> 's emitter \<Rightarrow> string \<Rightarrow> 's sse \<Rightarrow> 's turn" where
  "takeLine J emit l s =
     (if length (sseFrame s) + length l > maxFrame
      then Stop (Some ''OpenCode SSE event exceeds 8 MiB'') (sseSink s)
      else
        let s1 = s\<lparr> sseFrame := sseFrame s @ l @ [LF] \<rparr> in
        if l = [] then
          (case flushEvent J emit s1 of
             (Some err, s2) \<Rightarrow> Stop (Some err) (sseSink s2)
           | (None, s2) \<Rightarrow> if sseDone s2 then Stop None (sseSink s2) else Continue s2)
        else if prefix ''data:'' l
        then Continue (s1\<lparr> sseData := sseData s1 @ [dataLine l] \<rparr>)
        else Continue s1)"

text \<open>What is left to do when the scanner has stopped.\<close>

definition finishScan :: "codec \<Rightarrow> 's emitter \<Rightarrow> string option \<Rightarrow> 's sse \<Rightarrow> string option \<times> 's" where
  "finishScan J emit scanErr s =
     (case scanErr of
        Some err \<Rightarrow> (Some err, sseSink s)
      | None \<Rightarrow>
          (case (if sseFrame s \<noteq> [] then flushEvent J emit (s\<lparr> sseFrame := sseFrame s @ [LF] \<rparr>)
                 else (None, s)) of
             (Some err, s1) \<Rightarrow> (Some err, sseSink s1)
           | (None, s1) \<Rightarrow>
               if \<not> sseDone s1
               then (Some ''OpenCode stream ended before [DONE]'', sseSink s1)
               else (None, sseSink s1)))"

function scanLoop ::
    "codec \<Rightarrow> 's emitter \<Rightarrow> string option \<Rightarrow> string \<Rightarrow> 's sse \<Rightarrow> string option \<times> 's" where
  "scanLoop J emit readErr input s =
     (case nextLine input of
        EndOfInput \<Rightarrow> finishScan J emit readErr s
      | TooLong \<Rightarrow> finishScan J emit (Some ''bufio.Scanner: token too long'') s
      | Line l rest \<Rightarrow>
          (case takeLine J emit l s of
             Stop err sink \<Rightarrow> (err, sink)
           | Continue s' \<Rightarrow> scanLoop J emit readErr rest s'))"
  by pat_completeness auto
termination
  by (relation "measure (\<lambda>(J, emit, readErr, input, s). length input)")
    (auto dest: nextLine_shorter)

declare scanLoop.simps [simp del]

definition readNativeSSE ::
    "codec \<Rightarrow> 's emitter \<Rightarrow> string \<times> string option \<Rightarrow> 's \<Rightarrow> string option \<times> 's" where
  "readNativeSSE J emit body sink =
     scanLoop J emit (snd body) (fst body)
       \<lparr> sseFrame = [], sseData = [], sseDone = False, sseSink = sink \<rparr>"

end
