(* ===== verification/Completion.thy ===== *)
theory Completion
  imports Sse
begin

section \<open>Putting a streamed completion together\<close>

text \<open>
  \<open>nativeCompletion\<close> of plugin/native_execute.go (lines 266-417): the chunks of a Chat
  Completions stream are merged into one response. \<open>choices\<close> is a map from the choice index
  to the choice under construction. A Go map that is reached through another one
  (\<open>out["message"]\<close>, an element of \<open>tool_calls\<close>) is written back here; no two references to
  one such map are ever live in this code. The two type assertions without \<open>ok\<close> panic when
  they fail, and the index into \<open>tools\<close> panics out of range (\<open>goIndex\<close>), so \<open>mergeNativeDelta\<close>
  and \<open>addChoice\<close> return an option and None is the panic.

  \<open>int(n)\<close> of a \<open>float64\<close> beyond 64 bits is left to the implementation by the language; this
  is the result on amd64, the build's default target.
\<close>

record nativeCompletion =
  compRoot :: obj
  compChoices :: "(int \<times> obj) list"
  compSize :: nat

definition newCompletion :: nativeCompletion where
  "newCompletion = \<lparr> compRoot = [], compChoices = [], compSize = 0 \<rparr>"

definition maxCompletion :: nat where
  "maxCompletion = 64 * 1024 * 1024"

definition truncateFloat :: "rat \<Rightarrow> int" where
  "truncateFloat v =
     (let n = (if v \<ge> 0 then \<lfloor>v\<rfloor> else \<lceil>v\<rceil>) in
      if - (2 ^ 63) \<le> n \<and> n < 2 ^ 63 then n else - (2 ^ 63))"

definition nativeIndex :: "json \<Rightarrow> int" where
  "nativeIndex v = (case v of JNum n \<Rightarrow> truncateFloat n | _ \<Rightarrow> 0)"

subsection \<open>Functions and tools\<close>

fun mergeNativeFunction :: "obj \<Rightarrow> obj \<Rightarrow> obj" where
  "mergeNativeFunction dst [] = dst"
| "mergeNativeFunction dst ((key, v) # part) =
     mergeNativeFunction
       (if key = ''arguments''
        then jset key (JStr (strVal (jget dst key) @ strVal v)) dst
        else jset key v dst) part"

fun mergeTool :: "obj \<Rightarrow> obj \<Rightarrow> obj" where
  "mergeTool target [] = target"
| "mergeTool target ((name, v) # tool) =
     mergeTool
       (if name = ''index'' then target
        else if name = ''function''
        then jset name (JObj (mergeNativeFunction (objVal (jget target name)) (objVal v))) target
        else jset name v target) tool"

text \<open>\<open>for len(tools) <= index { tools = append(tools, map[string]any{}) }\<close>\<close>

definition growTools :: "int \<Rightarrow> json list \<Rightarrow> json list" where
  "growTools index tools = tools @ replicate (nat (index + 1) - length tools) (JObj [])"

text \<open>\<open>xs[i]\<close>, None for the panic.\<close>

definition goIndex :: "'a list \<Rightarrow> int \<Rightarrow> 'a option" where
  "goIndex xs i = (if 0 \<le> i \<and> i < int (length xs) then Some (xs ! nat i) else None)"

fun mergeTools :: "json list \<Rightarrow> json list \<Rightarrow> json list option" where
  "mergeTools tools [] = Some tools"
| "mergeTools tools (part # parts) =
     (case part of
        JObj tool \<Rightarrow>
          (let index = nativeIndex (jget tool ''index'') in
           if index < 0 \<or> index > 1024 then mergeTools tools parts
           else
             (let grown = growTools index tools in
              (case goIndex grown index of
                 Some (JObj target) \<Rightarrow>
                   mergeTools (grown[nat index := JObj (mergeTool target tool)]) parts
               | _ \<Rightarrow> None)))
      | _ \<Rightarrow> mergeTools tools parts)"

subsection \<open>Deltas\<close>

definition textKeys :: "string list" where
  "textKeys = [''content'', ''reasoning_content'', ''reasoning'', ''refusal'']"

text \<open>A nil slice is encoded as null.\<close>

definition sliceValue :: "json list \<Rightarrow> json" where
  "sliceValue vs = (if vs = [] then JNull else JArr vs)"

definition mergeKey :: "string \<Rightarrow> json \<Rightarrow> obj \<Rightarrow> obj option" where
  "mergeKey key v dst =
     (if key \<in> set textKeys then
        (case v of
           JStr part \<Rightarrow> Some (jset key (JStr (strVal (jget dst key) @ part)) dst)
         | JNull \<Rightarrow> Some dst
         | _ \<Rightarrow> Some (jset key v dst))
      else if key = ''function_call'' then
        (case v of
           JObj function \<Rightarrow>
             Some (jset key (JObj (mergeNativeFunction (objVal (jget dst key)) function)) dst)
         | _ \<Rightarrow> Some dst)
      else if key = ''tool_calls'' then
        (case mergeTools (arrVal (jget dst key)) (arrVal v) of
           None \<Rightarrow> None
         | Some tools \<Rightarrow> Some (jset key (sliceValue tools) dst))
      else if v \<noteq> JNull then Some (jset key v dst)
      else Some dst)"

fun mergeNativeDelta :: "obj \<Rightarrow> obj \<Rightarrow> obj option" where
  "mergeNativeDelta dst [] = Some dst"
| "mergeNativeDelta dst ((key, v) # delta) =
     (case mergeKey key v dst of None \<Rightarrow> None | Some dst' \<Rightarrow> mergeNativeDelta dst' delta)"

subsection \<open>Chunks\<close>

definition newChoice :: "int \<Rightarrow> obj" where
  "newChoice index =
     [(''index'', JNum (of_int index)),
      (''message'', JObj [(''role'', JStr ''assistant''), (''content'', JStr [])]),
      (''finish_reason'', JNull)]"

fun copyChoice :: "obj \<Rightarrow> obj \<Rightarrow> obj" where
  "copyChoice out [] = out"
| "copyChoice out ((key, v) # choice) =
     copyChoice
       (if key \<noteq> ''delta'' \<and> key \<noteq> ''message'' \<and> v \<noteq> JNull then jset key v out else out) choice"

definition choiceAt :: "int \<Rightarrow> (int \<times> obj) list \<Rightarrow> obj" where
  "choiceAt index choices =
     (case map_of choices index of Some out \<Rightarrow> out | None \<Rightarrow> newChoice index)"

definition addChoice :: "obj \<Rightarrow> (int \<times> obj) list \<Rightarrow> (int \<times> obj) list option" where
  "addChoice choice choices =
     (let index = nativeIndex (jget choice ''index'');
          out = copyChoice (choiceAt index choices) choice in
      case jget choice ''delta'' of
        JObj delta \<Rightarrow>
          (case jget out ''message'' of
             JObj message \<Rightarrow>
               (case mergeNativeDelta message delta of
                  None \<Rightarrow> None
                | Some message' \<Rightarrow>
                    Some (AList.update index (jset ''message'' (JObj message') out) choices))
           | _ \<Rightarrow> None)
      | _ \<Rightarrow> Some (AList.update index out choices))"

fun addChoices :: "json list \<Rightarrow> (int \<times> obj) list \<Rightarrow> (int \<times> obj) list option" where
  "addChoices [] choices = Some choices"
| "addChoices (item # items) choices =
     (case item of
        JObj choice \<Rightarrow>
          (case addChoice choice choices of
             None \<Rightarrow> None | Some choices' \<Rightarrow> addChoices items choices')
      | _ \<Rightarrow> addChoices items choices)"

fun copyRoot :: "obj \<Rightarrow> obj \<Rightarrow> obj" where
  "copyRoot dst [] = dst"
| "copyRoot dst ((key, v) # chunk) =
     copyRoot (if key \<noteq> ''choices'' \<and> key \<noteq> ''object'' then jset key v dst else dst) chunk"

definition addChunk :: "obj \<Rightarrow> nativeCompletion \<Rightarrow> nativeCompletion option" where
  "addChunk chunk c =
     (case addChoices (arrVal (jget chunk ''choices'')) (compChoices c) of
        None \<Rightarrow> None
      | Some choices \<Rightarrow>
          Some (c\<lparr> compRoot := copyRoot (compRoot c) chunk, compChoices := choices \<rparr>))"

text \<open>What \<open>add\<close> comes to: it returns nil, or an error, or it panics.\<close>

datatype added = Added nativeCompletion | AddError string | Panic

definition addData :: "codec \<Rightarrow> string \<Rightarrow> nativeCompletion \<Rightarrow> added" where
  "addData J data c =
     (if isDone data then Added c
      else
        let c1 = c\<lparr> compSize := compSize c + length data \<rparr> in
        if compSize c1 > maxCompletion then AddError ''OpenCode completion exceeds 64 MiB''
        else
          (case unmarshalMap J data of
             DecodeError \<Rightarrow> AddError (decodeErr J data)
           | NilMap \<Rightarrow> (case addChunk [] c1 of None \<Rightarrow> Panic | Some c2 \<Rightarrow> Added c2)
           | Root chunk \<Rightarrow> (case addChunk chunk c1 of None \<Rightarrow> Panic | Some c2 \<Rightarrow> Added c2)))"

subsection \<open>The result\<close>

definition sortedChoices :: "(int \<times> obj) list \<Rightarrow> json list" where
  "sortedChoices choices =
     map (\<lambda>index. JObj (choiceAt index choices)) (sort (map fst choices))"

definition resultRoot :: "nativeCompletion \<Rightarrow> obj" where
  "resultRoot c =
     jset ''object'' (JStr ''chat.completion'')
       (jset ''choices'' (JArr (sortedChoices (compChoices c))) (compRoot c))"

definition completionResult :: "codec \<Rightarrow> nativeCompletion \<Rightarrow> string + string" where
  "completionResult J c =
     (if compChoices c = [] then Inl ''OpenCode completion contains no choices''
      else
        (case marshal J (JObj (resultRoot c)) of
           None \<Rightarrow> Inl (marshalErr J)
         | Some out \<Rightarrow> Inr out))"

end
