(* ===== verification/Logging.thy ===== *)
theory Logging
  imports Useragent Types Sessions
begin

section \<open>Host logging and the setup warning\<close>

text \<open>
  plugin/logging.go and the glue warning of plugin/fingerprint.go (lines 128-197). What
  the code keeps of the host is a \<open>Host\<close> record: the callback, if one is installed, the flag
  \<open>hostLogEnabled\<close> and the payloads sent by \<open>host.log\<close> so far, oldest first. The code ignores the
  bytes and the error the callback answers, but the callback can panic (\<open>hostCall\<close> of main.go does
  on some answers). It is given by the payloads up to and with the one it is called with, and says
  whether it returns; \<open>hostPanicked\<close> is set when it did not. A panic ends the call and, as nothing
  recovers from it, the process, so the other values computed after it are of no account.
\<close>

type_synonym hostCaller = "json list \<Rightarrow> bool"

record Host =
  hostCallFn :: "hostCaller option"
  hostLogEnabled :: bool
  hostLog :: "json list"
  hostPanicked :: bool

definition SetHostCaller :: "hostCaller option \<Rightarrow> Host \<Rightarrow> Host" where
  "SetHostCaller fn h = h\<lparr> hostCallFn := fn \<rparr>"

definition SetLogEnabled :: "bool \<Rightarrow> Host \<Rightarrow> Host" where
  "SetLogEnabled enabled h = h\<lparr> hostLogEnabled := enabled \<rparr>"

definition applyLoggingConfig :: "Config \<Rightarrow> Host \<Rightarrow> Host" where
  "applyLoggingConfig cfg =
     SetLogEnabled (BoolVal (LogEnabled (CLogging cfg)) DefaultLogEnabled)"

definition logToHostAlways :: "string \<Rightarrow> string \<Rightarrow> json \<Rightarrow> Host \<Rightarrow> Host" where
  "logToHostAlways level message flds h =
     (case hostCallFn h of
        None \<Rightarrow> h
      | Some fn \<Rightarrow>
          let sent = hostLog h @
                [JObj [(''level'', JStr level), (''message'', JStr message), (''fields'', flds)]]
          in h\<lparr> hostLog := sent, hostPanicked := hostPanicked h \<or> \<not> fn sent \<rparr>)"

definition logToHost :: "string \<Rightarrow> string \<Rightarrow> json \<Rightarrow> Host \<Rightarrow> Host" where
  "logToHost level message flds h =
     (if \<not> hostLogEnabled h then h else logToHostAlways level message flds h)"

type_synonym logvals = "(string \<times> string) list"

definition kvPart :: "logvals \<Rightarrow> string \<Rightarrow> string list" where
  "kvPart values k =
     (case map_of values k of
        Some v \<Rightarrow> if TrimSpace v = [] then [] else [k @ ''='' @ TrimSpace v]
      | None \<Rightarrow> [])"

definition kv :: "logvals \<Rightarrow> string" where
  "kv values = joinWith '' '' (concat (map (kvPart values) (sort (map fst values))))"

definition FormatBool :: "bool \<Rightarrow> string" where
  "FormatBool b = (if b then ''true'' else ''false'')"

definition interceptDetails :: "RequestInterceptRequest \<Rightarrow> logvals \<Rightarrow> bool \<Rightarrow> logvals" where
  "interceptDetails req values bodyChanged =
     (let details =
        (case map_of values ''session'' of
           Some v \<Rightarrow> if v = [] then AList.update ''session'' ''(none)'' values else values
         | None \<Rightarrow> AList.update ''session'' ''(none)'' values);
        details = AList.update ''body_shaped'' (FormatBool bodyChanged) details
      in AList.update ''auth'' (metadataString (ReqMetadata req) ''selected_auth_id'') details)"

definition modelField :: "RequestInterceptRequest \<Rightarrow> json" where
  "modelField req = JObj [(''model'', JStr (TrimSpace (Model req)))]"

definition logIntercept ::
    "RequestInterceptRequest \<Rightarrow> logvals \<Rightarrow> bool \<Rightarrow> Host \<Rightarrow> Host" where
  "logIntercept req values bodyChanged =
     logToHost ''info''
       (''opencode-enhancer: shaped '' @ kv (interceptDetails req values bodyChanged))
       (modelField req)"

definition logSkip :: "RequestInterceptRequest \<Rightarrow> Host \<Rightarrow> Host" where
  "logSkip req =
     logToHost ''debug'' ''opencode-enhancer: not targeted, passthrough'' (modelField req)"

subsection \<open>The header glue\<close>

text \<open>
  One entry is \<open>declared: "$reference"\<close>; the pairs come first and \<open>glueLine\<close> prints them.
\<close>

definition glueEntries :: "Config \<Rightarrow> (string \<times> string) list" where
  "glueEntries cfg =
     (let ua = outboundUAHeader cfg;
          trimmed = TrimSpace (HeaderName (CSession cfg));
          session = (if trimmed = [] then DefaultSessionHeaderName else trimmed);
          glue =
            [(''User-Agent'', ua),
             (''X-Opencode-Session'', ''X-Opencode-Session''),
             (HeaderOpenCodeSessionID, HeaderOpenCodeSessionID),
             (''X-Session-Affinity'', ''X-Session-Affinity''),
             (''X-Session-Id'', ''X-Session-Id''),
             (DefaultIdentityHeader, DefaultIdentityHeader),
             (HeaderOpenCodeProject, HeaderOpenCodeProject),
             (''B3'', ''B3''),
             (''Traceparent'', ''Traceparent''),
             (''Accept'', ''Accept'')]
      in
      if \<not> EqualFold session ''X-Opencode-Session''
      then glue @ [(CanonicalHeaderKey session, CanonicalHeaderKey session)]
      else glue)"

definition glueLine :: "string \<times> string \<Rightarrow> string" where
  "glueLine entry =
     fst entry @ '': '' @ [CHR 0x22, CHR 0x24] @ snd entry @ [CHR 0x22]"

definition requiredGlueHeaders :: "Config \<Rightarrow> string list" where
  "requiredGlueHeaders cfg = map glueLine (glueEntries cfg)"

definition glueWarning :: "string \<Rightarrow> Config \<Rightarrow> string" where
  "glueWarning key cfg =
     ''opencode-enhancer: free-tier fingerprint active for auth='' @ key @
     '' '' @ [CHR 0xE2, CHR 0x80, CHR 0x94] @
     '' this credential'' @ [CHR 0x27] @ ''s headers: map MUST declare all of: '' @
     joinWith '', '' (requiredGlueHeaders cfg) @
     ''. Undeclared headers are dropped by the executor and upstream answers'' @
     '' 403 FreeTierError. Silence with fingerprint.warn_missing_glue: false.''"

definition warnKey :: "string \<Rightarrow> string" where
  "warnKey authID = (let key = TrimSpace authID in if key = [] then ''(unknown auth)'' else key)"

definition warnGlueRequirement ::
    "string \<Rightarrow> Config \<Rightarrow> string set \<times> Host \<Rightarrow> string set \<times> Host" where
  "warnGlueRequirement authID cfg = (\<lambda>(warnedAuths, h).
     if \<not> BoolVal (WarnMissingGlue (CFingerprint cfg)) DefaultFingerprintWarnGlue
     then (warnedAuths, h)
     else
       let key = warnKey authID in
       if key \<in> warnedAuths then (warnedAuths, h)
       else
         (insert key warnedAuths, logToHostAlways ''warn'' (glueWarning key cfg) JNull h))"

subsection \<open>Lemmas\<close>

lemma logToHost_quiet: "\<not> hostLogEnabled h \<or> hostCallFn h = None \<Longrightarrow> logToHost level message flds h = h"
  by (auto simp: logToHost_def logToHostAlways_def)

lemma logIntercept_quiet: "\<not> hostLogEnabled h \<Longrightarrow> logIntercept req values c h = h"
  by (simp add: logIntercept_def logToHost_quiet)

lemma logSkip_quiet: "\<not> hostLogEnabled h \<Longrightarrow> logSkip req h = h"
  by (simp add: logSkip_def logToHost_quiet)

lemma host_flags_kept [simp]:
  "hostCallFn (logToHost l m f h) = hostCallFn h"
  "hostLogEnabled (logToHost l m f h) = hostLogEnabled h"
  "hostCallFn (logToHostAlways l m f h) = hostCallFn h"
  "hostLogEnabled (logToHostAlways l m f h) = hostLogEnabled h"
  "hostCallFn (logIntercept req values c h) = hostCallFn h"
  "hostLogEnabled (logIntercept req values c h) = hostLogEnabled h"
  "hostCallFn (logSkip req h) = hostCallFn h"
  "hostLogEnabled (logSkip req h) = hostLogEnabled h"
  by (simp_all add: logToHost_def logToHostAlways_def logIntercept_def logSkip_def Let_def
      split: option.split)

text \<open>A callback that has returned so far and always will.\<close>

definition callbackOK :: "Host \<Rightarrow> bool" where
  "callbackOK h \<longleftrightarrow> \<not> hostPanicked h \<and> (\<forall>fn sent. hostCallFn h = Some fn \<longrightarrow> fn sent)"

lemma callbackOK_kept [simp]:
  assumes "callbackOK h"
  shows "callbackOK (logToHostAlways l m f h)" "callbackOK (logToHost l m f h)"
    "callbackOK (logIntercept req values c h)" "callbackOK (logSkip req h)"
    "callbackOK (SetLogEnabled b h)"
proof -
  show always: "callbackOK (logToHostAlways l m f h)" for l m f
    using assms by (auto simp: callbackOK_def logToHostAlways_def Let_def split: option.split)
  then show "callbackOK (logToHost l m f h)" for l m f using assms by (simp add: logToHost_def)
  then show "callbackOK (logIntercept req values c h)" "callbackOK (logSkip req h)"
    by (simp_all only: logIntercept_def logSkip_def)
  show "callbackOK (SetLogEnabled b h)" using assms by (auto simp: callbackOK_def SetLogEnabled_def)
qed

text \<open>The line does not depend on the order in which the map is traversed.\<close>

lemma kv_order:
  assumes "uniqueKeys values" "mset values = mset values'"
  shows "kv values = kv values'"
proof -
  have d: "distinct (map fst values)" "distinct (map fst values')"
    using assms mset_eq_imp_distinct_iff [of "map fst values" "map fst values'"]
    by (simp_all add: uniqueKeys_def)
  have "map_of values = map_of values'"
    using map_of_inject_set [OF d] mset_eq_setD [OF assms(2)] by simp
  moreover have "sort (map fst values) = sort (map fst values')"
    using assms(2) by (metis mset_map sorted_list_of_multiset_mset)
  ultimately show ?thesis by (simp add: kv_def kvPart_def [abs_def])
qed

text \<open>Warning twice for one credential prints once.\<close>

lemma warnGlueRequirement_once:
  "warnKey a = warnKey a' \<Longrightarrow>
     warnGlueRequirement a' cfg (warnGlueRequirement a cfg s) = warnGlueRequirement a cfg s"
  by (cases s) (auto simp: warnGlueRequirement_def Let_def)

lemma warnGlueRequirement_flags [simp]:
  "callbackOK (snd s) \<Longrightarrow> callbackOK (snd (warnGlueRequirement a cfg s))"
  "hostCallFn (snd (warnGlueRequirement a cfg s)) = hostCallFn (snd s)"
  "hostLogEnabled (snd (warnGlueRequirement a cfg s)) = hostLogEnabled (snd s)"
  by (cases s; simp add: warnGlueRequirement_def Let_def)+

end
