(* ===== verification/Execute.thy ===== *)
theory Execute
  imports Body Sessions Auth Registry Completion Logging
begin

section \<open>The native executor\<close>

text \<open>
  \<open>executeNative\<close> of plugin/native_execute.go with its helpers, and \<open>nativeHostCall\<close> of
  plugin/native.go. The \<open>Manager\<close> record holds what the struct of plugin/plugin.go holds
  (the HTTP client constructor is in \<open>net\<close>). What the code asks of \<open>net/http\<close> and \<open>net/url\<close>
  is the record \<open>net\<close>: a client is built for a proxy and maps a request to an error or a
  response; a response body is its text and the error it ends with. Of the executor request
  the record keeps the fields the code reads.

  \<open>executeNative\<close> returns the reply and the new manager; a streaming reply carries the job
  that the goroutine it starts goes on with (\<open>runStream\<close>). A failed type assertion is None.
  The two readings of clock and randomness in one call are \<open>e\<close> and \<open>e2\<close>.
\<close>

record Manager =
  mcfg :: Config
  warnedAuths :: "string set"
  sessionIDs :: session_cache
  registry :: Registry

record httpRequest =
  UpURL :: string
  UpHeaders :: header
  UpBody :: string
  UpContext :: handle

record httpResponse =
  StatusCode :: int
  RspHeader :: header
  RspBody :: "string \<times> string option"

record net =
  urlParse :: "string \<Rightarrow> url option"
  proxyFromEnvironment :: "string \<Rightarrow> string + string option"
  nativeClient :: "string \<Rightarrow> string + (httpRequest \<Rightarrow> string + httpResponse)"
  statusText :: "int \<Rightarrow> string"
  secondsUntil :: "string \<Rightarrow> int option"

record nativeExecutorRequest =
  ExAuthProvider :: string
  ExModel :: string
  ExSourceFormat :: string
  ExHeaders :: header
  ExPayload :: string
  ExStorageJSON :: string
  ExMetadata :: obj
  ExAuthAttributes :: "(string \<times> string) list"
  ExStreamID :: string

record streamJob =
  JobID :: string
  JobHandle :: handle
  JobBody :: "string \<times> string option"
  JobStream :: string
  JobSource :: string
  JobKey :: string

datatype execReply = Completed string header | Streaming header streamJob

subsection \<open>Small helpers\<close>

definition redactNativeError :: "string \<Rightarrow> string \<Rightarrow> string" where
  "redactNativeError message key =
     (if key \<noteq> [] then ReplaceAll key ''[redacted]'' message else message)"

definition nativeProxyURL :: "net \<Rightarrow> nativeAuth \<Rightarrow> string + string" where
  "nativeProxyURL nt auth =
     (let selected = normalizeNativeProxy (ProxyURL auth) in
      if selected \<noteq> [] then Inr selected
      else
        (case proxyFromEnvironment nt (BaseURL auth) of
           Inl err \<Rightarrow> Inl err
         | Inr (Some u) \<Rightarrow> Inr u
         | Inr None \<Rightarrow> Inr []))"

definition droppedRequestHeaders :: "string list" where
  "droppedRequestHeaders =
     [''Host'', ''Content-Length'', ''Transfer-Encoding'', ''Proxy-Authorization'',
      ''Proxy-Connection'', ''Connection'', ''Keep-Alive'', ''Trailer'', ''Upgrade'']"

definition droppedResponseHeaders :: "string list" where
  "droppedResponseHeaders =
     [''Content-Length'', ''Content-Encoding'', ''Transfer-Encoding'', ''Connection'',
      ''Keep-Alive'', ''Trailer'', ''Upgrade'']"

definition nativeResponseHeaders :: "header \<Rightarrow> header" where
  "nativeResponseHeaders hs = fold headerDel droppedResponseHeaders hs"

text \<open>\<open>strconv.Atoi\<close> without its error: a value out of range is the nearest \<open>int\<close>.\<close>

definition digitVal :: "char \<Rightarrow> int" where
  "digitVal c = of_char c - 48"

definition isDigit :: "char \<Rightarrow> bool" where
  "isDigit c \<longleftrightarrow> 48 \<le> (of_char c :: nat) \<and> (of_char c :: nat) \<le> 57"

definition Atoi :: "string \<Rightarrow> int" where
  "Atoi s =
     (let neg = (s \<noteq> [] \<and> hd s = CHR ''-'');
          ds = (if s \<noteq> [] \<and> hd s \<in> set [CHR ''-'', CHR ''+''] then tl s else s) in
      if ds = [] \<or> \<not> list_all isDigit ds then 0
      else
        let n = foldl (\<lambda>n c. 10 * n + digitVal c) 0 ds in
        if neg then max (- (2 ^ 63)) (- n) else min (2 ^ 63 - 1) n)"

definition retrySeconds :: "net \<Rightarrow> string \<Rightarrow> int" where
  "retrySeconds nt retry =
     (let seconds = max 0 (Atoi (TrimSpace retry)) in
      if seconds = 0 then (case secondsUntil nt retry of Some n \<Rightarrow> max 0 n | None \<Rightarrow> 0)
      else seconds)"

definition nativeUpstreamError :: "net \<Rightarrow> int \<Rightarrow> string \<Rightarrow> string \<Rightarrow> 'r envelope" where
  "nativeUpstreamError nt status message retry =
     ErrEnv \<lparr> ErrCode = ''upstream_error'', ErrMessage = message, HTTPStatus = status,
       RetryAfterSeconds = retrySeconds nt retry \<rparr>"

subsection \<open>Host calls\<close>

text \<open>
  The two host methods the executor calls, with the members of the request. The host answers
  with an error, or with an envelope, of which the code reads \<open>ok\<close> and the error message. (A
  callback that panics here ends the process; what is modelled are the calls that return.)
\<close>

datatype hostRequest =
    StreamEmit string string
  | StreamClose string "EnvelopeError option"

datatype hostAnswer = HostError string | HostEnvelope bool "string option"

type_synonym 'w host = "(hostRequest \<Rightarrow> 'w \<Rightarrow> hostAnswer \<times> 'w) option"

definition nativeHostCall :: "'w host \<Rightarrow> hostRequest \<Rightarrow> 'w \<Rightarrow> string option \<times> 'w" where
  "nativeHostCall fn request w =
     (case fn of
        None \<Rightarrow> (Some ''host callback is unavailable'', w)
      | Some f \<Rightarrow>
          (case f request w of
             (HostError err, w') \<Rightarrow> (Some err, w')
           | (HostEnvelope ok msg, w') \<Rightarrow>
               if ok then (None, w')
               else (case msg of
                       Some m \<Rightarrow> (Some m, w') | None \<Rightarrow> (Some ''host callback failed'', w'))))"

subsection \<open>The upstream request\<close>

text \<open>The request body before fingerprinting; None is a failed \<open>json.Marshal\<close>.\<close>

definition streamOptions :: "obj \<Rightarrow> obj" where
  "streamOptions doc =
     jset ''include_usage'' (JBool True) (objVal (jget doc ''stream_options''))"

definition nativeBody :: "string \<Rightarrow> obj \<Rightarrow> obj" where
  "nativeBody model doc =
     (let doc = jset ''model'' (JStr model) doc;
          doc = jset ''stream'' (JBool True) doc
      in jset ''stream_options'' (JObj (streamOptions doc)) doc)"

text \<open>The credential's own headers; \<open>$Name\<close> takes the value of the incoming header.\<close>

fun customHeaders :: "header \<Rightarrow> (string \<times> string) list \<Rightarrow> header \<Rightarrow> header" where
  "customHeaders incoming [] hs = hs"
| "customHeaders incoming ((name, v) # own) hs =
     (let v' = (if prefix ''$'' v then headerGet incoming (TrimPrefix v ''$'') else v) in
      if prefix ''$'' v \<and> v' = [] then customHeaders incoming own hs
      else customHeaders incoming own (headerSet name v' hs))"

definition credentialHeaders :: "header \<Rightarrow> nativeAuth \<Rightarrow> header" where
  "credentialHeaders incoming auth =
     headerSet ''Authorization'' (''Bearer '' @ TrimSpace (APIKey auth))
       (headerSet ''Content-Type'' ''application/json''
         (customHeaders incoming (AuthHeaders auth) []))"

definition nativeHeaders :: "env \<Rightarrow> Config \<Rightarrow> header \<Rightarrow> nativeAuth \<Rightarrow> string \<Rightarrow> header" where
  "nativeHeaders e cfg incoming auth session =
     (let fp = CFingerprint cfg;
          hs = credentialHeaders incoming auth;
          project = fingerprintValue (FpProject fp) (headerGet incoming HeaderOpenCodeProject);
          project = fingerprintValue project (headerFirst hs HeaderOpenCodeProject);
          hs = headerMerge (opencodeHeaders e session project) hs;
          hs = headerSet ''User-Agent'' (fingerprintValue (FpUserAgent fp) DefaultFingerprintUA) hs;
          hs = headerSet ''Accept'' (fingerprintValue (FpAccept fp) DefaultFingerprintAccept) hs;
          hs = headerSet DefaultIdentityHeader
                 (fingerprintValue (FpClient fp) DefaultFingerprintClient) hs;
          hs = headerSet (HeaderName (CSession cfg)) session hs
      in fold headerDel
           ([''X-Opencode-Request'', nativeExecutionIDHeader, nativeSourceFormatHeader]
             @ droppedRequestHeaders) hs)"

text \<open>The session of an execution and the cache after it.\<close>

definition nativeIdentity ::
    "codec \<Rightarrow> env \<Rightarrow> Config \<Rightarrow> nativeExecutorRequest \<Rightarrow> session_cache \<Rightarrow> string \<times> session_cache" where
  "nativeIdentity J e cfg req cache =
     (let found = resolveSessionID J
            \<lparr> RequestID = [], SourceFormat = ''openai'', ToFormat = [], Model = [],
              RequestedModel = [], ReqHeaders = ExHeaders req, ReqBody = ExPayload req,
              ReqMetadata = ExMetadata req \<rparr> cfg (HeaderName (CSession cfg));
          v = (case found of Some res \<Rightarrow> Value res | None \<Rightarrow> newRequestID e)
      in if \<not> isOpenCodeSessionID v then shapeSessionID e v cache else (v, cache))"

subsection \<open>The stream\<close>

definition chunkSources :: "string list" where
  "chunkSources =
     [[], ''openai'', ''chat-completions'', ''openai-chat-completions'', ''openai_chat_completions'']"

definition streamEmit :: "'w host \<Rightarrow> streamJob \<Rightarrow> 'w emitter" where
  "streamEmit fn job frame data w =
     (if isDone data then (None, w)
      else
        nativeHostCall fn
          (StreamEmit (JobStream job)
            (if JobSource job \<in> set chunkSources then data else frame)) w)"

text \<open>The goroutine: forward the events, close the stream, release the execution.\<close>

definition runStream ::
    "codec \<Rightarrow> 'w host \<Rightarrow> streamJob \<Rightarrow> Manager \<Rightarrow> 'w \<Rightarrow> Manager \<times> 'w" where
  "runStream J fn job m w =
     (case readNativeSSE J (streamEmit fn job) (JobBody job) w of
        (err, w1) \<Rightarrow>
          let detail = map_option (\<lambda>msg.
                \<lparr> ErrCode = ''upstream_error'', ErrMessage = redactNativeError msg (JobKey job),
                  HTTPStatus = 502, RetryAfterSeconds = 0 \<rparr>) err;
              w2 = snd (nativeHostCall fn (StreamClose (JobStream job) detail) w1)
          in (m\<lparr> registry := cleanupExec (JobID job) (JobHandle job) (registry m) \<rparr>, w2))"

text \<open>The callback of the other path: \<open>completion.add\<close>, a panic ends the call.\<close>

definition completionEmit :: "codec \<Rightarrow> added emitter" where
  "completionEmit J frame data st =
     (case st of
        Added c \<Rightarrow>
          (case addData J data c of
             Added c' \<Rightarrow> (None, Added c')
           | AddError err \<Rightarrow> (Some err, AddError err)
           | Panic \<Rightarrow> (Some [], Panic))
      | _ \<Rightarrow> (None, st))"

definition collectCompletion ::
    "codec \<Rightarrow> string \<Rightarrow> httpResponse \<Rightarrow> execReply envelope option" where
  "collectCompletion J key rsp =
     (case readNativeSSE J (completionEmit J) (RspBody rsp) (Added newCompletion) of
        (_, Panic) \<Rightarrow> None
      | (Some err, _) \<Rightarrow> Some (nativeError ''upstream_error'' (redactNativeError err key) 502)
      | (None, Added c) \<Rightarrow>
          (case completionResult J c of
             Inl err \<Rightarrow> Some (nativeError ''upstream_error'' err 502)
           | Inr data \<Rightarrow>
               Some (OKEnvelope (Completed data
                 (headerSet ''Content-Type'' ''application/json''
                   (nativeResponseHeaders (RspHeader rsp))))))
      | (None, AddError err) \<Rightarrow> Some (nativeError ''upstream_error'' err 502))"

subsection \<open>executeNative\<close>

text \<open>From the upstream response to the reply; every branch but the stream releases.\<close>

definition handleResponse ::
    "codec \<Rightarrow> net \<Rightarrow> nativeAuth \<Rightarrow> nativeExecutorRequest \<Rightarrow> bool \<Rightarrow> string \<Rightarrow> handle \<Rightarrow>
     Manager \<Rightarrow> httpResponse \<Rightarrow> execReply envelope option \<times> Manager" where
  "handleResponse J nt auth req stream i h m rsp =
     (let m' = m\<lparr> registry := cleanupExec i h (registry m) \<rparr>;
          key = APIKey auth in
      if StatusCode rsp < 200 \<or> StatusCode rsp \<ge> 300 then
        (let detail = TrimSpace (take (1024 * 1024) (fst (RspBody rsp)));
             detail = (if detail = [] then statusText nt (StatusCode rsp) else detail)
         in (Some (nativeUpstreamError nt (StatusCode rsp) (redactNativeError detail key)
               (headerFirst (RspHeader rsp) ''Retry-After'')), m'))
      else if \<not> sublist ''text/event-stream'' (ToLower (headerFirst (RspHeader rsp) ''Content-Type''))
      then (Some (nativeError ''upstream_error''
              ''OpenCode returned a non-streaming response'' 502), m')
      else if stream then
        (let given = ToLower (headerGet (ExHeaders req) nativeSourceFormatHeader);
             source = (if given = [] then ToLower (ExSourceFormat req) else given)
         in (Some (OKEnvelope (Streaming (nativeResponseHeaders (RspHeader rsp))
               \<lparr> JobID = i, JobHandle = h, JobBody = RspBody rsp, JobStream = ExStreamID req,
                 JobSource = source, JobKey = key \<rparr>)), m))
      else (collectCompletion J key rsp, m'))"

text \<open>From the finished request to the upstream: proxy, registration, the call.\<close>

definition sendUpstream ::
    "codec \<Rightarrow> net \<Rightarrow> env \<Rightarrow> nativeAuth \<Rightarrow> nativeExecutorRequest \<Rightarrow> bool \<Rightarrow> string \<Rightarrow> header \<Rightarrow>
     Manager \<Rightarrow> execReply envelope option \<times> Manager" where
  "sendUpstream J nt e2 auth req stream body hs m =
     (case nativeProxyURL nt auth of
        Inl _ \<Rightarrow> (Some (nativeError ''proxy_error'' ''invalid OpenCode proxy configuration'' 400), m)
      | Inr proxy \<Rightarrow>
          (let given = headerGet (ExHeaders req) nativeExecutionIDHeader;
               i = (if given = [] then newRequestID e2 else given) in
           case nativeContext i (registry m) of (h, r) \<Rightarrow>
             (let m1 = m\<lparr> registry := r \<rparr>;
                  m2 = m1\<lparr> registry := cleanupExec i h r \<rparr> in
              case nativeClient nt proxy of
                Inl _ \<Rightarrow>
                  (Some (nativeError ''proxy_error'' ''invalid OpenCode proxy configuration'' 400), m2)
              | Inr client \<Rightarrow>
                  if urlParse nt (BaseURL auth @ ''/chat/completions'') = None
                  then (Some (nativeError ''invalid_request'' ''invalid OpenCode request'' 400), m2)
                  else
                    (case client \<lparr> UpURL = BaseURL auth @ ''/chat/completions'', UpHeaders = hs,
                         UpBody = body, UpContext = h \<rparr> of
                       Inl err \<Rightarrow>
                         (Some (nativeError ''upstream_error''
                            (''OpenCode request failed: '' @ redactNativeError err (APIKey auth)) 502), m2)
                     | Inr rsp \<Rightarrow> handleResponse J nt auth req stream i h m1 rsp))))"

definition effectiveAuth :: "nativeExecutorRequest \<Rightarrow> nativeAuth \<Rightarrow> nativeAuth" where
  "effectiveAuth req auth =
     (if ProxyURL auth = []
      then auth\<lparr> ProxyURL := (case map_of (ExAuthAttributes req) ''proxy_url'' of
             Some p \<Rightarrow> p | None \<Rightarrow> []) \<rparr>
      else auth)"

definition executeNative ::
    "codec \<Rightarrow> net \<Rightarrow> env \<Rightarrow> env \<Rightarrow> nativeExecutorRequest \<Rightarrow> bool \<Rightarrow> Manager \<Rightarrow>
     execReply envelope option \<times> Manager" where
  "executeNative J nt e e2 req stream m =
     (let cfg = mcfg m in
      if ExAuthProvider req \<noteq> PluginID then
        (Some (nativeError ''invalid_auth'' ''selected credential is not an OpenCode plugin auth'' 400), m)
      else
        (case decodeNativeAuth J (urlParse nt) cfg (ExStorageJSON req) of
           Inl err \<Rightarrow> (Some (nativeError ''invalid_auth'' err 400), m)
         | Inr decoded \<Rightarrow>
             (let auth = effectiveAuth req decoded;
                  model = selectModel (requestedModel auth (ExModel req)) (AuthModels auth) in
              if model = [] then
                (Some (nativeError ''invalid_model''
                   ''model is not selected for this OpenCode credential'' 400), m)
              else if stream \<and> ExStreamID req = [] then
                (Some (nativeError ''invalid_request'' ''stream_id is required'' 400), m)
              else
                (case unmarshalMap J (ExPayload req) of
                   Root doc \<Rightarrow>
                     (case marshal J (JObj (nativeBody model doc)) of
                        None \<Rightarrow>
                          (Some (nativeError ''invalid_request''
                             ''invalid Chat Completions request body'' 400), m)
                      | Some raw \<Rightarrow>
                          (let body = fst (applyFingerprintBody e J raw (CFingerprint cfg)
                                 ''openai'' ''openai'') in
                           case nativeIdentity J e cfg req (sessionIDs m) of (session, cache) \<Rightarrow>
                             sendUpstream J nt e2 auth req stream body
                               (nativeHeaders e cfg (ExHeaders req) auth session)
                               (m\<lparr> sessionIDs := cache \<rparr>)))
                 | _ \<Rightarrow>
                     (Some (nativeError ''invalid_request''
                        ''invalid Chat Completions request body'' 400), m)))))"

end
