(* ===== verification/Auth_Props.thy ===== *)
theory Auth_Props
  imports Auth
begin

section \<open>Properties of native credentials\<close>

text \<open>
  What a credential that \<open>decodeNativeAuth\<close> accepts looks like, that an id never stands for
  two models, and that the ids \<open>model.for_auth\<close> publishes are those the executor resolves.
\<close>

subsection \<open>Models\<close>

definition answersTo :: "nativeModel \<Rightarrow> string \<Rightarrow> bool" where
  "answersTo m i \<longleftrightarrow> i = ModelName m \<or> (ModelAlias m \<noteq> [] \<and> i = ModelAlias m)"

definition unambiguous :: "nativeModel list \<Rightarrow> bool" where
  "unambiguous ms \<longleftrightarrow>
     (\<forall>m\<in>set ms. ModelName m \<noteq> [] \<and>
        (\<forall>m'\<in>set ms. \<forall>i. answersTo m i \<and> answersTo m' i \<longrightarrow> ModelName m = ModelName m'))"

lemma claimIDs_claims:
  "claimIDs name ids seen = Some seen' \<Longrightarrow>
     seen \<subseteq>\<^sub>m seen' \<and> (\<forall>i\<in>set ids. i \<noteq> [] \<longrightarrow> seen' i = Some name)"
proof (induction ids arbitrary: seen)
  case Nil
  then show ?case by simp
next
  case (Cons i ids)
  show ?case
  proof (cases "i = []")
    case True
    with Cons.prems have "claimIDs name ids seen = Some seen'" by simp
    from Cons.IH [OF this] True show ?thesis by simp
  next
    case False
    with Cons.prems have rest: "claimIDs name ids (seen(i \<mapsto> name)) = Some seen'"
      and prior: "seen i = None \<or> seen i = Some name"
      by (auto split: option.splits if_splits)
    from Cons.IH [OF rest]
    have IH: "seen(i \<mapsto> name) \<subseteq>\<^sub>m seen'" "\<forall>j\<in>set ids. j \<noteq> [] \<longrightarrow> seen' j = Some name"
      by blast+
    from IH(1) have "seen' i = Some name" by (auto simp: map_le_def)
    moreover have "seen \<subseteq>\<^sub>m seen(i \<mapsto> name)"
      using prior by (auto simp: map_le_def)
    ultimately show ?thesis using IH map_le_trans by auto
  qed
qed

definition nativeModelOK :: "FreeTierConfig \<Rightarrow> nativeModel \<Rightarrow> bool" where
  "nativeModelOK cfg m \<longleftrightarrow>
     ModelName m \<noteq> [] \<and> TrimSpace (ModelName m) = ModelName m \<and>
     TrimSpace (ModelAlias m) = ModelAlias m \<and>
     \<not> prefix ''muse-'' (lastSegment (ModelName m)) \<and>
     \<not> isExplicitPaidModel (lastSegment (ModelName m)) cfg \<and>
     CHR 0x0D \<notin> set (ModelName m @ ModelAlias m) \<and> CHR 0x0A \<notin> set (ModelName m @ ModelAlias m)"

lemma ContainsAny_crlf [simp]:
  "ContainsAny v [CHR 0x0D, CHR 0x0A] \<longleftrightarrow> CHR 0x0D \<in> set v \<or> CHR 0x0A \<in> set v"
  by (simp only: ContainsAny_def list_ex_iff set_simps) blast

lemma checkModels_step:
  assumes "checkModels cfg seen (m # ms) = Inr ms'"
  obtains seen1 ms1 where
    "claimIDs (TrimSpace (ModelName m)) [TrimSpace (ModelName m), TrimSpace (ModelAlias m)] seen
       = Some seen1"
    "checkModels cfg seen1 ms = Inr ms1"
    "ms' = \<lparr> ModelName = TrimSpace (ModelName m), ModelAlias = TrimSpace (ModelAlias m) \<rparr> # ms1"
    "nativeModelOK cfg \<lparr> ModelName = TrimSpace (ModelName m), ModelAlias = TrimSpace (ModelAlias m) \<rparr>"
  using assms
  by (auto simp: Let_def nativeModelOK_def simp del: claimIDs.simps
      split: if_splits option.splits sum.splits)

lemma checkModels_ok:
  "checkModels cfg seen ms = Inr ms' \<Longrightarrow> \<forall>m\<in>set ms'. nativeModelOK cfg m"
proof (induction ms arbitrary: seen ms')
  case Nil
  then show ?case by simp
next
  case (Cons m ms)
  from Cons.prems show ?case
    by (rule checkModels_step) (use Cons.IH in \<open>auto\<close>)
qed

lemma checkModels_claims:
  "checkModels cfg seen ms = Inr ms' \<Longrightarrow>
     \<exists>seen'. seen \<subseteq>\<^sub>m seen' \<and>
       (\<forall>m\<in>set ms'. \<forall>i. i \<noteq> [] \<and> answersTo m i \<longrightarrow> seen' i = Some (ModelName m))"
proof (induction ms arbitrary: seen ms')
  case Nil
  then show ?case by (auto intro: map_le_refl)
next
  case (Cons m ms)
  from Cons.prems obtain seen1 ms1 where
    c: "claimIDs (TrimSpace (ModelName m)) [TrimSpace (ModelName m), TrimSpace (ModelAlias m)] seen
       = Some seen1" and
    r: "checkModels cfg seen1 ms = Inr ms1" and
    e: "ms' = \<lparr> ModelName = TrimSpace (ModelName m), ModelAlias = TrimSpace (ModelAlias m) \<rparr> # ms1"
    by (rule checkModels_step)
  from Cons.IH [OF r] obtain seen' where
    s: "seen1 \<subseteq>\<^sub>m seen'" "\<forall>m\<in>set ms1. \<forall>i. i \<noteq> [] \<and> answersTo m i \<longrightarrow> seen' i = Some (ModelName m)"
    by blast
  from claimIDs_claims [OF c] s(1) have
    "seen \<subseteq>\<^sub>m seen'"
    "\<forall>i\<in>{TrimSpace (ModelName m), TrimSpace (ModelAlias m)}. i \<noteq> [] \<longrightarrow>
       seen' i = Some (TrimSpace (ModelName m))"
    by (auto simp: map_le_def dom_def)
  with s(2) e show ?case by (intro exI [of _ seen']) (auto simp: answersTo_def)
qed

lemma checkModels_unambiguous:
  assumes "checkModels cfg Map.empty ms = Inr ms'"
  shows "unambiguous ms'"
proof -
  obtain seen where s: "\<forall>m\<in>set ms'. \<forall>i. i \<noteq> [] \<and> answersTo m i \<longrightarrow> seen i = Some (ModelName m)"
    using checkModels_claims [OF assms] by blast
  have n: "\<forall>m\<in>set ms'. ModelName m \<noteq> []"
    using checkModels_ok [OF assms] by (simp add: nativeModelOK_def)
  have "ModelName m = ModelName m'"
    if "m \<in> set ms'" "m' \<in> set ms'" "answersTo m i" "answersTo m' i" for m m' i
  proof -
    have "i \<noteq> []" using that n by (auto simp: answersTo_def)
    with s that have "seen i = Some (ModelName m)" "seen i = Some (ModelName m')" by blast+
    then show ?thesis by simp
  qed
  with n show ?thesis unfolding unambiguous_def by blast
qed

subsection \<open>Selection\<close>

lemma selectModel_none:
  "(\<forall>m\<in>set ms. \<not> answersTo m r) \<Longrightarrow> selectModel r ms = []"
  by (induction r ms rule: selectModel.induct) (auto simp: answersTo_def)

lemma selectModel_in:
  "m \<in> set ms \<Longrightarrow> answersTo m r \<Longrightarrow> \<exists>m'\<in>set ms. answersTo m' r \<and> selectModel r ms = ModelName m'"
  by (induction r ms rule: selectModel.induct) (auto simp: answersTo_def)

lemma selectModel_iff:
  assumes "unambiguous ms" "n \<noteq> []"
  shows "selectModel r ms = n \<longleftrightarrow> (\<exists>m\<in>set ms. answersTo m r \<and> ModelName m = n)"
proof (cases "\<exists>m\<in>set ms. answersTo m r")
  case True
  then obtain m where m: "m \<in> set ms" "answersTo m r" by blast
  from selectModel_in [OF m] obtain m' where
    m': "m' \<in> set ms" "answersTo m' r" "selectModel r ms = ModelName m'" by blast
  then show ?thesis using assms(1) unfolding unambiguous_def by metis
next
  case False
  then show ?thesis using selectModel_none [of ms r] assms(2) by auto
qed

lemma unambiguous_set: "set ms = set ms' \<Longrightarrow> unambiguous ms = unambiguous ms'"
  by (simp add: unambiguous_def)

lemma selectModel_order:
  assumes "unambiguous ms" "set ms = set ms'"
  shows "selectModel r ms = selectModel r ms'"
proof (cases "selectModel r ms = []")
  case True
  have "unambiguous ms'" using assms unambiguous_set by blast
  show ?thesis
  proof (rule ccontr)
    assume "selectModel r ms \<noteq> selectModel r ms'"
    with True have ne: "selectModel r ms' \<noteq> []" by simp
    then obtain m where "m \<in> set ms'" "answersTo m r" "ModelName m = selectModel r ms'"
      using selectModel_iff [OF \<open>unambiguous ms'\<close> ne, of r] by auto
    then have "selectModel r ms = selectModel r ms'"
      using selectModel_iff [OF assms(1) ne, of r] assms(2) by auto
    with True ne show False by simp
  qed
next
  case False
  then show ?thesis
    using selectModel_iff [OF assms(1) False, of r]
      selectModel_iff [OF unambiguous_set [THEN iffD1, OF assms(2) assms(1)] False, of r] assms(2)
    by metis
qed

lemma requestedModel_prefix:
  "requestedModel auth ((trimBothSlashes (AuthPrefix auth) @ ''/'') @ i) = i"
  by (simp add: requestedModel_def TrimPrefix_def)

lemma requestedModel_bare:
  "\<not> prefix (trimBothSlashes (AuthPrefix auth) @ ''/'') i \<Longrightarrow> requestedModel auth i = i"
  by (simp add: requestedModel_def TrimPrefix_def)

subsection \<open>Publication\<close>

lemma publishIDs_subset: "set (publishIDs seen ids) \<subseteq> {(i, n) \<in> set ids. i \<noteq> [] \<and> i \<notin> set seen}"
  by (induction seen ids rule: publishIDs.induct) auto

lemma publishIDs_covers:
  "(i, n) \<in> set ids \<Longrightarrow> i \<noteq> [] \<Longrightarrow> i \<notin> set seen \<Longrightarrow> i \<in> fst ` set (publishIDs seen ids)"
  by (induction seen ids rule: publishIDs.induct) (auto split: if_splits)

lemma publishIDs_distinct: "distinct (map fst (publishIDs seen ids))"
proof (induction seen ids rule: publishIDs.induct)
  case (1 seen)
  then show ?case by simp
next
  case (2 seen i name ids)
  have "i \<notin> fst ` set (publishIDs (i # seen) ids)"
    using publishIDs_subset [of "i # seen" ids] by auto
  with 2 show ?case by simp
qed

lemma modelIDs_iff:
  "(i, n) \<in> set (modelIDs ms) \<and> i \<noteq> [] \<longleftrightarrow>
     (\<exists>m\<in>set ms. ModelName m = n \<and> i \<noteq> [] \<and> answersTo m i)"
  by (auto simp: modelIDs_def answersTo_def)

lemma publishedModels_iff:
  assumes "unambiguous ms"
  shows "(i, n) \<in> set (publishedModels ms) \<longleftrightarrow> n \<noteq> [] \<and> selectModel i ms = n"
proof
  assume "(i, n) \<in> set (publishedModels ms)"
  then have "(i, n) \<in> set (modelIDs ms) \<and> i \<noteq> []"
    using publishIDs_subset [of "[]" "modelIDs ms"] by (auto simp: publishedModels_def)
  then obtain m where "m \<in> set ms" "ModelName m = n" "answersTo m i" using modelIDs_iff by blast
  moreover from this have "n \<noteq> []" using assms by (auto simp: unambiguous_def)
  ultimately show "n \<noteq> [] \<and> selectModel i ms = n" using selectModel_iff [OF assms, of n i] by blast
next
  assume a: "n \<noteq> [] \<and> selectModel i ms = n"
  then obtain m where m: "m \<in> set ms" "answersTo m i" "ModelName m = n"
    using selectModel_iff [OF assms, of n i] by blast
  have "i \<noteq> []" using m a by (auto simp: answersTo_def)
  with m have "(i, n) \<in> set (modelIDs ms)" using modelIDs_iff [of i n ms] by blast
  with \<open>i \<noteq> []\<close> have "i \<in> fst ` set (publishedModels ms)"
    unfolding publishedModels_def by (intro publishIDs_covers) auto
  then obtain n' where n': "(i, n') \<in> set (publishedModels ms)" by auto
  then have "(i, n') \<in> set (modelIDs ms) \<and> i \<noteq> []"
    using publishIDs_subset [of "[]" "modelIDs ms"] by (auto simp: publishedModels_def)
  then obtain m' where "m' \<in> set ms" "ModelName m' = n'" "answersTo m' i" using modelIDs_iff by blast
  with m assms have "n' = n" unfolding unambiguous_def by metis
  with n' show "(i, n) \<in> set (publishedModels ms)" by simp
qed

subsection \<open>Headers and the whole credential\<close>

lemma checkHeaders_iff:
  "checkHeaders hs = Some hs' \<longleftrightarrow>
     hs' = filter (\<lambda>h. \<not> isRequestHeader (fst h)) hs \<and>
     (\<forall>h\<in>set hs'. validNativeHeader (fst h) (snd h))"
proof (induction hs arbitrary: hs')
  case Nil
  then show ?case by auto
next
  case (Cons h hs)
  obtain name v where h: "h = (name, v)" by (cases h)
  show ?case
  proof (cases "checkHeaders hs")
    case None
    with Cons.IH [of "filter (\<lambda>h. \<not> isRequestHeader (fst h)) hs"] show ?thesis
      by (auto simp: h)
  next
    case (Some r)
    with Cons.IH [of r] show ?thesis by (auto simp: h)
  qed
qed

definition headerSafe :: "string \<Rightarrow> bool" where
  "headerSafe s \<longleftrightarrow> CHR 0x0D \<notin> set s \<and> CHR 0x0A \<notin> set s \<and> CHR 0x00 \<notin> set s"

lemma validNativeHeader_safe: "validNativeHeader n v \<Longrightarrow> headerSafe n \<and> headerSafe v \<and> n \<noteq> []"
  by (auto simp: validNativeHeader_def headerSafe_def list_all_iff isTokenByte_def Let_def)

definition officialBase :: "(string \<Rightarrow> url option) \<Rightarrow> string \<Rightarrow> bool" where
  "officialBase urlParse base \<longleftrightarrow>
     base = nativeBaseURL \<or> (\<exists>s u. urlParse s = Some u \<and> officialURL u \<and> base = UString u)"

definition credentialOK :: "(string \<Rightarrow> url option) \<Rightarrow> FreeTierConfig \<Rightarrow> nativeAuth \<Rightarrow> bool" where
  "credentialOK urlParse free auth \<longleftrightarrow>
     AuthType auth = PluginID \<and> APIKey auth \<noteq> [] \<and> TrimSpace (APIKey auth) = APIKey auth \<and>
     officialBase urlParse (BaseURL auth) \<and>
     (\<forall>m\<in>set (AuthModels auth). nativeModelOK free m) \<and> unambiguous (AuthModels auth) \<and>
     (\<forall>(n, v)\<in>set (AuthHeaders auth). validNativeHeader n v \<and> \<not> isRequestHeader n)"

lemma validateNativeURL_official:
  "validateNativeURL urlParse raw = Inr base \<Longrightarrow> officialBase urlParse base"
  by (auto simp: validateNativeURL_def officialBase_def split: if_splits option.splits)

lemma decodeNativeAuth_parts:
  assumes "decodeNativeAuth J urlParse cfg raw = Inr auth"
  obtains a0 models hs base where
    "unmarshalAuth J raw = Some a0" "AuthType a0 = PluginID" "TrimSpace (APIKey a0) \<noteq> []"
    "validateNativeURL urlParse (BaseURL a0) = Inr base"
    "checkModels (CFreeTier cfg) Map.empty (AuthModels a0) = Inr models"
    "checkHeaders (AuthHeaders a0) = Some hs"
    "auth = a0\<lparr> APIKey := TrimSpace (APIKey a0), BaseURL := base,
       ProxyURL := normalizeNativeProxy (ProxyURL a0), AuthModels := models, AuthHeaders := hs \<rparr>"
  using assms by (auto simp: decodeNativeAuth_def split: option.splits sum.splits if_splits)

lemma decodeNativeAuth_credentialOK:
  assumes "decodeNativeAuth J urlParse cfg raw = Inr auth"
  shows "credentialOK urlParse (CFreeTier cfg) auth"
  using assms
proof (rule decodeNativeAuth_parts)
  fix a0 models hs base
  assume a: "AuthType a0 = PluginID" "TrimSpace (APIKey a0) \<noteq> []"
    "validateNativeURL urlParse (BaseURL a0) = Inr base"
    "checkModels (CFreeTier cfg) Map.empty (AuthModels a0) = Inr models"
    "checkHeaders (AuthHeaders a0) = Some hs"
    and e: "auth = a0\<lparr> APIKey := TrimSpace (APIKey a0), BaseURL := base,
       ProxyURL := normalizeNativeProxy (ProxyURL a0), AuthModels := models, AuthHeaders := hs \<rparr>"
  have "\<forall>(n, v)\<in>set hs. validNativeHeader n v \<and> \<not> isRequestHeader n"
    using a(5) checkHeaders_iff [of "AuthHeaders a0" hs] by (auto simp: case_prod_beta)
  then show ?thesis
    using a(1,2) validateNativeURL_official [OF a(3)] checkModels_ok [OF a(4)]
      checkModels_unambiguous [OF a(4)]
    by (simp add: credentialOK_def e)
qed

lemma decodeNativeAuth_unambiguous:
  "decodeNativeAuth J urlParse cfg raw = Inr auth \<Longrightarrow> unambiguous (AuthModels auth)"
  using decodeNativeAuth_credentialOK by (fastforce simp: credentialOK_def)

lemma normalizeNativeProxy_direct: "normalizeNativeProxy ''direct://'' = ''direct://''"
proof -
  have "TrimSpace ''direct://'' = ''direct://''"
    by (rule TrimSpace_visible) (simp_all add: visibleByte_def)
  then show ?thesis by (simp add: normalizeNativeProxy_def)
qed

lemma normalizeNativeProxy_idem [simp]:
  "normalizeNativeProxy (normalizeNativeProxy p) = normalizeNativeProxy p"
proof (cases "normalizeNativeProxy p = ''direct://''")
  case True
  then show ?thesis by (simp add: normalizeNativeProxy_direct)
next
  case False
  then have "normalizeNativeProxy p = TrimSpace p"
    by (simp add: normalizeNativeProxy_def Let_def split: if_splits)
  with False show ?thesis by (simp add: normalizeNativeProxy_def Let_def split: if_splits)
qed

end
