(* ===== verification/Sse_Props.thy ===== *)
theory Sse_Props
  imports Sse
begin

section \<open>Properties of the event reader\<close>

text \<open>
  The callback only ever sees payloads that are \<open>[DONE]\<close> or an event without an error, and
  the reader only reports success after \<open>[DONE]\<close>; this is shown for any callback by noting
  its calls (\<open>logged\<close>), which does not change the outcome (\<open>scanLoop_plain\<close>). The second half
  is the round trip: reading a rendered list of events calls the callback on them.
\<close>

subsection \<open>The callback only sees checked events\<close>

definition acceptable :: "codec \<Rightarrow> string \<Rightarrow> bool" where
  "acceptable J d \<longleftrightarrow> d \<noteq> [] \<and> (isDone d \<or> eventError J d = None)"

text \<open>An emitter that notes every call before it makes it.\<close>

definition logged :: "'s emitter \<Rightarrow> ((string \<times> string) list \<times> 's) emitter" where
  "logged emit f d = (\<lambda>(evs, s). case emit f d s of (err, s') \<Rightarrow> (err, evs @ [(f, d)], s'))"

definition sse_ok :: "codec \<Rightarrow> ((string \<times> string) list \<times> 's) sse \<Rightarrow> bool" where
  "sse_ok J s \<longleftrightarrow>
     \<not> sseDone s \<and> (\<forall>(f, d)\<in>set (fst (sseSink s)). acceptable J d \<and> \<not> isDone d)"

definition sse_end :: "codec \<Rightarrow> string option \<Rightarrow> (string \<times> string) list \<Rightarrow> bool" where
  "sse_end J err evs \<longleftrightarrow>
     (\<forall>(f, d)\<in>set evs. acceptable J d) \<and>
     (\<forall>(f, d)\<in>set (butlast evs). \<not> isDone d) \<and>
     (err = None \<longrightarrow> evs \<noteq> [] \<and> isDone (snd (last evs)))"

lemma sse_end_old: "sse_ok J s \<Longrightarrow> sse_end J (Some err) (fst (sseSink s))"
  by (auto simp: sse_ok_def sse_end_def dest: in_set_butlastD)

lemma flushEvent_cases:
  obtains (quiet) s' where "flushEvent J emit s = (None, s')" "sseSink s' = sseSink s"
      "sseDone s' = sseDone s"
  | (bad) err s' where "flushEvent J emit s = (Some err, s')" "sseSink s' = sseSink s"
  | (emitted) f d s' where
      "acceptable J d" "sseDone s' = (isDone d \<or> sseDone s)"
      "flushEvent J emit s = (fst (emit f d (sseSink s)), s')" "sseSink s' = snd (emit f d (sseSink s))"
proof (cases "sseFrame s = [] \<or> joinWith [LF] (sseData s) = []")
  case True
  then show ?thesis
    by (intro quiet [of "if sseFrame s = [] then s else s\<lparr> sseFrame := [], sseData := [] \<rparr>"])
      (auto simp: flushEvent_def)
next
  case False
  let ?d = "joinWith [LF] (sseData s)"
  show ?thesis
  proof (cases "\<not> isDone ?d \<and> eventError J ?d \<noteq> None")
    case True
    then obtain err where "eventError J ?d = Some err" by auto
    with True False show ?thesis 
      by (intro bad [of err "s\<lparr> sseFrame := [], sseData := [] \<rparr>"]) (auto simp: flushEvent_def)
  next
    case ok: False
    let ?r = "emit (sseFrame s) ?d (sseSink s)"
    show ?thesis
      using ok False
      by (intro emitted [of ?d "s\<lparr> sseFrame := [], sseData := [],
            sseDone := (if isDone ?d then True else sseDone s), sseSink := snd ?r \<rparr>" "sseFrame s"])
        (auto simp: flushEvent_def acceptable_def Let_def case_prod_beta)
  qed
qed

lemma flushEvent_logged:
  assumes "sse_ok J s" "flushEvent J (logged emit) s = (err, s')"
  shows "sse_end J err (fst (sseSink s')) \<or> err = None \<and> sse_ok J s'"
    and "err = None \<Longrightarrow> sseDone s' \<Longrightarrow> sse_end J None (fst (sseSink s'))"
    and "err = None \<Longrightarrow> \<not> sseDone s' \<Longrightarrow> sse_ok J s'"
proof -
  have all: "(err \<noteq> None \<longrightarrow> sse_end J err (fst (sseSink s'))) \<and>
      (err = None \<and> sseDone s' \<longrightarrow> sse_end J None (fst (sseSink s'))) \<and>
      (err = None \<and> \<not> sseDone s' \<longrightarrow> sse_ok J s')"
  proof (cases rule: flushEvent_cases [of J "logged emit" s])
    case quiet
    with assms show ?thesis by (auto simp: sse_ok_def)
  next
    case bad
    with assms show ?thesis using sse_end_old [OF assms(1)] by auto
  next
    case (emitted f d s1)
    obtain evs u where su: "sseSink s = (evs, u)" by (cases "sseSink s")
    have e: "sseSink s' = (evs @ [(f, d)], snd (emit f d u))" "err = fst (emit f d u)"
        "sseDone s' = isDone d"
      using emitted assms by (auto simp: logged_def su sse_ok_def split: prod.splits)
    show ?thesis
      using assms(1) emitted(1) e by (auto simp: sse_end_def sse_ok_def su)
  qed
  then show "err = None \<Longrightarrow> sseDone s' \<Longrightarrow> sse_end J None (fst (sseSink s'))"
    "err = None \<Longrightarrow> \<not> sseDone s' \<Longrightarrow> sse_ok J s'" by blast+
  from all show "sse_end J err (fst (sseSink s')) \<or> err = None \<and> sse_ok J s'"
    by (cases err) auto
qed

lemma takeLine_logged:
  assumes "sse_ok J s"
  shows "takeLine J (logged emit) l s = Stop err sink \<Longrightarrow> sse_end J err (fst sink)"
    and "takeLine J (logged emit) l s = Continue s' \<Longrightarrow> sse_ok J s'"
proof -
  let ?s1 = "s\<lparr> sseFrame := sseFrame s @ l @ [LF] \<rparr>"
  have ok: "sse_ok J ?s1" using assms by (simp add: sse_ok_def)
  note f = flushEvent_logged [OF ok]
  obtain e s2 where fl: "flushEvent J (logged emit) ?s1 = (e, s2)"
    by (cases "flushEvent J (logged emit) ?s1")
  have eq: "takeLine J (logged emit) l s =
      (if length (sseFrame s) + length l > maxFrame
       then Stop (Some ''OpenCode SSE event exceeds 8 MiB'') (sseSink s)
       else if l = [] then
         (case e of Some err \<Rightarrow> Stop (Some err) (sseSink s2)
          | None \<Rightarrow> if sseDone s2 then Stop None (sseSink s2) else Continue s2)
       else Continue (if prefix ''data:'' l
         then ?s1\<lparr> sseData := sseData ?s1 @ [dataLine l] \<rparr> else ?s1))"
    unfolding takeLine_def Let_def fl by (simp split: option.splits)
  show "sse_end J err (fst sink)" if "takeLine J (logged emit) l s = Stop err sink"
    using that sse_end_old [OF assms] f [OF fl] unfolding eq
    by (cases e) (auto split: if_splits)
  show "sse_ok J s'" if "takeLine J (logged emit) l s = Continue s'"
    using that ok f(3) [OF fl] unfolding eq
    by (cases e) (auto simp: sse_ok_def split: if_splits)
qed

lemma finishScan_logged:
  assumes "sse_ok J s" "finishScan J (logged emit) scanErr s = (err, sink)"
  shows "sse_end J err (fst sink)"
proof -
  let ?s1 = "s\<lparr> sseFrame := sseFrame s @ [LF] \<rparr>"
  have ok: "sse_ok J ?s1" using assms(1) by (simp add: sse_ok_def)
  obtain e s2 where fl: "flushEvent J (logged emit) ?s1 = (e, s2)"
    by (cases "flushEvent J (logged emit) ?s1")
  note f = flushEvent_logged [OF ok fl]
  show ?thesis
  proof (cases scanErr)
    case None
    show ?thesis
    proof (cases "sseFrame s = []")
      case True
      with None assms sse_end_old [OF assms(1)] show ?thesis
        by (auto simp: finishScan_def sse_ok_def)
    next
      case False
      with None assms(2) f sse_end_old [of J s2] show ?thesis
        by (cases e) (auto simp: finishScan_def fl split: if_splits)
    qed
  next
    case (Some e')
    with assms sse_end_old [OF assms(1)] show ?thesis by (auto simp: finishScan_def)
  qed
qed

lemma scanLoop_logged:
  "sse_ok J s \<Longrightarrow> scanLoop J (logged emit) readErr input s = (err, sink) \<Longrightarrow> sse_end J err (fst sink)"
proof (induction input arbitrary: s rule: length_induct)
  case (1 input)
  note unf = "1.prems"(2) [unfolded scanLoop.simps [of J _ readErr input s]]
  show ?case
  proof (cases "nextLine input")
    case EndOfInput
    with unf finishScan_logged [OF "1.prems"(1)] show ?thesis by auto
  next
    case TooLong
    with unf finishScan_logged [OF "1.prems"(1)] show ?thesis by auto
  next
    case (Line l rest)
    show ?thesis
    proof (cases "takeLine J (logged emit) l s")
      case (Stop e k)
      with Line unf takeLine_logged(1) [OF "1.prems"(1) Stop] show ?thesis by auto
    next
      case (Continue s')
      with Line unf have "scanLoop J (logged emit) readErr rest s' = (err, sink)" by simp
      with "1.IH" nextLine_shorter [OF Line] takeLine_logged(2) [OF "1.prems"(1) Continue]
      show ?thesis by blast
    qed
  qed
qed

lemma readNativeSSE_logged:
  "readNativeSSE J (logged emit) body ([], u) = (err, evs, u') \<Longrightarrow> sse_end J err evs"
  using scanLoop_logged
    [of J "\<lparr> sseFrame = [], sseData = [], sseDone = False, sseSink = ([], u) \<rparr>" emit
      "snd body" "fst body" err "(evs, u')"]
  by (simp add: readNativeSSE_def sse_ok_def)

subsection \<open>Noting the calls does not change them\<close>

definition plain :: "((string \<times> string) list \<times> 's) sse \<Rightarrow> 's sse" where
  "plain s = \<lparr> sseFrame = sseFrame s, sseData = sseData s, sseDone = sseDone s,
     sseSink = snd (sseSink s) \<rparr>"

lemma plain_simps [simp]:
  "sseFrame (plain s) = sseFrame s" "sseData (plain s) = sseData s"
  "sseDone (plain s) = sseDone s" "sseSink (plain s) = snd (sseSink s)"
  "plain (s\<lparr> sseFrame := f \<rparr>) = (plain s)\<lparr> sseFrame := f \<rparr>"
  "plain (s\<lparr> sseData := d \<rparr>) = (plain s)\<lparr> sseData := d \<rparr>"
  "plain (s\<lparr> sseDone := b \<rparr>) = (plain s)\<lparr> sseDone := b \<rparr>"
  "plain (s\<lparr> sseSink := k \<rparr>) = (plain s)\<lparr> sseSink := snd k \<rparr>"
  by (simp_all add: plain_def)

lemma logged_plain:
  "fst (logged emit f d k) = fst (emit f d (snd k))"
  "snd (snd (logged emit f d k)) = snd (emit f d (snd k))"
  by (cases k; simp add: logged_def split: prod.splits)+

lemma flushEvent_plain:
  "flushEvent J emit (plain s) =
     map_prod id plain (flushEvent J (logged emit) s)"
  by (simp add: flushEvent_def Let_def case_prod_beta logged_plain)

lemma finishScan_plain:
  "finishScan J emit e (plain s) = map_prod id snd (finishScan J (logged emit) e s)"
proof -
  note fl = flushEvent_plain [of J emit "s\<lparr> sseFrame := sseFrame s @ [LF] \<rparr>", simplified]
  show ?thesis
    by (cases e; cases "flushEvent J (logged emit) (s\<lparr> sseFrame := sseFrame s @ [LF] \<rparr>)")
      (auto simp: finishScan_def fl split: option.splits)
qed

lemma takeLine_plain:
  "takeLine J emit l (plain s) =
     (case takeLine J (logged emit) l s of
        Stop e k \<Rightarrow> Stop e (snd k) | Continue s' \<Rightarrow> Continue (plain s'))"
proof -
  note fl = flushEvent_plain [of J emit "s\<lparr> sseFrame := sseFrame s @ l @ [LF] \<rparr>",
      simplified plain_simps]
  show ?thesis
    unfolding takeLine_def Let_def plain_simps fl
    by (cases "flushEvent J (logged emit) (s\<lparr> sseFrame := sseFrame s @ l @ [LF] \<rparr>)")
      (auto split: option.splits)
qed

lemma scanLoop_plain:
  "scanLoop J emit e input (plain s) = map_prod id snd (scanLoop J (logged emit) e input s)"
proof (induction input arbitrary: s rule: length_induct)
  case (1 input)
  show ?case
    unfolding scanLoop.simps [of J _ e input]
    using "1.IH" nextLine_shorter [of input]
    by (simp add: finishScan_plain takeLine_plain id_def split: scan.splits turn.splits)
qed

lemma readNativeSSE_plain:
  "readNativeSSE J emit body u = map_prod id snd (readNativeSSE J (logged emit) body ([], u))"
  using scanLoop_plain
    [of J emit "snd body" "fst body"
      "\<lparr> sseFrame = [], sseData = [], sseDone = False, sseSink = ([], u) \<rparr>"]
  by (simp add: readNativeSSE_def plain_def)

subsection \<open>Round trip\<close>

definition renderEvent :: "string \<Rightarrow> string" where
  "renderEvent p = ''data: '' @ p @ [LF, LF]"

definition renderable :: "string \<Rightarrow> bool" where
  "renderable p \<longleftrightarrow> p \<noteq> [] \<and> LF \<notin> set p \<and> last p \<noteq> CHR 0x0D \<and> length p + 7 \<le> maxFrame"

fun emitAll :: "'s emitter \<Rightarrow> string list \<Rightarrow> 's \<Rightarrow> string option \<times> 's" where
  "emitAll emit [] s = (None, s)"
| "emitAll emit (p # ps) s =
     (case emit (renderEvent p) p s of
        (None, s') \<Rightarrow> emitAll emit ps s'
      | (Some err, s') \<Rightarrow> (Some err, s'))"

definition startSSE :: "'s \<Rightarrow> 's sse" where
  "startSSE k = \<lparr> sseFrame = [], sseData = [], sseDone = False, sseSink = k \<rparr>"

lemma takeWhile_line: "LF \<notin> set l \<Longrightarrow> takeWhile (\<lambda>c. c \<noteq> LF) (l @ LF # rest) = l"
  by (induction l) auto

lemma nextLine_line:
  assumes "LF \<notin> set l" "length l < maxFrame"
  shows "nextLine (l @ LF # rest) = Line (dropCR l) rest"
  using assms by (simp add: nextLine_def Let_def takeWhile_line)

lemma scanLoop_event:
  assumes r: "renderable p" and e: "isDone p \<or> eventError J p = None"
  shows "scanLoop J emit readErr (renderEvent p @ rest) (startSSE k) =
    (case emit (renderEvent p) p k of
       (Some err, k') \<Rightarrow> (Some err, k')
     | (None, k') \<Rightarrow>
         if isDone p then (None, k') else scanLoop J emit readErr rest (startSSE k'))"
proof -
  let ?l = "''data: '' @ p"
  let ?s = "\<lparr> sseFrame = ?l @ [LF], sseData = [p], sseDone = False, sseSink = k \<rparr>"
  have l: "LF \<notin> set ?l" "length ?l < maxFrame" "dropCR ?l = ?l" "?l \<noteq> []"
    using r by (auto simp: renderable_def dropCR_def)
  have raw: "renderEvent p @ rest = ?l @ LF # (LF # rest)" by (simp add: renderEvent_def)
  have n1: "nextLine (renderEvent p @ rest) = Line ?l (LF # rest)"
    unfolding raw using nextLine_line [OF l(1,2)] l(3) by simp
  have d: "dataLine ?l = p" by (simp add: dataLine_def TrimPrefix_def)
  have t1: "takeLine J emit ?l (startSSE k) = Continue ?s"
    using l r d by (simp add: takeLine_def startSSE_def renderable_def)
  have "nextLine ([] @ LF # rest) = Line (dropCR []) rest"
    by (rule nextLine_line) (simp_all add: maxFrame_def)
  then have n2: "nextLine (LF # rest) = Line [] rest" by (simp add: dropCR_def)
  have fr: "renderEvent p = ?l @ [LF, LF]" by (simp add: renderEvent_def)
  have ne: "p \<noteq> []" using r by (simp add: renderable_def)
  have t2: "takeLine J emit [] ?s =
      (case emit (renderEvent p) p k of
         (Some err, k') \<Rightarrow> turn.Stop (Some err) k'
       | (None, k') \<Rightarrow> if isDone p then turn.Stop None k' else Continue (startSSE k'))"
    using e r ne
    by (auto simp: takeLine_def flushEvent_def fr startSSE_def renderable_def
        split: prod.splits option.splits)
  show ?thesis
    by (subst scanLoop.simps, simp only: n1 scan.case t1 turn.case)
      (subst scanLoop.simps, simp only: n2 scan.case t2,
        auto split: prod.splits option.splits)
qed

lemma DONE_renderable: "renderable ''[DONE]''"
  by (simp add: renderable_def maxFrame_def)

lemma DONE_done: "isDone ''[DONE]''"
proof -
  have "TrimSpace ''[DONE]'' = ''[DONE]''"
    by (rule TrimSpace_visible) (simp_all add: visibleByte_def)
  then show ?thesis by (simp add: isDone_def)
qed

lemma scanLoop_events:
  assumes "\<forall>p\<in>set ps. renderable p \<and> \<not> isDone p \<and> eventError J p = None"
  shows "scanLoop J emit readErr (concat (map renderEvent ps) @ renderEvent ''[DONE]'' @ rest)
      (startSSE k) = emitAll emit (ps @ [''[DONE]'']) k"
  using assms
proof (induction ps arbitrary: k)
  case Nil
  show ?case
    using scanLoop_event [OF DONE_renderable, of J emit readErr rest k] DONE_done
    by (auto split: prod.splits option.splits)
next
  case (Cons p ps)
  then have p: "renderable p" "isDone p \<or> eventError J p = None" "\<not> isDone p" by auto
  show ?case
    using scanLoop_event [OF p(1,2), of emit readErr
        "concat (map renderEvent ps) @ renderEvent ''[DONE]'' @ rest" k] Cons p(3)
    by (simp split: prod.splits option.splits)
qed

lemma readNativeSSE_events:
  assumes "\<forall>p\<in>set ps. renderable p \<and> \<not> isDone p \<and> eventError J p = None"
  shows "readNativeSSE J emit
      (concat (map renderEvent ps) @ renderEvent ''[DONE]'' @ rest, readErr) k =
      emitAll emit (ps @ [''[DONE]'']) k"
  using scanLoop_events [OF assms, of emit readErr rest k]
  by (simp add: readNativeSSE_def startSSE_def)

subsection \<open>The loop in turns\<close>

text \<open>
  The loop of the reader with the number of its turns: None when \<open>n\<close> turns were not enough. One
  turn per line and one that finds the end always are.
\<close>

fun scanTurns ::
    "nat \<Rightarrow> codec \<Rightarrow> 's emitter \<Rightarrow> string option \<Rightarrow> string \<Rightarrow> 's sse \<Rightarrow> (string option \<times> 's) option" where
  "scanTurns 0 J emit e input s = None"
| "scanTurns (Suc n) J emit e input s =
     (case nextLine input of
        EndOfInput \<Rightarrow> Some (finishScan J emit e s)
      | TooLong \<Rightarrow> Some (finishScan J emit (Some ''bufio.Scanner: token too long'') s)
      | Line l rest \<Rightarrow>
          (case takeLine J emit l s of
             Stop err sink \<Rightarrow> Some (err, sink)
           | Continue s' \<Rightarrow> scanTurns n J emit e rest s'))"

definition lineCount :: "string \<Rightarrow> nat" where
  "lineCount s = count_list s LF + (if s = [] \<or> last s = LF then 0 else 1)"

lemma lineCount_rest:
  assumes "nextLine input = Line l rest"
  shows "lineCount input = Suc (lineCount rest)"
proof -
  let ?l = "takeWhile (\<lambda>c. c \<noteq> LF) input"
  have ne: "input \<noteq> []" and rest: "rest = drop (Suc (length ?l)) input"
    using assms by (auto simp: nextLine_def Let_def split: if_splits)
  show ?thesis
  proof (cases "LF \<in> set input")
    case True
    then obtain ys zs where input: "input = ys @ LF # zs" "LF \<notin> set ys"
      by (meson split_list_first)
    have "takeWhile (\<lambda>c. c \<noteq> LF) (ys @ LF # zs) = ys @ takeWhile (\<lambda>c. c \<noteq> LF) (LF # zs)"
      by (rule takeWhile_append2) (use input(2) in blast)
    then have "?l = ys" by (simp add: input(1))
    with rest input(1) have "rest = zs" by simp
    with input show ?thesis by (simp add: lineCount_def count_list_0_iff)
  next
    case False
    then have l: "?l = input" by (auto simp: takeWhile_eq_all_conv)
    have "rest = []" unfolding rest l by simp
    moreover have "last input \<noteq> LF" using False ne last_in_set by metis
    ultimately show ?thesis using False ne by (simp add: lineCount_def count_list_0_iff)
  qed
qed

lemma scanTurns_enough: "lineCount input < n \<Longrightarrow> scanTurns n J emit e input s = Some (scanLoop J emit e input s)"
proof (induction n arbitrary: input s)
  case 0
  then show ?case by simp
next
  case (Suc n)
  show ?case
  proof (cases "nextLine input")
    case (Line l rest)
    with Suc.prems lineCount_rest [OF Line] have "lineCount rest < n" by simp
    from Suc.IH [OF this] show ?thesis
      by (subst scanLoop.simps) (simp add: Line split: turn.split)
  qed (subst scanLoop.simps, simp)+
qed

end
