(* ===== verification/Completion_Props.thy ===== *)
theory Completion_Props
  imports Completion
begin

section \<open>Properties of merged completions\<close>

text \<open>
  No type assertion fails: every choice holds a message object whose tool calls are objects
  (\<open>choices_ok\<close>). What a message accumulates is stated once, in the locale \<open>accumulator\<close>: a
  text read off the message that every delta extends by its part ends up as the
  concatenation of the parts of all deltas of that choice. It is interpreted at the text
  fields of a message and at the arguments of each of its tool calls.
\<close>

subsection \<open>No panic\<close>

definition messageOf :: "obj \<Rightarrow> obj" where
  "messageOf out = objVal (jget out ''message'')"

definition message_ok :: "obj \<Rightarrow> bool" where
  "message_ok m \<longleftrightarrow> list_all isObj (arrVal (jget m ''tool_calls''))"

definition choice_ok :: "obj \<Rightarrow> bool" where
  "choice_ok out \<longleftrightarrow> isObj (jget out ''message'') \<and> message_ok (messageOf out)"

definition choices_ok :: "(int \<times> obj) list \<Rightarrow> bool" where
  "choices_ok choices \<longleftrightarrow>
     uniqueKeys choices \<and> (\<forall>i out. map_of choices i = Some out \<longrightarrow> choice_ok out)"

lemma isObjE: "isObj v \<Longrightarrow> (\<And>m. v = JObj m \<Longrightarrow> P) \<Longrightarrow> P"
  by (cases v) auto

lemma growTools_int: "growTools (int i) tools = tools @ replicate (Suc i - length tools) (JObj [])"
proof -
  have "nat (int i + 1) = Suc i" by simp
  then show ?thesis by (simp add: growTools_def)
qed

lemma length_growTools: "i < length (growTools (int i) tools)"
  by (simp add: growTools_int)

lemma growTools_isObj: "list_all isObj tools \<Longrightarrow> list_all isObj (growTools (int i) tools)"
  by (auto simp: growTools_int list_all_iff)

lemma mergeTools_step:
  fixes tool :: obj
  assumes "list_all isObj tools" "0 \<le> nativeIndex (jget tool ''index'')"
    "nativeIndex (jget tool ''index'') \<le> 1024"
  defines "i \<equiv> nat (nativeIndex (jget tool ''index''))"
  shows "mergeTools tools (JObj tool # parts) =
      mergeTools ((growTools (int i) tools)[i := JObj (mergeTool (objVal (growTools (int i) tools ! i)) tool)]) parts"
    and "list_all isObj ((growTools (int i) tools)[i := JObj (mergeTool (objVal (growTools (int i) tools ! i)) tool)])"
proof -
  have g: "list_all isObj (growTools (int i) tools)" using assms(1) by (rule growTools_isObj)
  then have "isObj (growTools (int i) tools ! i)"
    using length_growTools [of i tools] by (simp add: list_all_length)
  then obtain target where t: "growTools (int i) tools ! i = JObj target" by (rule isObjE)
  show "mergeTools tools (JObj tool # parts) =
      mergeTools ((growTools (int i) tools)[i := JObj (mergeTool (objVal (growTools (int i) tools ! i)) tool)]) parts"
  proof -
    have n: "int i = nativeIndex (jget tool ''index'')" using assms(2) by (simp add: i_def)
    have "goIndex (growTools (int i) tools) (int i) = Some (JObj target)"
      using t length_growTools [of i tools] by (simp add: goIndex_def)
    with assms(3) t show ?thesis by (simp add: Let_def n [symmetric])
  qed
  show "list_all isObj ((growTools (int i) tools)[i := JObj (mergeTool (objVal (growTools (int i) tools ! i)) tool)])"
    using g set_update_subset_insert by (fastforce simp: list_all_iff)
qed

lemma mergeTools_skip:
  "\<not> isObj part \<or> nativeIndex (jget (objVal part) ''index'') < 0 \<or>
      nativeIndex (jget (objVal part) ''index'') > 1024 \<Longrightarrow>
    mergeTools tools (part # parts) = mergeTools tools parts"
  by (cases part) (auto simp: Let_def)

lemma mergeTools_total:
  "list_all isObj tools \<Longrightarrow> \<exists>tools'. mergeTools tools parts = Some tools' \<and> list_all isObj tools'"
proof (induction parts arbitrary: tools)
  case Nil
  then show ?case by simp
next
  case (Cons part parts)
  show ?case
  proof (cases "\<not> isObj part \<or> nativeIndex (jget (objVal part) ''index'') < 0 \<or>
      nativeIndex (jget (objVal part) ''index'') > 1024")
    case True
    show ?thesis unfolding mergeTools_skip [OF True] by (rule Cons.IH [OF Cons.prems])
  next
    case False
    then obtain tool where t: "part = JObj tool" by (auto elim: isObjE)
    from False t have r: "0 \<le> nativeIndex (jget tool ''index'')" "nativeIndex (jget tool ''index'') \<le> 1024"
      by simp_all
    show ?thesis
      unfolding t mergeTools_step(1) [OF Cons.prems r]
      by (rule Cons.IH [OF mergeTools_step(2) [OF Cons.prems r]])
  qed
qed

lemma textKeys_not_tools: "k \<in> set textKeys \<Longrightarrow> k \<noteq> ''tool_calls'' \<and> k \<noteq> ''function_call''"
  by (auto simp: textKeys_def)

lemma sliceValue_arr [simp]: "arrVal (sliceValue vs) = vs"
  by (simp add: sliceValue_def)

lemma mergeKey_total:
  assumes "message_ok dst"
  shows "\<exists>dst'. mergeKey key v dst = Some dst' \<and> message_ok dst'"
proof (cases "key = ''tool_calls''")
  case True
  obtain tools where "mergeTools (arrVal (jget dst key)) (arrVal v) = Some tools" "list_all isObj tools"
    using mergeTools_total assms True unfolding message_ok_def by blast
  with True show ?thesis by (simp add: mergeKey_def message_ok_def textKeys_def)
next
  case False
  with assms show ?thesis
    by (auto simp: mergeKey_def message_ok_def textKeys_def jget_update split: json.splits)
qed

lemma mergeNativeDelta_total:
  "message_ok dst \<Longrightarrow> \<exists>dst'. mergeNativeDelta dst delta = Some dst' \<and> message_ok dst'"
proof (induction dst delta rule: mergeNativeDelta.induct)
  case (1 dst)
  then show ?case by simp
next
  case (2 dst key v delta)
  obtain d where "mergeKey key v dst = Some d" "message_ok d" using mergeKey_total [OF "2.prems"] by blast
  with "2.IH" show ?case by simp
qed

lemma copyChoice_message: "jget (copyChoice out choice) ''message'' = jget out ''message''"
  by (induction out choice rule: copyChoice.induct) (simp_all add: jget_update)

lemma choice_ok_copy [simp]: "choice_ok (copyChoice out choice) = choice_ok out"
  by (simp add: choice_ok_def messageOf_def copyChoice_message)

lemma newChoice_ok: "choice_ok (newChoice i)"
  by (simp add: choice_ok_def messageOf_def message_ok_def newChoice_def jget_def)

lemma choiceAt_ok: "choices_ok choices \<Longrightarrow> choice_ok (choiceAt i choices)"
  by (auto simp: choices_ok_def choiceAt_def newChoice_ok split: option.splits)

lemma choices_ok_update: "choices_ok choices \<Longrightarrow> choice_ok out \<Longrightarrow> choices_ok (AList.update i out choices)"
  by (auto simp: choices_ok_def update_conv')

definition choiceIndex :: "obj \<Rightarrow> int" where
  "choiceIndex choice = nativeIndex (jget choice ''index'')"

text \<open>One choice of a chunk: its delta, if it has one, is merged into the message.\<close>

lemma addChoice_spec:
  fixes choice :: obj
  assumes "choices_ok choices"
  defines "i \<equiv> choiceIndex choice"
  obtains out where
    "addChoice choice choices = Some (AList.update i out choices)"
    "choice_ok out"
    "case jget choice ''delta'' of
       JObj delta \<Rightarrow> mergeNativeDelta (messageOf (choiceAt i choices)) delta = Some (messageOf out)
     | _ \<Rightarrow> messageOf out = messageOf (choiceAt i choices)"
proof -
  let ?out = "copyChoice (choiceAt i choices) choice"
  have ok: "choice_ok ?out" using choiceAt_ok [OF assms(1)] by simp
  then obtain message where m: "jget ?out ''message'' = JObj message"
    by (auto simp: choice_ok_def elim: isObjE)
  then have mo: "message = messageOf (choiceAt i choices)"
    by (simp add: messageOf_def copyChoice_message)
  show ?thesis
  proof (cases "\<exists>delta. jget choice ''delta'' = JObj delta")
    case True
    then obtain delta where d: "jget choice ''delta'' = JObj delta" by blast
    have "message_ok message" using ok m by (simp add: choice_ok_def messageOf_def)
    then obtain message' where m': "mergeNativeDelta message delta = Some message'" "message_ok message'"
      using mergeNativeDelta_total by blast
    show ?thesis
    proof (rule that [of "jset ''message'' (JObj message') ?out"])
      show "addChoice choice choices =
          Some (AList.update i (jset ''message'' (JObj message') ?out) choices)"
        using d m m' by (simp add: addChoice_def Let_def i_def choiceIndex_def)
      show "choice_ok (jset ''message'' (JObj message') ?out)"
        using m' by (simp add: choice_ok_def messageOf_def)
      show "case jget choice ''delta'' of
          JObj delta \<Rightarrow> mergeNativeDelta (messageOf (choiceAt i choices)) delta =
            Some (messageOf (jset ''message'' (JObj message') ?out))
        | _ \<Rightarrow> messageOf (jset ''message'' (JObj message') ?out) = messageOf (choiceAt i choices)"
        using d m' mo by (simp add: messageOf_def)
    qed
  next
    case False
    show ?thesis
    proof (rule that [of ?out])
      show "addChoice choice choices = Some (AList.update i ?out choices)"
        using False by (simp add: addChoice_def Let_def i_def choiceIndex_def split: json.splits)
      show "choice_ok ?out" by (rule ok)
      show "case jget choice ''delta'' of
          JObj delta \<Rightarrow> mergeNativeDelta (messageOf (choiceAt i choices)) delta = Some (messageOf ?out)
        | _ \<Rightarrow> messageOf ?out = messageOf (choiceAt i choices)"
        using False by (simp add: messageOf_def copyChoice_message split: json.splits)
    qed
  qed
qed

lemma addChoices_total:
  "choices_ok choices \<Longrightarrow> \<exists>choices'. addChoices items choices = Some choices' \<and> choices_ok choices'"
proof (induction items arbitrary: choices)
  case Nil
  then show ?case by simp
next
  case (Cons item items)
  show ?case
  proof (cases "isObj item")
    case True
    then obtain choice where c: "item = JObj choice" by (rule isObjE)
    obtain out where "addChoice choice choices = Some (AList.update (choiceIndex choice) out choices)"
      "choice_ok out"
      using addChoice_spec [OF Cons.prems] by blast
    with Cons.IH choices_ok_update [OF Cons.prems] c show ?thesis by simp
  next
    case False
    with Cons show ?thesis by (cases item) auto
  qed
qed

definition completion_ok :: "nativeCompletion \<Rightarrow> bool" where
  "completion_ok c \<longleftrightarrow> choices_ok (compChoices c)"

lemma newCompletion_ok: "completion_ok newCompletion"
  by (simp add: completion_ok_def newCompletion_def choices_ok_def)

lemma addChunk_total:
  "completion_ok c \<Longrightarrow> \<exists>c'. addChunk chunk c = Some c' \<and> completion_ok c'"
  using addChoices_total [of "compChoices c" "arrVal (jget chunk ''choices'')"]
  by (auto simp: addChunk_def completion_ok_def)

lemma addData_ok:
  assumes "completion_ok c"
  shows "addData J data c \<noteq> Panic"
    and "addData J data c = Added c' \<Longrightarrow> completion_ok c'"
proof -
  let ?c1 = "c\<lparr> compSize := compSize c + length data \<rparr>"
  have "completion_ok ?c1" using assms by (simp add: completion_ok_def)
  then have t: "\<exists>c'. addChunk chunk ?c1 = Some c' \<and> completion_ok c'" for chunk
    by (rule addChunk_total)
  have none: "(addChunk chunk ?c1 = None) = False" for chunk using t [of chunk] by auto
  have some: "addChunk chunk ?c1 = Some c' \<Longrightarrow> completion_ok c'" for chunk
    using t [of chunk] by auto
  show "addData J data c \<noteq> Panic"
    by (simp add: addData_def Let_def none split: root.splits option.splits)
  show "addData J data c = Added c' \<Longrightarrow> completion_ok c'"
    using some assms by (auto simp: addData_def Let_def split: root.splits option.splits if_splits)
qed

subsection \<open>Reading one key after a delta\<close>

lemma mergeKey_other: "mergeKey key v dst = Some dst' \<Longrightarrow> k \<noteq> key \<Longrightarrow> jget dst' k = jget dst k"
  by (auto simp: mergeKey_def split: if_splits json.splits option.splits)

lemma mergeNativeDelta_absent:
  "mergeNativeDelta m d = Some m' \<Longrightarrow> \<not> hasKey d k \<Longrightarrow> jget m' k = jget m k"
proof (induction m d rule: mergeNativeDelta.induct)
  case (1 dst)
  then show ?case by simp
next
  case (2 dst key v delta)
  then obtain d where d: "mergeKey key v dst = Some d" "mergeNativeDelta d delta = Some m'"
    by (auto split: option.splits)
  moreover have "k \<noteq> key" "\<not> hasKey delta k"
    using "2.prems"(2) by (auto simp: hasKey_def split: if_splits)
  ultimately show ?case using "2.IH" mergeKey_other [OF d(1)] by simp
qed

lemma mergeNativeDelta_at:
  assumes "mergeNativeDelta m d = Some m'" "uniqueKeys d" "map_of d k = Some v"
  shows "\<exists>m0 m1. jget m0 k = jget m k \<and> mergeKey k v m0 = Some m1 \<and> jget m' k = jget m1 k"
  using assms
proof (induction m d rule: mergeNativeDelta.induct)
  case (1 dst)
  then show ?case by simp
next
  case (2 dst key w delta)
  then obtain d where d: "mergeKey key w dst = Some d" "mergeNativeDelta d delta = Some m'"
    by (auto split: option.splits)
  have u: "uniqueKeys delta" using "2.prems"(2) by (simp add: uniqueKeys_def)
  show ?case
  proof (cases "key = k")
    case True
    then have "\<not> hasKey delta k"
      using "2.prems"(2) by (auto simp: uniqueKeys_def hasKey_def map_of_eq_None_iff)
    then have "jget m' k = jget d k" by (rule mergeNativeDelta_absent [OF d(2)])
    with True d(1) "2.prems"(3) show ?thesis by auto
  next
    case False
    with "2.IH" [OF d(1) d(2) u] "2.prems"(3) mergeKey_other [OF d(1), of k] show ?thesis by auto
  qed
qed

lemma mergeKey_text:
  assumes "k \<in> set textKeys" "mergeKey k v m0 = Some m1" "v = JNull \<or> isStr v"
  shows "strVal (jget m1 k) = strVal (jget m0 k) @ strVal v"
  using assms by (auto simp: mergeKey_def split: json.splits)

lemma mergeNativeDelta_text:
  assumes "k \<in> set textKeys" "mergeNativeDelta m d = Some m'" "uniqueKeys d"
    and "jget d k = JNull \<or> isStr (jget d k)"
  shows "strVal (jget m' k) = strVal (jget m k) @ strVal (jget d k)"
proof (cases "map_of d k")
  case None
  then have "\<not> hasKey d k" by (simp add: hasKey_def)
  with mergeNativeDelta_absent [OF assms(2) this] show ?thesis by (simp add: not_hasKey_jget)
next
  case (Some v)
  then have "jget d k = v" by (simp add: jget_def)
  with mergeNativeDelta_at [OF assms(2,3) Some] mergeKey_text [OF assms(1)] assms(4)
  show ?thesis by metis
qed

subsection \<open>The arguments of a tool call\<close>

definition funArgs :: "obj \<Rightarrow> string" where
  "funArgs tool = strVal (jget (objVal (jget tool ''function'')) ''arguments'')"

definition argsAt :: "nat \<Rightarrow> json list \<Rightarrow> string" where
  "argsAt t tools = (if t < length tools then funArgs (objVal (tools ! t)) else [])"

definition partAt :: "nat \<Rightarrow> json \<Rightarrow> bool" where
  "partAt t part \<longleftrightarrow>
     isObj part \<and> nativeIndex (jget (objVal part) ''index'') = int t \<and> t \<le> 1024"

definition partsArgs :: "nat \<Rightarrow> json list \<Rightarrow> string" where
  "partsArgs t parts = concat (map (\<lambda>part. funArgs (objVal part)) (filter (partAt t) parts))"

lemma mergeNativeFunction_absent:
  "\<not> hasKey part ''arguments'' \<Longrightarrow>
     jget (mergeNativeFunction dst part) ''arguments'' = jget dst ''arguments''"
  by (induction dst part rule: mergeNativeFunction.induct)
    (auto simp: hasKey_def jget_update split: if_splits)

lemma mergeNativeFunction_args:
  "uniqueKeys part \<Longrightarrow>
     strVal (jget (mergeNativeFunction dst part) ''arguments'') =
       strVal (jget dst ''arguments'') @ strVal (jget part ''arguments'')"
proof (induction dst part rule: mergeNativeFunction.induct)
  case (1 dst)
  then show ?case by simp
next
  case (2 dst key v part)
  have u: "uniqueKeys part" using "2.prems" by (simp add: uniqueKeys_def)
  show ?case
  proof (cases "key = ''arguments''")
    case True
    then have "\<not> hasKey part ''arguments''"
      using "2.prems" by (auto simp: uniqueKeys_def hasKey_def map_of_eq_None_iff)
    with True show ?thesis by (simp add: mergeNativeFunction_absent jget_def [of "_ # _"])
  next
    case False
    with "2.IH" u show ?thesis by (simp add: jget_def [of "_ # _"] jget_update) (simp add: jget_def)
  qed
qed

lemma mergeTool_absent:
  "\<not> hasKey tool ''function'' \<Longrightarrow> jget (mergeTool target tool) ''function'' = jget target ''function''"
  by (induction target tool rule: mergeTool.induct) (auto simp: hasKey_def jget_update split: if_splits)

lemma mergeTool_args:
  "uniqueKeys tool \<Longrightarrow> uniqueKeys (objVal (jget tool ''function'')) \<Longrightarrow>
     funArgs (mergeTool target tool) = funArgs target @ funArgs tool"
proof (induction target tool rule: mergeTool.induct)
  case (1 target)
  then show ?case by (simp add: funArgs_def)
next
  case (2 target name v tool)
  have u: "uniqueKeys tool" using "2.prems"(1) by (simp add: uniqueKeys_def)
  show ?case
  proof (cases "name = ''function''")
    case True
    then have "\<not> hasKey tool ''function''"
      using "2.prems"(1) by (auto simp: uniqueKeys_def hasKey_def map_of_eq_None_iff)
    moreover have "uniqueKeys (objVal v)" using "2.prems"(2) True by (simp add: jget_def)
    ultimately show ?thesis
      using True mergeTool_absent
      by (simp add: funArgs_def mergeNativeFunction_args) (simp add: jget_def)
  next
    case False
    then have f: "jget ((name, v) # tool) ''function'' = jget tool ''function''"
      by (simp add: jget_def)
    with False "2.IH" u "2.prems"(2) show ?thesis
      by (auto simp: funArgs_def jget_update)
  qed
qed

lemma argsAt_grow [simp]: "argsAt t (growTools (int i) tools) = argsAt t tools"
  by (auto simp: argsAt_def growTools_int nth_append funArgs_def)

lemma argsAt_set:
  "i < length tools \<Longrightarrow> argsAt t (tools[i := JObj tool]) = (if t = i then funArgs tool else argsAt t tools)"
  by (auto simp: argsAt_def)

definition part_ok :: "json \<Rightarrow> bool" where
  "part_ok part \<longleftrightarrow> uniqueKeys (objVal part) \<and> uniqueKeys (objVal (jget (objVal part) ''function''))"

lemma argsAt_merged:
  assumes "part_ok (JObj tool)"
  shows "argsAt t ((growTools (int i) tools)[i := JObj (mergeTool (objVal (growTools (int i) tools ! i)) tool)]) =
    argsAt t tools @ (if t = i then funArgs tool else [])"
proof -
  have "funArgs (mergeTool (objVal (growTools (int i) tools ! i)) tool) =
      argsAt i (growTools (int i) tools) @ funArgs tool"
    using mergeTool_args assms length_growTools [of i tools] by (simp add: part_ok_def argsAt_def)
  then show ?thesis by (simp add: argsAt_set length_growTools)
qed

lemma mergeTools_args:
  "list_all isObj tools \<Longrightarrow> list_all part_ok parts \<Longrightarrow> mergeTools tools parts = Some tools' \<Longrightarrow>
     argsAt t tools' = argsAt t tools @ partsArgs t parts"
proof (induction parts arbitrary: tools)
  case Nil
  then show ?case by (simp add: partsArgs_def)
next
  case (Cons part parts)
  show ?case
  proof (cases "\<not> isObj part \<or> nativeIndex (jget (objVal part) ''index'') < 0 \<or>
      nativeIndex (jget (objVal part) ''index'') > 1024")
    case True
    then have "\<not> partAt t part" by (auto simp: partAt_def)
    then have "partsArgs t (part # parts) = partsArgs t parts" by (simp add: partsArgs_def)
    with Cons True mergeTools_skip [OF True] show ?thesis by auto
  next
    case False
    then obtain tool where p: "part = JObj tool" by (auto elim: isObjE)
    from False p have r: "0 \<le> nativeIndex (jget tool ''index'')" "nativeIndex (jget tool ''index'') \<le> 1024"
      by simp_all
    let ?i = "nat (nativeIndex (jget tool ''index''))"
    let ?tools = "(growTools (int ?i) tools)[?i := JObj (mergeTool (objVal (growTools (int ?i) tools ! ?i)) tool)]"
    have "argsAt t tools' = argsAt t ?tools @ partsArgs t parts"
      using Cons.IH [OF mergeTools_step(2) [OF Cons.prems(1) r]] Cons.prems(2,3)
      unfolding p mergeTools_step(1) [OF Cons.prems(1) r] by simp
    moreover have "argsAt t ?tools = argsAt t tools @ (if t = ?i then funArgs tool else [])"
      using Cons.prems(2) p by (intro argsAt_merged) (simp add: part_ok_def)
    moreover have "partAt t part \<longleftrightarrow> t = ?i" using r p by (auto simp: partAt_def)
    ultimately show ?thesis by (simp add: partsArgs_def p)
  qed
qed

lemma wf_arrVal: "wf_json v \<Longrightarrow> list_all wf_json (arrVal v)"
  by (cases v) auto

lemma wf_jget: "wf_json (JObj m) \<Longrightarrow> wf_json (jget m k)"
  by (auto simp: jget_def list_all_iff dest: map_of_SomeD split: option.splits)

lemma wf_objVal: "wf_json v \<Longrightarrow> wf_json (JObj (objVal v))"
  by (cases v) (auto simp: uniqueKeys_def)

lemma wf_part_ok: "wf_json part \<Longrightarrow> part_ok part"
  using wf_objVal [of part] wf_objVal [OF wf_jget, of "objVal part" "''function''"]
  by (simp add: part_ok_def)

lemma mergeNativeDelta_args:
  assumes "message_ok m" "mergeNativeDelta m d = Some m'" "wf_json (JObj d)"
  shows "argsAt t (arrVal (jget m' ''tool_calls'')) =
    argsAt t (arrVal (jget m ''tool_calls'')) @ partsArgs t (arrVal (jget d ''tool_calls''))"
proof (cases "map_of d ''tool_calls''")
  case None
  then have "\<not> hasKey d ''tool_calls''" by (simp add: hasKey_def)
  with mergeNativeDelta_absent [OF assms(2) this] show ?thesis
    by (simp add: not_hasKey_jget partsArgs_def)
next
  case (Some v)
  have u: "uniqueKeys d" using assms(3) by simp
  obtain m0 m1 where m: "jget m0 ''tool_calls'' = jget m ''tool_calls''"
    "mergeKey ''tool_calls'' v m0 = Some m1" "jget m' ''tool_calls'' = jget m1 ''tool_calls''"
    using mergeNativeDelta_at [OF assms(2) u Some] by blast
  from m(2) obtain tools where
    t: "mergeTools (arrVal (jget m0 ''tool_calls'')) (arrVal v) = Some tools"
    "m1 = jset ''tool_calls'' (sliceValue tools) m0"
    by (auto simp: mergeKey_def textKeys_def split: option.splits)
  have v: "jget d ''tool_calls'' = v" using Some by (simp add: jget_def)
  have "wf_json v" using wf_jget [OF assms(3), of "''tool_calls''"] v by simp
  then have "list_all part_ok (arrVal v)"
    using wf_arrVal wf_part_ok by (fastforce simp: list_all_iff)
  with mergeTools_args [OF _ this t(1)] assms(1) m(1,3) v t(2) show ?thesis
    by (simp add: message_ok_def)
qed

subsection \<open>Accumulated texts\<close>

definition deltasAt :: "int \<Rightarrow> json list \<Rightarrow> obj list" where
  "deltasAt i items =
     map (\<lambda>item. objVal (jget (objVal item) ''delta''))
       (filter (\<lambda>item. isObj item \<and> choiceIndex (objVal item) = i \<and>
          isObj (jget (objVal item) ''delta'')) items)"

definition chunkDeltas :: "int \<Rightarrow> obj list \<Rightarrow> obj list" where
  "chunkDeltas i chunks = concat (map (\<lambda>chunk. deltasAt i (arrVal (jget chunk ''choices''))) chunks)"

fun addChunks :: "obj list \<Rightarrow> nativeCompletion \<Rightarrow> nativeCompletion option" where
  "addChunks [] c = Some c"
| "addChunks (chunk # chunks) c =
     (case addChunk chunk c of None \<Rightarrow> None | Some c' \<Rightarrow> addChunks chunks c')"

definition messageAt :: "int \<Rightarrow> nativeCompletion \<Rightarrow> obj" where
  "messageAt i c = messageOf (choiceAt i (compChoices c))"

lemma choiceAt_update: "choiceAt i (AList.update j out choices) = (if i = j then out else choiceAt i choices)"
  by (simp add: choiceAt_def update_conv')

locale accumulator =
  fixes read :: "obj \<Rightarrow> string"
    and part :: "obj \<Rightarrow> string"
    and good :: "obj \<Rightarrow> bool"
  assumes extend: "message_ok m \<Longrightarrow> good d \<Longrightarrow> mergeNativeDelta m d = Some m' \<Longrightarrow>
      read m' = read m @ part d"
begin

lemma addChoice_read:
  assumes "choices_ok choices" "addChoice choice choices = Some choices'"
    and "\<forall>d\<in>set (deltasAt i [JObj choice]). good d"
  shows "read (messageOf (choiceAt i choices')) =
    read (messageOf (choiceAt i choices)) @ concat (map part (deltasAt i [JObj choice]))"
proof -
  obtain out where o:
    "addChoice choice choices = Some (AList.update (choiceIndex choice) out choices)"
    "case jget choice ''delta'' of
       JObj d \<Rightarrow> mergeNativeDelta (messageOf (choiceAt (choiceIndex choice) choices)) d =
         Some (messageOf out)
     | _ \<Rightarrow> messageOf out = messageOf (choiceAt (choiceIndex choice) choices)"
    using addChoice_spec [OF assms(1)] by blast
  have ok: "message_ok (messageOf (choiceAt (choiceIndex choice) choices))"
    using choiceAt_ok [OF assms(1)] by (simp add: choice_ok_def)
  have c': "choices' = AList.update (choiceIndex choice) out choices" using o(1) assms(2) by simp
  show ?thesis
  proof (cases "choiceIndex choice = i")
    case False
    then show ?thesis by (simp add: c' choiceAt_update deltasAt_def)
  next
    case True
    show ?thesis
    proof (cases "isObj (jget choice ''delta'')")
      case obj: True
      then obtain d where d: "jget choice ''delta'' = JObj d" by (rule isObjE)
      then have da: "deltasAt i [JObj choice] = [d]" using True by (simp add: deltasAt_def)
      have "read (messageOf out) = read (messageOf (choiceAt (choiceIndex choice) choices)) @ part d"
        using extend [OF ok] o(2) assms(3) d da by simp
      with True da show ?thesis by (simp add: c' choiceAt_update)
    next
      case no: False
      then have "messageOf out = messageOf (choiceAt (choiceIndex choice) choices)"
        using o(2) by (cases "jget choice ''delta''") auto
      with True no show ?thesis by (simp add: c' choiceAt_update deltasAt_def)
    qed
  qed
qed

lemma addChoices_read:
  assumes "choices_ok choices" "addChoices items choices = Some choices'"
    and "\<forall>d\<in>set (deltasAt i items). good d"
  shows "read (messageOf (choiceAt i choices')) =
    read (messageOf (choiceAt i choices)) @ concat (map part (deltasAt i items))"
  using assms
proof (induction items arbitrary: choices)
  case Nil
  then show ?case by (simp add: deltasAt_def)
next
  case (Cons item items)
  have app: "deltasAt i (item # items) = deltasAt i [item] @ deltasAt i items"
    by (simp add: deltasAt_def)
  show ?case
  proof (cases "isObj item")
    case True
    then obtain choice where c: "item = JObj choice" by (rule isObjE)
    then obtain choices1 where c1: "addChoice choice choices = Some choices1"
      "addChoices items choices1 = Some choices'"
      using Cons.prems(2) by (auto split: option.splits)
    obtain out where "choices1 = AList.update (choiceIndex choice) out choices" "choice_ok out"
      using addChoice_spec [OF Cons.prems(1), of choice] c1(1) by (metis option.inject)
    then have ok1: "choices_ok choices1" using choices_ok_update [OF Cons.prems(1)] by simp
    show ?thesis
      using Cons.IH [OF ok1 c1(2)] addChoice_read [OF Cons.prems(1) c1(1)] Cons.prems(3) app c by simp
  next
    case False
    then have "deltasAt i [item] = []" by (simp add: deltasAt_def)
    with False Cons app show ?thesis by (cases item) auto
  qed
qed

lemma addChunks_read:
  assumes "completion_ok c" "addChunks chunks c = Some c'"
    and "\<forall>d\<in>set (chunkDeltas i chunks). good d"
  shows "read (messageAt i c') = read (messageAt i c) @ concat (map part (chunkDeltas i chunks))"
  using assms
proof (induction chunks arbitrary: c)
  case Nil
  then show ?case by (simp add: chunkDeltas_def)
next
  case (Cons chunk chunks)
  then obtain c1 where c1: "addChunk chunk c = Some c1" "addChunks chunks c1 = Some c'"
    by (auto split: option.splits)
  then obtain choices1 where a: "addChoices (arrVal (jget chunk ''choices'')) (compChoices c) = Some choices1"
    "compChoices c1 = choices1"
    by (auto simp: addChunk_def split: option.splits)
  have ok1: "completion_ok c1" using addChunk_total [OF Cons.prems(1), of chunk] c1(1) by auto
  show ?case
    using Cons.IH [OF ok1 c1(2)] Cons.prems(1,3) addChoices_read [OF _ a(1), of i] a(2)
    by (simp add: chunkDeltas_def messageAt_def completion_ok_def)
qed

end

text \<open>A text field of the message: the deltas hold a string for it, or nothing.\<close>

definition textDelta :: "string \<Rightarrow> obj \<Rightarrow> bool" where
  "textDelta k d \<longleftrightarrow> k \<in> set textKeys \<and> uniqueKeys d \<and> (jget d k = JNull \<or> isStr (jget d k))"

interpretation texts: accumulator "\<lambda>m. strVal (jget m k)" "\<lambda>d. strVal (jget d k)" "textDelta k" for k
  by unfold_locales (simp add: textDelta_def mergeNativeDelta_text)

text \<open>The arguments of the tool call with index \<open>t\<close>.\<close>

definition toolArguments :: "nat \<Rightarrow> obj \<Rightarrow> string" where
  "toolArguments t m = argsAt t (arrVal (jget m ''tool_calls''))"

definition deltaArguments :: "nat \<Rightarrow> obj \<Rightarrow> string" where
  "deltaArguments t d = partsArgs t (arrVal (jget d ''tool_calls''))"

interpretation tool_args: accumulator "toolArguments t" "deltaArguments t" "\<lambda>d. wf_json (JObj d)" for t
  by unfold_locales (simp add: toolArguments_def deltaArguments_def mergeNativeDelta_args)

lemma addChunks_total:
  "completion_ok c \<Longrightarrow> \<exists>c'. addChunks chunks c = Some c' \<and> completion_ok c'"
proof (induction chunks arbitrary: c)
  case Nil
  then show ?case by simp
next
  case (Cons chunk chunks)
  then show ?case using addChunk_total [OF Cons.prems, of chunk] by auto
qed

lemma messageAt_new: "messageAt i newCompletion = [(''role'', JStr ''assistant''), (''content'', JStr [])]"
  by (simp add: messageAt_def newCompletion_def choiceAt_def newChoice_def messageOf_def jget_def)

end
