(* ===== verification/Native_Properties.thy ===== *)
theory Native_Properties
  imports Session_Properties Execute Auth_Props Sse_Props Completion_Props
begin

section \<open>Properties of the native executor's parts\<close>

text \<open>
  The theorems on credentials, the registry of running executions, the event reader, the
  merged completion and the redaction of errors.
\<close>

subsection \<open>Credentials\<close>

definition sampleCredential :: obj where
  "sampleCredential =
     [(''type'', JStr ''opencode-enhancer''), (''api_key'', JStr '' k3y ''),
      (''headers'', JObj [(''X-Team'', JStr ''a''), (''x-opencode-request'', JStr ''b'')]),
      (''models'', JArr [JObj [(''name'', JStr ''mimo-free''), (''alias'', JStr ''mimo'')]])]"

definition credentialCodec :: codec where
  "credentialCodec =
     sampleCodec\<lparr> unmarshal := (\<lambda>b. if b = ''cred'' then Some (JObj sampleCredential) else None) \<rparr>"

definition sampleAuth :: nativeAuth where
  "sampleAuth =
    \<lparr> AuthType = ''opencode-enhancer'', APIKey = ''k3y'', BaseURL = nativeBaseURL, ProxyURL = [],
      AuthPrefix = [], AuthLabel = [], Disabled = False, AuthHeaders = [(''X-Team'', ''a'')],
      AuthModels = [\<lparr> ModelName = ''mimo-free'', ModelAlias = ''mimo'' \<rparr>] \<rparr>"

lemma sampleAuth_decoded:
  "decodeNativeAuth credentialCodec (\<lambda>_. None) DefaultConfig ''cred'' = Inr sampleAuth"
  by code_simp

text \<open>
  C19. A credential that is accepted is sound: its type and key are there, its endpoint is the
  official one, its models have visible names, are not explicitly paid and not Responses-only,
  and none of its headers can smuggle in a line break or replace the request header.
\<close>

theorem credential_sound:
  assumes "decodeNativeAuth J urlp cfg raw = Inr auth"
  shows "credentialOK urlp (CFreeTier cfg) auth \<and>
    (\<forall>(n, v)\<in>set (AuthHeaders auth). headerSafe n \<and> headerSafe v)"
  using decodeNativeAuth_credentialOK [OF assms] validNativeHeader_safe
  by (auto simp: credentialOK_def)

lemma credential_sound_witness: "credentialOK (\<lambda>_. None) (CFreeTier DefaultConfig) sampleAuth"
  using credential_sound [OF sampleAuth_decoded] by blast

text \<open>
  C20. Publication and execution agree: \<open>model.for_auth\<close> publishes each id once, and an id is
  published for a model exactly when the executor's lookup, which takes the credential's prefix off
  the requested model, finds that model for the id behind the prefix; and for the bare id,
  unless that begins with the prefix itself. The prefix is the credential's, without slashes at
  its ends, and a slash (only a slash, when the credential has none). The order of the models in
  the credential has no say in it.
\<close>

theorem published_models_execute:
  assumes "decodeNativeAuth J urlp cfg raw = Inr auth"
  shows "let pre = trimBothSlashes (AuthPrefix auth) @ ''/'';
      lookup = (\<lambda>model. selectModel (requestedModel auth model) (AuthModels auth)) in
    distinct (map fst (publishedModels (AuthModels auth))) \<and>
    (\<forall>i n. (i, n) \<in> set (publishedModels (AuthModels auth)) \<longleftrightarrow> n \<noteq> [] \<and> lookup (pre @ i) = n) \<and>
    (\<forall>i n. \<not> prefix pre i \<longrightarrow>
       (i, n) \<in> set (publishedModels (AuthModels auth)) \<longleftrightarrow> n \<noteq> [] \<and> lookup i = n) \<and>
    (\<forall>ms i. set ms = set (AuthModels auth) \<longrightarrow> selectModel i ms = selectModel i (AuthModels auth))"
proof -
  let ?pre = "trimBothSlashes (AuthPrefix auth) @ ''/''" and ?ms = "AuthModels auth"
  have u: "unambiguous ?ms" by (rule decodeNativeAuth_unambiguous [OF assms])
  have "distinct (map fst (publishedModels ?ms))"
    unfolding publishedModels_def by (rule publishIDs_distinct)
  moreover have "(i, n) \<in> set (publishedModels ?ms) \<longleftrightarrow>
      n \<noteq> [] \<and> selectModel (requestedModel auth (?pre @ i)) ?ms = n" for i n
    unfolding requestedModel_prefix by (rule publishedModels_iff [OF u])
  moreover have "(i, n) \<in> set (publishedModels ?ms) \<longleftrightarrow>
      n \<noteq> [] \<and> selectModel (requestedModel auth i) ?ms = n" if "\<not> prefix ?pre i" for i n
    unfolding requestedModel_bare [OF that] by (rule publishedModels_iff [OF u])
  moreover have "selectModel i ms = selectModel i ?ms" if "set ms = set ?ms" for ms i
    using selectModel_order [OF u that [symmetric]] by (rule sym)
  ultimately show ?thesis unfolding Let_def by blast
qed

lemma published_models_execute_witness:
  "selectModel (requestedModel sampleAuth ''mimo'') (AuthModels sampleAuth) = ''mimo-free''"
proof -
  have "(''mimo'', ''mimo-free'') \<in> set (publishedModels (AuthModels sampleAuth))"
    by (simp add: sampleAuth_def publishedModels_def modelIDs_def)
  moreover have "\<not> prefix (trimBothSlashes (AuthPrefix sampleAuth) @ ''/'') ''mimo''"
    by (simp add: sampleAuth_def trimBothSlashes_def trimSlashes_def)
  ultimately show ?thesis
    using published_models_execute [OF sampleAuth_decoded] unfolding Let_def by blast
qed

text \<open>A bare id that begins with the prefix is published and not found.\<close>

lemma published_behind_prefix:
  "let auth = sampleAuth\<lparr> AuthPrefix := ''team'', AuthModels := [\<lparr> ModelName = ''team/m'', ModelAlias = [] \<rparr>] \<rparr> in
     publishedModels (AuthModels auth) = [(''team/m'', ''team/m'')] \<and>
     selectModel (requestedModel auth ''team/m'') (AuthModels auth) = []"
  by code_simp

subsection \<open>Running executions\<close>

definition oneRunning :: execs where
  "oneRunning = toPhase 0 Running (registerExec ''r-1'' 0)
     (toPhase 0 Created (\<lambda>r. r\<lparr> nextExec := Suc 0 \<rparr>) emptyExecs
        \<lparr> owner := (owner emptyExecs)(0 := ''r-1'') \<rparr>)"

lemma oneRunning_reachable: "reachable oneRunning"
proof -
  let ?s = "toPhase 0 Created (\<lambda>r. r\<lparr> nextExec := Suc 0 \<rparr>) emptyExecs
    \<lparr> owner := (owner emptyExecs)(0 := ''r-1'') \<rparr>"
  have "step emptyExecs ?s" by (rule create) (simp add: emptyExecs_def emptyRegistry_def)
  then have r: "reachable ?s" by (rule advance [OF start])
  have "step ?s (toPhase 0 Running (registerExec (owner ?s 0) 0) ?s)"
    by (rule register) (simp_all add: toPhase_def)
  with r show ?thesis unfolding oneRunning_def by (auto intro: advance)
qed

text \<open>
  C18. Shutdown, quiesce and reconfiguration stop what runs: in every reachable state
  \<open>cancelNativeRequests\<close> leaves no entry, and every registered execution is cancelled.
\<close>

theorem cancel_all_stops:
  assumes "reachable s"
  shows "nativeRequests (cancelNativeRequests (reg s)) = [] \<and>
    (\<forall>h < nextExec (reg s). phaseOf s h \<noteq> Created \<longrightarrow> h \<in> cancelled (cancelNativeRequests (reg s)))"
proof -
  have ok: "execs_ok s" using reachable_ok [OF assms] by blast
  have "h \<in> cancelled (cancelNativeRequests (reg s))"
    if h: "h < nextExec (reg s)" "phaseOf s h \<noteq> Created" for h
  proof (cases "phaseOf s h = Running")
    case True
    then have "map_of (nativeRequests (reg s)) (owner s h) = Some h \<or> h \<in> cancelled (reg s)"
      using execs_okD(2) [OF ok h(1)] by blast
    then show ?thesis by (auto simp: cancelNativeRequests_eq dest!: map_of_SomeD) force
  next
    case False
    with h(2) have "phaseOf s h = Cleaning \<or> phaseOf s h = Finished" by (cases "phaseOf s h") auto
    then show ?thesis using execs_okD(3) [OF ok h(1)] by (simp add: cancelNativeRequests_eq)
  qed
  then show ?thesis by (simp add: cancelNativeRequests_eq)
qed

lemma cancel_all_stops_witness: "0 \<in> cancelled (cancelNativeRequests (reg oneRunning))"
  using cancel_all_stops [OF oneRunning_reachable]
  by (simp add: oneRunning_def toPhase_def emptyExecs_def emptyRegistry_def)

text \<open>
  C17. The registry is exact, however the calls interleave: an execution that is registered and
  running can be cancelled through the registry under its own id, unless it has been
  cancelled already; a finished one is cancelled and has no entry left, now and in every later
  state, so the registry does not grow with the number of requests served.
\<close>

theorem registry_exact:
  assumes "reachable s" "h < nextExec (reg s)"
  shows "(phaseOf s h = Running \<longrightarrow>
      map_of (nativeRequests (reg s)) (owner s h) = Some h \<or> h \<in> cancelled (reg s)) \<and>
    (phaseOf s h = Finished \<and> step\<^sup>*\<^sup>* s s' \<longrightarrow>
      h \<in> cancelled (reg s') \<and> (\<forall>i. map_of (nativeRequests (reg s')) i \<noteq> Some h))"
proof -
  have ok: "execs_ok s" using reachable_ok [OF assms(1)] by blast
  have "h \<in> cancelled (reg s') \<and> (\<forall>i. map_of (nativeRequests (reg s')) i \<noteq> Some h)"
    if f: "phaseOf s h = Finished" and later: "step\<^sup>*\<^sup>* s s'"
  proof -
    have ok': "execs_ok s'" using reachable_ok [OF reachable_steps [OF later assms(1)]] by blast
    have "phaseOf s' h = Finished" "h < nextExec (reg s')"
      using steps_forward [OF later assms(2)] f by simp_all
    then show ?thesis using execs_okD(1) [OF ok', of _ h] execs_okD(3) [OF ok', of h] by fastforce
  qed
  then show ?thesis using execs_okD(2) [OF ok assms(2)] by blast
qed

definition oneFinished :: execs where
  "oneFinished = toPhase 0 Finished (releaseExec ''r-1'' 0) (toPhase 0 Cleaning (cancelExec 0) oneRunning)"

lemma oneFinished_reachable: "reachable oneFinished"
proof -
  let ?s = "toPhase 0 Cleaning (cancelExec 0) oneRunning"
  have o: "owner oneRunning 0 = ''r-1''" by (simp add: oneRunning_def)
  have "step oneRunning ?s"
    by (rule cleanup_cancel) (simp_all add: oneRunning_def toPhase_def emptyExecs_def emptyRegistry_def registerExec_def Let_def)
  then have r: "reachable ?s" by (rule advance [OF oneRunning_reachable])
  have "step ?s (toPhase 0 Finished (releaseExec (owner ?s 0) 0) ?s)"
    by (rule cleanup_release) (simp_all add: oneRunning_def toPhase_def emptyExecs_def emptyRegistry_def registerExec_def Let_def)
  with r o show ?thesis unfolding oneFinished_def by (auto intro: advance)
qed

lemma registry_exact_witness:
  "map_of (nativeRequests (reg oneRunning)) ''r-1'' = Some 0 \<and>
   map_of (nativeRequests (reg oneFinished)) ''r-1'' \<noteq> Some 0"
proof -
  have r: "0 < nextExec (reg oneRunning)" "phaseOf oneRunning 0 = Running" "owner oneRunning 0 = ''r-1''"
    "0 \<notin> cancelled (reg oneRunning)"
    by (simp_all add: oneRunning_def toPhase_def emptyExecs_def emptyRegistry_def registerExec_def Let_def)
  have f: "0 < nextExec (reg oneFinished)" "phaseOf oneFinished 0 = Finished"
    by (simp_all add: oneFinished_def oneRunning_def toPhase_def emptyExecs_def emptyRegistry_def
        registerExec_def releaseExec_def Let_def)
  show ?thesis
    using registry_exact [OF oneRunning_reachable r(1)]
      registry_exact [OF oneFinished_reachable f(1), of oneFinished] r f
    by simp
qed

text \<open>
  A clean-up that comes late does no harm: when the id has been taken over by a newer
  execution, cleaning up the older one leaves the newer one registered and running.
\<close>

lemma late_cleanup_harmless:
  assumes "map_of (nativeRequests r) i = Some new" "new \<noteq> old"
  shows "nativeRequests (cleanupExec i old r) = nativeRequests r \<and>
    (new \<in> cancelled (cleanupExec i old r) \<longleftrightarrow> new \<in> cancelled r)"
  using assms cleanup_late [of r i old] by (simp add: cleanupExec_def)

subsection \<open>Server-sent events\<close>

text \<open>
  C10. Whatever the upstream sends, the callback of the reader only sees payloads that are
  \<open>[DONE]\<close> or decode to an event without an error, nothing after \<open>[DONE]\<close>, and the reader
  reports success only when \<open>[DONE]\<close> was the last one: a truncated stream is an error.
  (\<open>logged\<close> notes the calls of the callback, and does not change the outcome.)
\<close>

theorem stream_events_checked:
  assumes "readNativeSSE J (logged emit) body ([], u) = (err, evs, u')"
  shows "readNativeSSE J emit body u = (err, u') \<and>
    (\<forall>(f, d)\<in>set evs. isDone d \<or> eventError J d = None) \<and>
    (\<forall>(f, d)\<in>set (butlast evs). \<not> isDone d) \<and>
    (err = None \<longrightarrow> evs \<noteq> [] \<and> isDone (snd (last evs)))"
proof -
  have "sse_end J err evs" by (rule readNativeSSE_logged [OF assms])
  then have "\<forall>(f, d)\<in>set evs. isDone d \<or> eventError J d = None"
    "\<forall>(f, d)\<in>set (butlast evs). \<not> isDone d" "err = None \<longrightarrow> evs \<noteq> [] \<and> isDone (snd (last evs))"
    unfolding sse_end_def acceptable_def by auto
  moreover have "readNativeSSE J emit body u = (err, u')"
    using readNativeSSE_plain [of J emit body u] assms by simp
  ultimately show ?thesis by blast
qed

lemma stream_events_checked_witness:
  "fst (readNativeSSE sampleCodec (\<lambda>f d n. (None, Suc n)) ([], None) 0) \<noteq> None"
proof -
  obtain err evs u' where
    r: "readNativeSSE sampleCodec (logged (\<lambda>f d n. (None, Suc n))) ([], None) ([], 0) = (err, evs, u')"
    by (metis prod_cases3)
  have "evs = []"
    using r by (simp add: readNativeSSE_def scanLoop.simps nextLine_def finishScan_def)
  with stream_events_checked [OF r] show ?thesis by auto
qed

text \<open>
  C11. Reading back a stream of events gives the events: the callback is called once for each
  payload, in order, with the frame as it was sent, and what follows \<open>[DONE]\<close> is not read.
\<close>

theorem stream_round_trip:
  assumes "\<forall>p\<in>set ps. renderable p \<and> \<not> isDone p \<and> eventError J p = None"
  shows "readNativeSSE J emit
      (concat (map renderEvent ps) @ renderEvent ''[DONE]'' @ rest, readErr) k =
    emitAll emit (ps @ [''[DONE]'']) k"
  by (rule readNativeSSE_events [OF assms])

definition eventCodec :: codec where
  "eventCodec = sampleCodec
    \<lparr> rawMap := (\<lambda>b. if b = ''{}'' then Some [] else None),
      unmarshal := (\<lambda>b. if b = ''{}'' then Some (JObj [(''choices'', JArr [JObj
        [(''index'', JNum 0), (''delta'', JObj [(''content'', JStr ''O'')])]])]) else None) \<rparr>"

lemma event_renderable: "renderable ''{}'' \<and> \<not> isDone ''{}'' \<and> eventError eventCodec ''{}'' = None"
proof -
  have "TrimSpace ''{}'' = ''{}''" by (rule TrimSpace_visible) (simp_all add: visibleByte_def)
  then show ?thesis by (simp add: renderable_def maxFrame_def isDone_def eventError_def eventCodec_def)
qed

lemma stream_round_trip_witness:
  "readNativeSSE eventCodec (\<lambda>f d ds. (None, ds @ [d]))
     (renderEvent ''{}'' @ renderEvent ''[DONE]'' @ ''junk'', None) [] = (None, [''{}'', ''[DONE]''])"
  using stream_round_trip [of "[''{}'']" eventCodec "\<lambda>f d ds. (None, ds @ [d])" "''junk''" None "[]"]
    event_renderable
  by simp

text \<open>
  C12. The reader ends, after at most one turn per line and one more: with any number of turns above
  the number of lines of the body its loop runs to its end, whatever the lines hold, whatever the
  callback answers and however the connection ends, and the result is the reader's.
\<close>

theorem reader_terminates:
  assumes "lineCount body < n"
  shows "scanTurns n J emit readErr body \<lparr> sseFrame = [], sseData = [], sseDone = False, sseSink = sink \<rparr> =
    Some (readNativeSSE J emit (body, readErr) sink)"
  by (simp add: scanTurns_enough [OF assms] readNativeSSE_def)

lemma reader_terminates_witness:
  "scanTurns 2 eventCodec (\<lambda>f d ds. (None, ds @ [d])) None ''data: {}''
     \<lparr> sseFrame = [], sseData = [], sseDone = False, sseSink = [] \<rparr> =
   Some (readNativeSSE eventCodec (\<lambda>f d ds. (None, ds @ [d])) (''data: {}'', None) [])"
  by (rule reader_terminates) (simp add: lineCount_def)

subsection \<open>Merged completions\<close>

lemma addChunk_size:
  "addChunk chunk (c\<lparr> compSize := n \<rparr>) = map_option (\<lambda>c. c\<lparr> compSize := n \<rparr>) (addChunk chunk c)"
  by (simp add: addChunk_def split: option.splits)

lemma addChunk_keeps_size: "addChunk chunk c = Some c' \<Longrightarrow> compSize c' = compSize c"
  by (auto simp: addChunk_def split: option.splits)

lemma emitAll_completion:
  assumes "\<forall>p\<in>set ps. \<not> isDone p \<and> unmarshalMap J p = Root (docOf p)"
    and "compSize c + (\<Sum>p\<leftarrow>ps. length p) \<le> maxCompletion"
    and "addChunks (map docOf ps) c = Some c'"
  shows "emitAll (completionEmit J) (ps @ [''[DONE]'']) (Added c) =
    (None, Added (c'\<lparr> compSize := compSize c + (\<Sum>p\<leftarrow>ps. length p) \<rparr>))"
  using assms
proof (induction ps arbitrary: c c')
  case Nil
  then show ?case by (simp add: completionEmit_def addData_def DONE_done)
next
  case (Cons p ps)
  then obtain c1 where c1: "addChunk (docOf p) c = Some c1" "addChunks (map docOf ps) c1 = Some c'"
    by (auto split: option.splits)
  have size: "compSize c1 = compSize c" by (rule addChunk_keeps_size [OF c1(1)])
  let ?c2 = "c1\<lparr> compSize := compSize c + length p \<rparr>"
  have "addData J p c = Added ?c2"
    using Cons.prems(1,2) c1(1) by (simp add: addData_def addChunk_size Let_def)
  then have e: "completionEmit J (renderEvent p) p (Added c) = (None, Added ?c2)"
    by (simp add: completionEmit_def)
  have "addChunks (map docOf ps) ?c2 = Some (c'\<lparr> compSize := compSize ?c2 \<rparr>)"
    using c1(2)
  proof (induction ps arbitrary: c1)
    case Nil
    then show ?case by simp
  next
    case (Cons q qs)
    then show ?case by (auto simp: addChunk_size split: option.splits)
  qed
  from Cons.IH [OF _ _ this] Cons.prems(1,2) e show ?case by (simp add: add.assoc)
qed

text \<open>
  C13. A streamed completion is put together completely: for a stream of well-formed chunks of at
  most 64 MiB that ends in \<open>[DONE]\<close>, the reader with the completion as its sink succeeds, and
  each text of the message of a choice (content, reasoning, refusal) is the concatenation of
  the pieces in the chunks of that choice, in order.
\<close>

theorem completion_text_complete:
  assumes "\<forall>p\<in>set ps. renderable p \<and> \<not> isDone p \<and> eventError J p = None \<and>
      unmarshalMap J p = Root (docOf p)"
    and "(\<Sum>p\<leftarrow>ps. length p) \<le> maxCompletion" "k \<in> set textKeys"
    and "\<forall>d\<in>set (chunkDeltas i (map docOf ps)). textDelta k d"
  shows "\<exists>c. readNativeSSE J (completionEmit J)
        (concat (map renderEvent ps) @ renderEvent ''[DONE]'' @ rest, readErr) (Added newCompletion) =
      (None, Added c) \<and>
    strVal (jget (messageAt i c) k) =
      concat (map (\<lambda>d. strVal (jget d k)) (chunkDeltas i (map docOf ps)))"
proof -
  obtain c where c: "addChunks (map docOf ps) newCompletion = Some c"
    using addChunks_total [OF newCompletion_ok] by blast
  let ?c = "c\<lparr> compSize := (\<Sum>p\<leftarrow>ps. length p) \<rparr>"
  have "strVal (jget (messageAt i newCompletion) k) = []"
    using assms(3) by (auto simp: messageAt_new jget_def textKeys_def)
  then have "strVal (jget (messageAt i c) k) =
      concat (map (\<lambda>d. strVal (jget d k)) (chunkDeltas i (map docOf ps)))"
    using texts.addChunks_read [OF newCompletion_ok c assms(4)] by simp
  moreover have "messageAt i ?c = messageAt i c" by (simp add: messageAt_def)
  moreover have "readNativeSSE J (completionEmit J)
      (concat (map renderEvent ps) @ renderEvent ''[DONE]'' @ rest, readErr) (Added newCompletion) =
      (None, Added ?c)"
    using readNativeSSE_events [of ps J "completionEmit J" rest readErr "Added newCompletion"] assms(1,2)
      emitAll_completion [OF _ _ c, of J] by (simp add: newCompletion_def)
  ultimately show ?thesis by (intro exI [of _ ?c]) simp
qed

lemma completion_text_complete_witness:
  "\<exists>c. readNativeSSE eventCodec (completionEmit eventCodec)
      (renderEvent ''{}'' @ renderEvent ''{}'' @ renderEvent ''[DONE]'', None) (Added newCompletion) =
      (None, Added c) \<and> strVal (jget (messageAt 0 c) ''content'') = ''OO''"
proof -
  let ?doc = "[(''choices'', JArr [JObj
    [(''index'', JNum 0), (''delta'', JObj [(''content'', JStr ''O'')])]])]"
  have d: "chunkDeltas 0 [?doc, ?doc] = [[(''content'', JStr ''O'')], [(''content'', JStr ''O'')]]"
    by (simp add: chunkDeltas_def deltasAt_def choiceIndex_def nativeIndex_def truncateFloat_def jget_def)
  show ?thesis
    using completion_text_complete
      [where ps = "[''{}'', ''{}'']" and J = eventCodec and docOf = "\<lambda>p. ?doc" and i = 0
        and k = "''content''" and rest = "[]" and readErr = None] event_renderable
    by (simp add: d textDelta_def textKeys_def uniqueKeys_def maxCompletion_def unmarshalMap_Root
        jget_def [of "[(''content'', _)]"]) (simp add: eventCodec_def)
qed

text \<open>
  C14. So are tool calls: the arguments of the tool call with index \<open>t\<close> in the message of a
  choice are the concatenation of the fragments the chunks of that choice hold for \<open>t\<close>.
\<close>

theorem tool_arguments_complete:
  assumes "\<forall>d\<in>set (chunkDeltas i chunks). wf_json (JObj d)"
  shows "\<exists>c. addChunks chunks newCompletion = Some c \<and>
    toolArguments t (messageAt i c) = concat (map (deltaArguments t) (chunkDeltas i chunks))"
proof -
  obtain c where c: "addChunks chunks newCompletion = Some c"
    using addChunks_total [OF newCompletion_ok] by blast
  have "toolArguments t (messageAt i newCompletion) = []"
    by (simp add: messageAt_new toolArguments_def argsAt_def jget_def)
  with tool_args.addChunks_read [OF newCompletion_ok c assms] c show ?thesis by simp
qed

definition toolChunk :: "string \<Rightarrow> obj" where
  "toolChunk frag =
     [(''choices'', JArr [JObj [(''delta'', JObj [(''tool_calls'', JArr [JObj
        [(''index'', JNum 0), (''function'', JObj [(''arguments'', JStr frag)])]])])]])]"

lemma tool_arguments_complete_witness:
  "\<exists>c. addChunks [toolChunk ''{'', toolChunk ''}''] newCompletion = Some c \<and>
     toolArguments 0 (messageAt 0 c) = ''{}''"
proof -
  let ?d = "\<lambda>frag. [(''tool_calls'', JArr [JObj [(''index'', JNum 0),
    (''function'', JObj [(''arguments'', JStr frag)])]])]"
  have d: "chunkDeltas 0 [toolChunk ''{'', toolChunk ''}''] = [?d ''{'', ?d ''}'']"
    by (simp add: chunkDeltas_def deltasAt_def choiceIndex_def nativeIndex_def toolChunk_def jget_def)
  have "deltaArguments 0 (?d frag) = frag" for frag
    by (simp add: deltaArguments_def partsArgs_def partAt_def nativeIndex_def truncateFloat_def
        funArgs_def jget_def)
  with tool_arguments_complete [of 0 "[toolChunk ''{'', toolChunk ''}'']" 0] d show ?thesis
    by (simp add: uniqueKeys_def)
qed

text \<open>
  A later chunk with a null id or name clears what an earlier one set; every other member of a
  delta is guarded against that.
\<close>

lemma tool_null_clears:
  "mergeTools [JObj [(''id'', JStr ''call-1'')]] [JObj [(''index'', JNum 0), (''id'', JNull)]] =
     Some [JObj [(''id'', JNull)]]"
  by (simp add: nativeIndex_def truncateFloat_def jget_def growTools_def goIndex_def)

subsection \<open>Redaction\<close>

lemma ReplaceAll_prefix:
  "CHR ''['' \<notin> set t \<Longrightarrow> prefix t (ReplaceAll key ''[redacted]'' s) \<Longrightarrow> prefix t s"
proof (induction key "''[redacted]''" s arbitrary: t rule: ReplaceAll.induct)
  case (1 key s)
  show ?case
  proof (cases s)
    case Nil
    with "1.prems" show ?thesis by simp
  next
    case (Cons c s')
    show ?thesis
    proof (cases "key \<noteq> [] \<and> prefix key s")
      case True
      then have "ReplaceAll key ''[redacted]'' s =
          ''[redacted]'' @ ReplaceAll key ''[redacted]'' (drop (length key) s)"
        using Cons by (subst ReplaceAll.simps) simp
      with "1.prems" have "t = []" by (cases t) auto
      then show ?thesis by simp
    next
      case False
      then have "ReplaceAll key ''[redacted]'' s = c # ReplaceAll key ''[redacted]'' s'"
        using Cons by (subst ReplaceAll.simps) auto
      with "1.prems" "1.hyps"(2) False Cons show ?thesis by (cases t) auto
    qed
  qed
qed

lemma sublist_over_append:
  "sublist t (a @ b) \<Longrightarrow> sublist t a \<or> sublist t b \<or> (\<exists>x y. t = x @ y \<and> x \<noteq> [] \<and> suffix x a \<and> prefix y b)"
proof -
  assume "sublist t (a @ b)"
  then consider "sublist t a \<or> sublist t b" | x y where "t = x @ y" "suffix x a" "prefix y b"
    by (auto simp: sublist_append)
  then show ?thesis
  proof cases
    case (2 x y)
    then show ?thesis by (cases "x = []") (auto intro: prefix_imp_sublist)
  qed blast
qed

lemma ReplaceAll_clean:
  assumes "key \<noteq> []" "CHR ''['' \<notin> set key" "CHR '']'' \<notin> set key" "\<not> sublist key ''redacted''"
  shows "\<not> sublist key (ReplaceAll key ''[redacted]'' s)"
proof (induction s rule: length_induct)
  case (1 s)
  show ?case
  proof (cases s)
    case Nil
    then show ?thesis using assms(1) by simp
  next
    case (Cons c s')
    show ?thesis
    proof (cases "prefix key s")
      case True
      let ?rest = "ReplaceAll key ''[redacted]'' (drop (length key) s)"
      have eq: "ReplaceAll key ''[redacted]'' s = ''[redacted]'' @ ?rest"
        using True Cons assms(1) by (subst ReplaceAll.simps) simp
      have rest: "\<not> sublist key ?rest" using "1" Cons assms(1) by simp
      show ?thesis
      proof
        assume "sublist key (ReplaceAll key ''[redacted]'' s)"
        then have "sublist key ''[redacted]'' \<or>
            (\<exists>x y. key = x @ y \<and> x \<noteq> [] \<and> suffix x ''[redacted]'' \<and> prefix y ?rest)"
          unfolding eq using sublist_over_append rest by blast
        then show False
        proof
          assume k: "sublist key ''[redacted]''"
          obtain a b where ab: "''[redacted]'' = a @ key @ b" using k by (auto simp: sublist_def)
          have "sublist key ''redacted''"
          proof -
            from ab assms(1,2) obtain a' where a: "a = CHR ''['' # a'" by (cases a; cases key) auto
            from ab assms(1,3) have "b \<noteq> []"
              by (metis append_Nil2 last_append last_in_set last_ConsR list.distinct(1) last.simps)
            then obtain b' x where b: "b = b' @ [x]" by (metis rev_exhaust)
            from ab a b have "''redacted]'' = (a' @ key @ b') @ [x]" by simp
            then have "''redacted'' = a' @ key @ b'" by (metis append_butlast_last_id butlast_snoc
                butlast.simps list.distinct(1))
            then show ?thesis by (auto simp: sublist_def)
          qed
          with assms(4) show False by simp
        next
          assume "\<exists>x y. key = x @ y \<and> x \<noteq> [] \<and> suffix x ''[redacted]'' \<and> prefix y ?rest"
          then obtain x y where x: "key = x @ y" "x \<noteq> []" "suffix x ''[redacted]''" by blast
          then have "last x = CHR '']''" by (auto simp: suffix_def dest: arg_cong [of _ _ last])
          with x assms(3) show False by (metis UnCI last_in_set set_append)
        qed
      qed
    next
      case False
      have eq: "ReplaceAll key ''[redacted]'' s = c # ReplaceAll key ''[redacted]'' s'"
        using False Cons by (subst ReplaceAll.simps) auto
      show ?thesis
      proof
        assume "sublist key (ReplaceAll key ''[redacted]'' s)"
        then have "prefix key (ReplaceAll key ''[redacted]'' s) \<or>
            sublist key (ReplaceAll key ''[redacted]'' s')"
          unfolding eq by (simp add: sublist_Cons_right)
        with False ReplaceAll_prefix [OF assms(2)] "1" Cons show False by auto
      qed
    qed
  qed
qed

text \<open>
  C37. Redaction removes the key: an error text that passes through \<open>redactNativeError\<close> does not
  hold the API key anywhere, also not where a replacement meets its surroundings, as long as
  the key has no square brackets and is not itself a part of the word put in its place.
\<close>

theorem redaction_removes_key:
  assumes "key \<noteq> []" "CHR ''['' \<notin> set key" "CHR '']'' \<notin> set key" "\<not> sublist key ''redacted''"
  shows "\<not> sublist key (redactNativeError message key)"
  using ReplaceAll_clean [OF assms, of message] assms(1) by (simp add: redactNativeError_def)

lemma redaction_removes_key_witness:
  "\<not> sublist ''sk-1'' (redactNativeError ''bad key sk-1sk-1'' ''sk-1'')"
  by (rule redaction_removes_key) (simp_all add: sublist_def Cons_eq_append_conv)

end
