(* ===== verification/Dispatch.thy ===== *)
theory Dispatch
  imports Execute
begin

section \<open>The dispatcher\<close>

text \<open>
  plugin/plugin.go: the method dispatcher \<open>HandleCall\<close> and its handlers, with
  \<open>handleNative\<close> of plugin/native.go. A \<open>Plugin\<close> is the manager together with the package
  state of plugin/logging.go (\<open>Host\<close>) and the stream goroutines that have been started. The
  record \<open>abi\<close> decodes the payloads (\<open>json.Unmarshal\<close> into the request structs; its members
  are those of \<open>goAbi\<close> in the theory \<open>Abi\<close>, the properties hold for any), \<open>yaml\<close> is
  the argument of \<open>LoadConfig\<close>. An answer is an envelope, or the error of \<open>HandleCall\<close>, or a
  panic. \<open>m.cfg\<close> is read once at the start of a handler, as the code does.
\<close>

record ConfigField =
  FieldName :: string
  FieldType :: string
  FieldDescription :: string

record Registration =
  SchemaVersion :: int
  MetaName :: string
  MetaVersion :: string
  MetaAuthor :: string
  MetaRepository :: string
  ConfigFields :: "ConfigField list"
  CapRequestInterceptor :: bool
  CapAuthProvider :: bool
  CapModelProvider :: bool
  CapExecutor :: bool
  CapExecutorModelScope :: string
  CapExecutorInputFormats :: "string list"
  CapExecutorOutputFormats :: "string list"
  CapRequestLifecycle :: bool

datatype reply =
    RIntercept RequestInterceptResponse
  | RRegistered Registration
  | RNative nativeReply
  | RExec execReply
  | REmpty

datatype outcome = Reply "reply envelope" | CallError string | Panicked

record abi =
  dLifecycle :: "string \<Rightarrow> string + string"
  dIntercept :: "string \<Rightarrow> string + RequestInterceptRequest"
  dParse :: "string \<Rightarrow> string + parseRequest"
  dForAuth :: "string \<Rightarrow> string + forAuthRequest"
  dExecutor :: "string \<Rightarrow> string + nativeExecutorRequest"
  dComplete :: "string \<Rightarrow> string + string"
  dRefresh :: "string \<Rightarrow> string + refreshRequest"

record Plugin =
  manager :: Manager
  host :: Host
  jobs :: "streamJob list"

definition NewManager :: Manager where
  "NewManager =
    \<lparr> mcfg = DefaultConfig, warnedAuths = {}, sessionIDs = [], registry = emptyRegistry \<rparr>"

fun mapEnvelope :: "('a \<Rightarrow> 'b) \<Rightarrow> 'a envelope \<Rightarrow> 'b envelope" where
  "mapEnvelope f (OKEnv r) = OKEnv (f r)"
| "mapEnvelope f (ErrEnv err) = ErrEnv err"

subsection \<open>Registration\<close>

definition PluginVersion :: string where
  "PluginVersion = ''0.6.2''"

definition GitHubRepo :: string where
  "GitHubRepo = ''https://github.com/YogaSakti/cpa-opencode-enhancer''"

definition configField :: "string \<Rightarrow> string \<Rightarrow> string \<Rightarrow> ConfigField" where
  "configField n t d = \<lparr> FieldName = n, FieldType = t, FieldDescription = d \<rparr>"

definition registration :: Registration where
  "registration =
    \<lparr> SchemaVersion = 2, MetaName = PluginID, MetaVersion = PluginVersion,
      MetaAuthor = ''YogaSakti'', MetaRepository = GitHubRepo,
      ConfigFields =
        [configField ''fingerprint.enabled'' ''boolean''
           ''Send the official OpenCode client fingerprint required by the zen free tier.'',
         configField ''fingerprint.user_agent'' ''string''
           ''User-Agent used on the fingerprint path.'',
         configField ''fingerprint.force_stream'' ''boolean''
           ''Force stream:true; the zen free tier rejects non-streaming requests.'',
         configField ''fingerprint.free_only'' ''boolean''
           ''Restrict the fingerprint to free-tier models; paid builds are untouched.'',
         configField ''fingerprint.warn_missing_glue'' ''boolean''
           ''Log the credential headers: entries the fingerprint depends on, once per auth.'',
         configField ''session.header_name'' ''string''
           ''Header injected with the resolved OpenCode session id.'',
         configField ''target.auth_prefixes'' ''array''
           ''Substrings of the host auth id that enable shaping.'',
         configField ''target.models'' ''array''
           ''Model globs that enable shaping; codex-api-key credentials (Muse) need one, e.g. muse-*.''],
      CapRequestInterceptor = True, CapAuthProvider = True, CapModelProvider = True,
      CapExecutor = True, CapExecutorModelScope = ''oauth'',
      CapExecutorInputFormats = [''chat-completions''],
      CapExecutorOutputFormats = [''chat-completions''],
      CapRequestLifecycle = True \<rparr>"

subsection \<open>Lifecycle\<close>

definition onManager :: "(Manager \<Rightarrow> Manager) \<Rightarrow> Plugin \<Rightarrow> Plugin" where
  "onManager f p = p\<lparr> manager := f (manager p) \<rparr>"

definition reconfigure :: "Config \<Rightarrow> Manager \<Rightarrow> Manager" where
  "reconfigure cfg m =
     m\<lparr> registry := cancelNativeRequests (registry m), mcfg := cfg, warnedAuths := {} \<rparr>"

definition handleLifecycle ::
    "abi \<Rightarrow> (string \<Rightarrow> Config \<Rightarrow> string + Config) \<Rightarrow> string \<Rightarrow> Plugin \<Rightarrow> outcome \<times> Plugin" where
  "handleLifecycle a yaml payload p =
     (case (if payload \<noteq> [] then dLifecycle a payload else Inr []) of
        Inl err \<Rightarrow> (CallError err, p)
      | Inr configYAML \<Rightarrow>
          (case LoadConfig yaml configYAML of
             Inl err \<Rightarrow> (Reply (ErrEnvelope ''invalid_config'' err), p)
           | Inr cfg \<Rightarrow>
               (case validateConfig cfg of
                  Some err \<Rightarrow> (Reply (ErrEnvelope ''invalid_config'' err), p)
                | None \<Rightarrow>
                    (Reply (OKEnvelope (RRegistered registration)),
                     (onManager (reconfigure cfg) p)
                       \<lparr> host := applyLoggingConfig cfg (host p) \<rparr>))))"

text \<open>\<open>plugin.quiesce\<close> and \<open>plugin.shutdown\<close>\<close>

definition handleShutdown :: "Plugin \<Rightarrow> Plugin" where
  "handleShutdown p =
     (onManager (\<lambda>m. m\<lparr> registry := cancelNativeRequests (registry m), mcfg := DefaultConfig,
          warnedAuths := {}, sessionIDs := [] \<rparr>) p)
       \<lparr> host := SetLogEnabled False (host p) \<rparr>"

subsection \<open>request.intercept_after\<close>

definition isNativeAuth :: "RequestInterceptRequest \<Rightarrow> bool" where
  "isNativeAuth req \<longleftrightarrow>
     prefix (PluginID @ '':'') (metadataString (ReqMetadata req) ''selected_auth_id'')"

text \<open>The session the handler goes on with: resolved, or the last resort.\<close>

definition requestSession ::
    "codec \<Rightarrow> env \<Rightarrow> RequestInterceptRequest \<Rightarrow> Config \<Rightarrow> bool \<Rightarrow> sessionResult option" where
  "requestSession J e req cfg fingerprint =
     (case resolveSessionID J req cfg (HeaderName (CSession cfg)) of
        Some res \<Rightarrow> Some res
      | None \<Rightarrow>
          if fingerprint then
            Some \<lparr> Value = (if RequestID req = [] then newRequestID e else RequestID req),
                   Source = ''request'', Stable = False \<rparr>
          else None)"

definition shapedSession :: "env \<Rightarrow> string \<Rightarrow> session_cache \<Rightarrow> string \<times> session_cache" where
  "shapedSession e v cache =
     (if \<not> isOpenCodeSessionID v then shapeSessionID e v cache else (v, cache))"

type_synonym shaping = "header \<times> logvals \<times> session_cache"

text \<open>Step 1 of the handler.\<close>

definition sessionStep ::
    "codec \<Rightarrow> env \<Rightarrow> RequestInterceptRequest \<Rightarrow> Config \<Rightarrow> bool \<Rightarrow> string \<Rightarrow> shaping \<Rightarrow> shaping" where
  "sessionStep J e req cfg fingerprint project = (\<lambda>(hs, vals, cache).
     (case requestSession J e req cfg fingerprint of
        None \<Rightarrow> (hs, vals, cache)
      | Some res \<Rightarrow>
          (let name = HeaderName (CSession cfg);
               vals = AList.update ''session_source'' (Source res) vals in
           if fingerprint then
             (case shapedSession e (Value res) cache of (v, cache') \<Rightarrow>
                (headerSet name v (headerMerge (opencodeHeaders e v project) hs),
                 AList.update ''session'' v vals, cache'))
           else if Source res \<noteq> ''native'' then
             (let v = sessionHeaderValue res cfg in
              (headerSet name v hs, AList.update ''session'' v vals, cache))
           else
             (if cleanSession (headerGet (ReqHeaders req) name) = []
              then headerSet name (Value res) hs else hs,
              AList.update ''session'' ''native (preserved)'' vals, cache))))"

text \<open>Step 2.\<close>

definition identityStep ::
    "env \<Rightarrow> RequestInterceptRequest \<Rightarrow> Config \<Rightarrow> bool \<Rightarrow> string \<Rightarrow> header \<times> logvals \<Rightarrow> header \<times> logvals" where
  "identityStep e req cfg fingerprint project = (\<lambda>(hs, vals).
     (let clientType = detectClientType (ReqHeaders req);
          clientUA = headerGet (ReqHeaders req) ''User-Agent'';
          fp = CFingerprint cfg;
          vals = AList.update ''client_type'' clientType vals;
          vals = (if clientUA \<noteq> [] then AList.update ''client_ua'' clientUA vals else vals)
      in
      if fingerprint then
        (let ua = fingerprintValue (FpUserAgent fp) DefaultFingerprintUA;
             client = fingerprintValue (FpClient fp) DefaultFingerprintClient;
             accept = TrimSpace (FpAccept fp);
             hs = headerSet (outboundUAHeader cfg) ua hs;
             hs = headerSet ''User-Agent'' ua hs;
             hs = headerSet DefaultIdentityHeader client hs;
             hs = headerSet HeaderOpenCodeProject (ProjectID e project) hs;
             hs = (if accept \<noteq> [] then headerSet ''Accept'' accept hs else hs)
         in (hs, AList.update ''identity'' client (AList.update ''outbound_ua'' ua vals)))
      else if BoolVal (Rewrite (CUserAgent cfg)) DefaultRewriteUA then
        (let ua = resolveUserAgent cfg clientUA;
             (hs, vals) =
               (if ua \<noteq> [] then
                  (let hs = headerSet (outboundUAHeader cfg) ua hs in
                   (if SetUserAgentHeader (CUserAgent cfg) then headerSet ''User-Agent'' ua hs
                    else hs,
                    AList.update ''outbound_ua'' ua vals))
                else (hs, vals));
             identity = resolveClientIdentity cfg clientType
         in (if identity \<noteq> [] then
               (headerSet DefaultIdentityHeader identity hs,
                AList.update ''identity'' identity vals)
             else (hs, vals)))
      else (hs, vals)))"

text \<open>The headers a native credential's request starts with.\<close>

definition nativeMarkers :: "RequestInterceptRequest \<Rightarrow> header" where
  "nativeMarkers req =
     (if isNativeAuth req
      then headerSet nativeSourceFormatHeader (SourceFormat req)
             (if RequestID req \<noteq> [] then headerSet nativeExecutionIDHeader (RequestID req) [] else [])
      else [])"

definition requestProject :: "RequestInterceptRequest \<Rightarrow> Config \<Rightarrow> string" where
  "requestProject req cfg =
     fingerprintValue (FpProject (CFingerprint cfg)) (headerGet (ReqHeaders req) HeaderOpenCodeProject)"

text \<open>Headers, log values and cache after steps 1 and 2, and the body of step 3.\<close>

definition shapeRequest ::
    "codec \<Rightarrow> env \<Rightarrow> RequestInterceptRequest \<Rightarrow> Config \<Rightarrow> session_cache \<Rightarrow>
     RequestInterceptResponse \<times> logvals \<times> session_cache \<times> bool" where
  "shapeRequest J e req cfg cache =
     (let fingerprint = fingerprintApplies req cfg;
          project = requestProject req cfg;
          vals = [(''fingerprint'', FormatBool fingerprint)]
      in
      case sessionStep J e req cfg fingerprint project (nativeMarkers req, vals, cache) of
        (hs, vals, cache') \<Rightarrow>
      case identityStep e req cfg fingerprint project (hs, vals) of
        (hs, vals) \<Rightarrow>
      case (if fingerprint
            then applyFingerprintBody e J (ReqBody req) (CFingerprint cfg) (SourceFormat req) (ToFormat req)
            else ([], False)) of
        (fixed, changed) \<Rightarrow>
          (\<lparr> RespHeaders = hs,
             ClearHeaders = (if fingerprint then [''X-Opencode-Request''] else []),
             RespBody = (if changed then fixed else []) \<rparr>, vals, cache', changed))"

definition interceptAfter ::
    "codec \<Rightarrow> env \<Rightarrow> RequestInterceptRequest \<Rightarrow> Plugin \<Rightarrow> RequestInterceptResponse \<times> Plugin" where
  "interceptAfter J e req p =
     (let m = manager p; cfg = mcfg m; native = isNativeAuth req in
      if \<not> native \<and> \<not> isTarget req cfg then (emptyResponse, p\<lparr> host := logSkip req (host p) \<rparr>)
      else
        (case (if fingerprintApplies req cfg \<and> \<not> native
               then warnGlueRequirement (metadataString (ReqMetadata req) ''selected_auth_id'') cfg
                      (warnedAuths m, host p)
               else (warnedAuths m, host p)) of
           (warned, h) \<Rightarrow>
         case shapeRequest J e req cfg (sessionIDs m) of
           (resp, vals, cache, changed) \<Rightarrow>
             (if RespHeaders resp = [] \<and> RespBody resp = [] then emptyResponse else resp,
              p\<lparr> manager := m\<lparr> warnedAuths := warned, sessionIDs := cache \<rparr>,
                 host := logIntercept req vals changed h \<rparr>)))"

definition emptyRequest :: RequestInterceptRequest where
  "emptyRequest =
    \<lparr> RequestID = [], SourceFormat = [], ToFormat = [], Model = [], RequestedModel = [],
      ReqHeaders = [], ReqBody = [], ReqMetadata = [] \<rparr>"

text \<open>The call ends here when the host's log callback has panicked on its way.\<close>

definition afterLog :: "Host \<Rightarrow> outcome \<Rightarrow> outcome" where
  "afterLog h out = (if hostPanicked h then Panicked else out)"

definition handleInterceptAfter ::
    "abi \<Rightarrow> codec \<Rightarrow> env \<Rightarrow> string \<Rightarrow> Plugin \<Rightarrow> outcome \<times> Plugin" where
  "handleInterceptAfter a J e payload p =
     (case (if payload \<noteq> [] then dIntercept a payload else Inr emptyRequest) of
        Inl err \<Rightarrow> (CallError err, p)
      | Inr req \<Rightarrow>
          (case interceptAfter J e req p of
             (resp, p') \<Rightarrow> (afterLog (host p') (Reply (OKEnvelope (RIntercept resp))), p')))"

subsection \<open>The native methods\<close>

definition handleNative ::
    "abi \<Rightarrow> codec \<Rightarrow> net \<Rightarrow> env \<Rightarrow> env \<Rightarrow> string \<Rightarrow> string \<Rightarrow> Plugin \<Rightarrow> outcome \<times> Plugin" where
  "handleNative a J nt e e2 method payload p =
     (let m = manager p; native = (\<lambda>env. Reply (mapEnvelope RNative env)) in
      if method = ''auth.identifier'' \<or> method = ''executor.identifier'' then
        (native (OKEnvelope (RIdentifier PluginID)), p)
      else if method = ''auth.parse'' then
        (case dParse a payload of
           Inl err \<Rightarrow> (CallError err, p)
         | Inr req \<Rightarrow> (native (authParse J (urlParse nt) (mcfg m) req), p))
      else if method = ''model.static'' then (native (OKEnvelope (RModels [])), p)
      else if method = ''model.for_auth'' then
        (case dForAuth a payload of
           Inl err \<Rightarrow> (CallError err, p)
         | Inr req \<Rightarrow> (native (modelForAuth J (urlParse nt) (mcfg m) req), p))
      else if method = ''executor.execute'' \<or> method = ''executor.execute_stream'' then
        (case dExecutor a payload of
           Inl err \<Rightarrow> (CallError err, p)
         | Inr req \<Rightarrow>
             (case executeNative J nt e e2 req (method = ''executor.execute_stream'') m of
                (None, m') \<Rightarrow> (Panicked, p\<lparr> manager := m' \<rparr>)
              | (Some env, m') \<Rightarrow>
                  (Reply (mapEnvelope RExec env),
                   p\<lparr> manager := m',
                      jobs := jobs p @ (case env of OKEnv (Streaming _ job) \<Rightarrow> [job] | _ \<Rightarrow> []) \<rparr>)))
      else if method = ''request.complete'' then
        (case dComplete a payload of
           Inl err \<Rightarrow> (CallError err, p)
         | Inr i \<Rightarrow>
             (native (OKEnvelope RDone),
              onManager (\<lambda>m. m\<lparr> registry := completeRequest i (registry m) \<rparr>) p))
      else if method = ''auth.refresh'' then
        (case dRefresh a payload of
           Inl err \<Rightarrow> (CallError err, p)
         | Inr req \<Rightarrow> (native (authRefresh req), p))
      else
        (native (nativeError ''unsupported_operation''
           (''OpenCode does not support this operation: '' @ method) 501), p))"

subsection \<open>HandleCall\<close>

definition nativeMethods :: "string list" where
  "nativeMethods =
     [''auth.identifier'', ''auth.parse'', ''auth.login.start'', ''auth.login.poll'',
      ''auth.refresh'', ''model.static'', ''model.for_auth'', ''executor.identifier'',
      ''executor.execute'', ''executor.execute_stream'', ''executor.count_tokens'',
      ''executor.http_request'', ''request.complete'']"

definition HandleCall ::
    "abi \<Rightarrow> codec \<Rightarrow> net \<Rightarrow> (string \<Rightarrow> Config \<Rightarrow> string + Config) \<Rightarrow> env \<Rightarrow> env \<Rightarrow>
     string \<Rightarrow> string \<Rightarrow> Plugin \<Rightarrow> outcome \<times> Plugin" where
  "HandleCall a J nt yaml e e2 method payload p =
     (if method = ''plugin.register'' \<or> method = ''plugin.reconfigure''
      then handleLifecycle a yaml payload p
      else if method = ''request.intercept_before''
      then (Reply (OKEnvelope (RIntercept emptyResponse)), p)
      else if method = ''request.intercept_after'' then handleInterceptAfter a J e payload p
      else if method \<in> set nativeMethods then handleNative a J nt e e2 method payload p
      else if method = ''plugin.shutdown'' \<or> method = ''plugin.quiesce''
      then (Reply (OKEnvelope REmpty), handleShutdown p)
      else (Reply (ErrEnvelope ''unknown_method'' (''unknown method: '' @ method)), p))"

end
