(* ===== verification/Dispatch_Props.thy ===== *)
theory Dispatch_Props
  imports Dispatch Body_Shape Auth_Props Sse_Props Completion_Props
begin

section \<open>Lemmas on the dispatcher\<close>

text \<open>
  What the handlers of the dispatcher guarantee: the headers of a shaped request, what a
  handler leaves alone, the invariant \<open>plugin_ok\<close> of the plugin state, and that the session
  ids survive every call but a shutdown.
\<close>

definition shaped :: "RequestInterceptRequest \<Rightarrow> Config \<Rightarrow> bool" where
  "shaped req cfg \<longleftrightarrow> isNativeAuth req \<or> isTarget req cfg"

subsection \<open>intercept_after\<close>

lemma interceptAfter_skip:
  "\<not> shaped req (mcfg (manager p)) \<Longrightarrow>
     interceptAfter J e req p = (emptyResponse, p\<lparr> host := logSkip req (host p) \<rparr>)"
  by (simp add: interceptAfter_def shaped_def Let_def)

lemma interceptAfter_shape:
  assumes "shaped req (mcfg (manager p))"
    and "shapeRequest J e req (mcfg (manager p)) (sessionIDs (manager p)) = (resp, vals, cache, changed)"
  shows "fst (interceptAfter J e req p) =
      (if RespHeaders resp = [] \<and> RespBody resp = [] then emptyResponse else resp)"
    and "sessionIDs (manager (snd (interceptAfter J e req p))) = cache"
    and "mcfg (manager (snd (interceptAfter J e req p))) = mcfg (manager p)"
    and "registry (manager (snd (interceptAfter J e req p))) = registry (manager p)"
    and "jobs (snd (interceptAfter J e req p)) = jobs p"
  using assms by (auto simp: interceptAfter_def shaped_def Let_def split: prod.splits)

lemma interceptAfter_keeps:
  "mcfg (manager (snd (interceptAfter J e req p))) = mcfg (manager p)"
  "registry (manager (snd (interceptAfter J e req p))) = registry (manager p)"
  "jobs (snd (interceptAfter J e req p)) = jobs p"
  by (auto simp: interceptAfter_def Let_def split: prod.splits)

lemma interceptAfter_flags:
  "hostCallFn (host (snd (interceptAfter J e req p))) = hostCallFn (host p)"
  "hostLogEnabled (host (snd (interceptAfter J e req p))) = hostLogEnabled (host p)"
  by (simp_all add: interceptAfter_def Let_def case_prod_beta)

lemma interceptAfter_callbackOK:
  "callbackOK (host p) \<Longrightarrow> callbackOK (host (snd (interceptAfter J e req p)))"
  by (simp add: interceptAfter_def Let_def case_prod_beta)

subsection \<open>Headers of a shaped request\<close>

lemma nativeMarkers_unique: "uniqueKeys (nativeMarkers req)"
  by (simp add: nativeMarkers_def)

text \<open>The names step 2 sets on the fingerprint path.\<close>

definition identityNames :: "Config \<Rightarrow> string list" where
  "identityNames cfg =
     [outboundUAHeader cfg, ''User-Agent'', DefaultIdentityHeader, HeaderOpenCodeProject, ''Accept'']"

lemma headerSet_get:
  "map_of (headerSet name v hs) k = (if k = CanonicalHeaderKey name then Some [v] else map_of hs k)"
  by (simp add: headerSet_def update_conv')

lemma identityStep_other:
  "k \<notin> CanonicalHeaderKey ` set (identityNames cfg) \<Longrightarrow>
     map_of (fst (identityStep e req cfg fingerprint project (hs, vals))) k = map_of hs k"
  by (simp add: identityStep_def identityNames_def Let_def headerSet_get split: prod.splits)

lemma identityStep_fingerprint:
  "fst (identityStep e req cfg True project (hs, vals)) =
     (let ua = fingerprintValue (FpUserAgent (CFingerprint cfg)) DefaultFingerprintUA;
          hs = headerSet (outboundUAHeader cfg) ua hs;
          hs = headerSet ''User-Agent'' ua hs;
          hs = headerSet DefaultIdentityHeader
                 (fingerprintValue (FpClient (CFingerprint cfg)) DefaultFingerprintClient) hs;
          hs = headerSet HeaderOpenCodeProject (ProjectID e project) hs
      in if TrimSpace (FpAccept (CFingerprint cfg)) \<noteq> []
         then headerSet ''Accept'' (TrimSpace (FpAccept (CFingerprint cfg))) hs else hs)"
  by (simp add: identityStep_def Let_def)

lemma requestSession_fingerprint: "\<exists>res. requestSession J e req cfg True = Some res"
  by (simp add: requestSession_def split: option.splits)

lemma shapeRequest_fingerprint:
  assumes "fingerprintApplies req cfg"
  obtains res v cache' where
    "requestSession J e req cfg True = Some res"
    "shapedSession e (Value res) cache = (v, cache')"
    "RespHeaders (fst (shapeRequest J e req cfg cache)) =
       fst (identityStep e req cfg True (requestProject req cfg)
         (headerSet (HeaderName (CSession cfg)) v
           (headerMerge (opencodeHeaders e v (requestProject req cfg)) (nativeMarkers req)), []))"
    "fst (snd (snd (shapeRequest J e req cfg cache))) = cache'"
proof -
  obtain res where res: "requestSession J e req cfg True = Some res"
    using requestSession_fingerprint by blast
  obtain v cache' where v: "shapedSession e (Value res) cache = (v, cache')" by fastforce
  show ?thesis
    by (rule that [OF res v])
      (simp_all add: shapeRequest_def assms sessionStep_def res v Let_def identityStep_fingerprint
        split: prod.splits, simp_all add: identityStep_def Let_def)
qed

lemma shapedSession_id:
  assumes "cache_ok cache" "shapedSession e identity cache = (v, cache')"
  shows "isOpenCodeSessionID v \<and> cache_ok cache'"
  using assms shapeSessionID_shape [OF assms(1)] openCodeSessionRE_isID
  by (auto simp: shapedSession_def split: if_splits)

lemma canonical_session_names:
  "n \<in> set sessionHeaderNames \<Longrightarrow> CanonicalHeaderKey n = n"
proof -
  have "list_all (\<lambda>n. CanonicalHeaderKey n = n) sessionHeaderNames" by code_simp
  then show "n \<in> set sessionHeaderNames \<Longrightarrow> CanonicalHeaderKey n = n" by (simp add: list_all_iff)
qed

lemma opencodeHeaders_session:
  "n \<in> set sessionHeaderNames \<Longrightarrow> map_of (opencodeHeaders e v project) n = Some [v]"
  by (auto simp: sessionHeaderNames_def opencodeHeaders_list)

text \<open>The session ends up in the four session headers and in the configured one.\<close>

lemma fingerprint_session_headers:
  assumes "n \<in> set (HeaderName (CSession cfg) # sessionHeaderNames)"
    and "CanonicalHeaderKey n \<notin> CanonicalHeaderKey ` set (identityNames cfg)"
  shows "headerFirst (fst (identityStep e req cfg True project
      (headerSet (HeaderName (CSession cfg)) v
        (headerMerge (opencodeHeaders e v project) (nativeMarkers req)), vals))) n = v"
proof -
  have "map_of (headerSet (HeaderName (CSession cfg)) v
      (headerMerge (opencodeHeaders e v project) (nativeMarkers req))) (CanonicalHeaderKey n) = Some [v]"
    using assms(1) canonical_session_names [of n] opencodeHeaders_session [of n]
    by (auto simp: headerSet_get map_of_headerMerge nativeMarkers_unique opencodeHeaders_unique)
  then show ?thesis
    by (simp add: headerFirst_def identityStep_other [OF assms(2)])
qed

subsection \<open>The plugin state\<close>

definition plugin_ok :: "Plugin \<Rightarrow> bool" where
  "plugin_ok p \<longleftrightarrow>
     validateConfig (mcfg (manager p)) = None \<and> cache_ok (sessionIDs (manager p)) \<and>
     uniqueKeys (nativeRequests (registry (manager p)))"

definition startPlugin :: Plugin where
  "startPlugin =
    \<lparr> manager = NewManager,
      host = \<lparr> hostCallFn = None, hostLogEnabled = True, hostLog = [], hostPanicked = False \<rparr>, jobs = [] \<rparr>"

lemma DefaultConfig_valid: "validateConfig DefaultConfig = None"
proof -
  have "TrimSpace DefaultSessionHeaderName = DefaultSessionHeaderName"
    "TrimSpace DefaultOutboundUAHeader = DefaultOutboundUAHeader"
    by (rule TrimSpace_visible;
        simp add: DefaultSessionHeaderName_def DefaultOutboundUAHeader_def visibleByte_def)+
  then show ?thesis
    by (simp add: validateConfig_ok DefaultConfig_def safeName_def)
      (simp add: DefaultSessionHeaderName_def DefaultOutboundUAHeader_def)
qed

lemma startPlugin_ok: "plugin_ok startPlugin"
  by (simp add: plugin_ok_def startPlugin_def NewManager_def DefaultConfig_valid emptyRegistry_def)

lemma cleanup_unique: "uniqueKeys (nativeRequests r) \<Longrightarrow> uniqueKeys (nativeRequests (cleanupExec i h r))"
  by (simp add: cleanupExec_def releaseExec_def)

lemma nativeContext_unique:
  "uniqueKeys (nativeRequests r) \<Longrightarrow> uniqueKeys (nativeRequests (snd (nativeContext i r)))"
  by (simp add: nativeContext_def Let_def)

text \<open>What \<open>executeNative\<close> does to the manager.\<close>

lemma handleResponse_manager:
  "snd (handleResponse J nt auth req stream i h m rsp) \<in>
     {m, m\<lparr> registry := cleanupExec i h (registry m) \<rparr>}"
  by (simp add: handleResponse_def Let_def)

definition executionID :: "env \<Rightarrow> nativeExecutorRequest \<Rightarrow> string" where
  "executionID e2 req =
     (let given = headerGet (ExHeaders req) nativeExecutionIDHeader in
      if given = [] then newRequestID e2 else given)"

lemma sendUpstream_cases:
  fixes J nt e2 auth req stream body hs m
  defines "i \<equiv> executionID e2 req"
  obtains (unsent) err where "sendUpstream J nt e2 auth req stream body hs m = (Some (ErrEnv err), m)"
  | (failed) err where "sendUpstream J nt e2 auth req stream body hs m =
      (Some (ErrEnv err), m\<lparr> registry := cleanupExec i (fst (nativeContext i (registry m)))
         (snd (nativeContext i (registry m))) \<rparr>)"
  | (answered) proxy client rsp where "nativeClient nt proxy = Inr client"
      "client \<lparr> UpURL = BaseURL auth @ ''/chat/completions'', UpHeaders = hs, UpBody = body,
         UpContext = fst (nativeContext i (registry m)) \<rparr> = Inr rsp"
      "sendUpstream J nt e2 auth req stream body hs m =
         handleResponse J nt auth req stream i (fst (nativeContext i (registry m)))
           (m\<lparr> registry := snd (nativeContext i (registry m)) \<rparr>) rsp"
proof (cases "nativeProxyURL nt auth")
  case (Inl err)
  then show ?thesis by (intro unsent) (simp add: sendUpstream_def nativeError_def)
next
  case (Inr proxy)
  obtain h r where c: "nativeContext i (registry m) = (h, r)" by fastforce
  show ?thesis
  proof (cases "nativeClient nt proxy")
    case (Inl err)
    with Inr c show ?thesis
      by (intro failed) (simp add: sendUpstream_def nativeError_def i_def executionID_def Let_def)
  next
    case cl: (Inr client)
    let ?req = "\<lparr> UpURL = BaseURL auth @ ''/chat/completions'', UpHeaders = hs, UpBody = body,
      UpContext = h \<rparr>"
    let ?m1 = "m\<lparr> registry := r \<rparr>"
    have eq: "sendUpstream J nt e2 auth req stream body hs m =
        (if urlParse nt (BaseURL auth @ ''/chat/completions'') = None
         then (Some (nativeError ''invalid_request'' ''invalid OpenCode request'' 400),
           ?m1\<lparr> registry := cleanupExec i h r \<rparr>)
         else (case client ?req of
             Inl err \<Rightarrow> (Some (nativeError ''upstream_error''
               (''OpenCode request failed: '' @ redactNativeError err (APIKey auth)) 502),
               ?m1\<lparr> registry := cleanupExec i h r \<rparr>)
           | Inr rsp \<Rightarrow> handleResponse J nt auth req stream i h ?m1 rsp))"
      using c unfolding i_def sendUpstream_def executionID_def Let_def Inr by (simp add: cl)
    show ?thesis
    proof (cases "urlParse nt (BaseURL auth @ ''/chat/completions'') = None")
      case True
      then show ?thesis by (intro failed) (simp add: eq c nativeError_def)
    next
      case url: False
      show ?thesis
      proof (cases "client ?req")
        case (Inl err)
        then show ?thesis
          by (intro failed) (unfold eq if_not_P [OF url], simp add: c nativeError_def)
      next
        case (Inr rsp)
        have "sendUpstream J nt e2 auth req stream body hs m = handleResponse J nt auth req stream i h ?m1 rsp"
          unfolding eq if_not_P [OF url] Inr by simp
        with Inr show ?thesis by (intro answered [OF cl, of rsp]) (simp_all add: c)
      qed
    qed
  qed
qed

lemma sendUpstream_result:
  "snd (sendUpstream J nt e2 auth req stream body hs m) \<in>
     {m, m\<lparr> registry := snd (nativeContext (executionID e2 req) (registry m)) \<rparr>,
      m\<lparr> registry := cleanupExec (executionID e2 req) (fst (nativeContext (executionID e2 req) (registry m)))
         (snd (nativeContext (executionID e2 req) (registry m))) \<rparr>}"
proof (cases rule: sendUpstream_cases [of J nt e2 auth req stream body hs m])
  case (answered proxy client rsp)
  then show ?thesis
    using handleResponse_manager [of J nt auth req stream "executionID e2 req" _
        "m\<lparr> registry := snd (nativeContext (executionID e2 req) (registry m)) \<rparr>" rsp]
    by auto
qed simp_all

lemma sendUpstream_manager:
  "mcfg (snd (sendUpstream J nt e2 auth req stream body hs m)) = mcfg m"
  "sessionIDs (snd (sendUpstream J nt e2 auth req stream body hs m)) = sessionIDs m"
  "uniqueKeys (nativeRequests (registry m)) \<Longrightarrow>
     uniqueKeys (nativeRequests (registry (snd (sendUpstream J nt e2 auth req stream body hs m))))"
  using sendUpstream_result [of J nt e2 auth req stream body hs m]
    nativeContext_unique [of "registry m" "executionID e2 req"]
    cleanup_unique [of "snd (nativeContext (executionID e2 req) (registry m))"]
  by auto

lemma executeNative_cases:
  obtains (failed) env where "executeNative J nt e e2 req stream m = (Some (ErrEnv env), m)"
  | (sent) decoded model doc raw session cache where
      "decodeNativeAuth J (urlParse nt) (mcfg m) (ExStorageJSON req) = Inr decoded"
      "model = selectModel (requestedModel (effectiveAuth req decoded) (ExModel req))
         (AuthModels (effectiveAuth req decoded))" "model \<noteq> []"
      "unmarshalMap J (ExPayload req) = Root doc" "marshal J (JObj (nativeBody model doc)) = Some raw"
      "nativeIdentity J e (mcfg m) req (sessionIDs m) = (session, cache)"
      "stream \<longrightarrow> ExStreamID req \<noteq> []"
      "executeNative J nt e e2 req stream m =
         sendUpstream J nt e2 (effectiveAuth req decoded) req stream
           (fst (applyFingerprintBody e J raw (CFingerprint (mcfg m)) ''openai'' ''openai''))
           (nativeHeaders e (mcfg m) (ExHeaders req) (effectiveAuth req decoded) session)
           (m\<lparr> sessionIDs := cache \<rparr>)"
proof (cases "ExAuthProvider req = PluginID")
  case False
  then show ?thesis by (intro failed) (simp add: executeNative_def Let_def nativeError_def)
next
  case prov: True
  show ?thesis
  proof (cases "decodeNativeAuth J (urlParse nt) (mcfg m) (ExStorageJSON req)")
    case (Inl err)
    with prov show ?thesis by (intro failed) (simp add: executeNative_def Let_def nativeError_def)
  next
    case dec: (Inr decoded)
    let ?auth = "effectiveAuth req decoded"
    let ?model = "selectModel (requestedModel ?auth (ExModel req)) (AuthModels ?auth)"
    show ?thesis
    proof (cases "?model = [] \<or> (stream \<and> ExStreamID req = [])")
      case True
      with prov dec show ?thesis
        by (cases "?model = []")
          (intro failed, simp add: executeNative_def Let_def nativeError_def)+
    next
      case sel: False
      show ?thesis
      proof (cases "\<exists>doc raw. unmarshalMap J (ExPayload req) = Root doc \<and>
          marshal J (JObj (nativeBody ?model doc)) = Some raw")
        case False
        with prov dec sel show ?thesis
          by (cases "unmarshalMap J (ExPayload req)")
            (intro failed, auto simp: executeNative_def Let_def nativeError_def split: option.splits)+
      next
        case True
        then obtain doc raw where d: "unmarshalMap J (ExPayload req) = Root doc"
          "marshal J (JObj (nativeBody ?model doc)) = Some raw" by blast
        obtain session cache where s:
          "nativeIdentity J e (mcfg m) req (sessionIDs m) = (session, cache)" by fastforce
        show ?thesis
          by (rule sent [OF dec refl _ d s]) (use prov dec sel d s in \<open>auto simp: executeNative_def Let_def\<close>)
      qed
    qed
  qed
qed

lemma nativeIdentity_shape:
  assumes "cache_ok cache" "nativeIdentity J e cfg req cache = (session, cache')"
  shows "isOpenCodeSessionID session \<and> cache_ok cache'"
  using assms shapeSessionID_shape [OF assms(1)] openCodeSessionRE_isID
  by (auto simp: nativeIdentity_def Let_def split: if_splits)

lemma executeNative_manager:
  "mcfg (snd (executeNative J nt e e2 req stream m)) = mcfg m"
  "cache_ok (sessionIDs m) \<Longrightarrow> cache_ok (sessionIDs (snd (executeNative J nt e e2 req stream m)))"
  "uniqueKeys (nativeRequests (registry m)) \<Longrightarrow>
     uniqueKeys (nativeRequests (registry (snd (executeNative J nt e e2 req stream m))))"
  by (cases rule: executeNative_cases [of J nt e e2 req stream m];
      auto simp: sendUpstream_manager dest: nativeIdentity_shape)+

end
