(* ===== verification/Calls.thy ===== *)
theory Calls
  imports Dispatch_Props
begin

section \<open>Sequences of calls\<close>

text \<open>
  The plugin as its host sees it: a sequence of calls, each with its method, payload and
  readings of the environment. The locale \<open>served\<close> is the contract an invariant of the state
  has with the dispatcher (it holds at the start, every call keeps it), and carries it to
  every state a sequence of calls leads to; it is interpreted at \<open>plugin_ok\<close>.
\<close>

record call =
  callEnv :: env
  callEnv2 :: env
  callMethod :: string
  callPayload :: string

definition oneCall ::
    "abi \<Rightarrow> codec \<Rightarrow> net \<Rightarrow> (string \<Rightarrow> Config \<Rightarrow> string + Config) \<Rightarrow> call \<Rightarrow> Plugin \<Rightarrow> outcome \<times> Plugin" where
  "oneCall a J nt yaml c =
     HandleCall a J nt yaml (callEnv c) (callEnv2 c) (callMethod c) (callPayload c)"

definition serve ::
    "abi \<Rightarrow> codec \<Rightarrow> net \<Rightarrow> (string \<Rightarrow> Config \<Rightarrow> string + Config) \<Rightarrow> call list \<Rightarrow> Plugin \<Rightarrow> Plugin" where
  "serve a J nt yaml calls p = fold (\<lambda>c p. snd (oneCall a J nt yaml c p)) calls p"

locale served =
  fixes step :: "'c \<Rightarrow> 's \<Rightarrow> 's"
    and good :: "'c \<Rightarrow> bool"
    and inv :: "'s \<Rightarrow> bool"
  assumes kept: "good c \<Longrightarrow> inv s \<Longrightarrow> inv (step c s)"
begin

lemma kept_by_all: "\<forall>c\<in>set cs. good c \<Longrightarrow> inv s \<Longrightarrow> inv (fold step cs s)"
  by (induction cs arbitrary: s) (simp_all add: kept)

end

subsection \<open>The handlers\<close>

lemma handleLifecycle_cases:
  obtains (rejected) out where "handleLifecycle a yaml payload p = (out, p)" "out \<noteq> Panicked"
  | (accepted) cfg where "validateConfig cfg = None"
      "handleLifecycle a yaml payload p =
         (Reply (OKEnvelope (RRegistered registration)),
          (onManager (reconfigure cfg) p)\<lparr> host := applyLoggingConfig cfg (host p) \<rparr>)"
proof -
  consider (decode) err where "(if payload \<noteq> [] then dLifecycle a payload else Inr []) = Inl err"
    | (load) y err where "(if payload \<noteq> [] then dLifecycle a payload else Inr []) = Inr y"
        "LoadConfig yaml y = Inl err"
    | (invalid) y cfg err where "(if payload \<noteq> [] then dLifecycle a payload else Inr []) = Inr y"
        "LoadConfig yaml y = Inr cfg" "validateConfig cfg = Some err"
    | (ok) y cfg where "(if payload \<noteq> [] then dLifecycle a payload else Inr []) = Inr y"
        "LoadConfig yaml y = Inr cfg" "validateConfig cfg = None"
    by (metis (full_types) sum.exhaust option.exhaust)
  then show ?thesis
  proof cases
    case decode
    then show ?thesis by (intro rejected [of "CallError err"]) (auto simp: handleLifecycle_def)
  next
    case load
    then show ?thesis
      by (intro rejected [of "Reply (ErrEnvelope ''invalid_config'' err)"]) (auto simp: handleLifecycle_def)
  next
    case invalid
    then show ?thesis
      by (intro rejected [of "Reply (ErrEnvelope ''invalid_config'' err)"]) (auto simp: handleLifecycle_def)
  next
    case ok
    then show ?thesis by (intro accepted [of cfg]) (auto simp: handleLifecycle_def)
  qed
qed

lemma sessionStep_cache:
  "cache_ok cache \<Longrightarrow> cache_ok (snd (snd (sessionStep J e req cfg fp project (hs, vals, cache))))"
  using shapedSession_id [of cache e]
  by (auto simp: sessionStep_def Let_def split: option.splits prod.splits)

lemma shapeRequest_cache:
  assumes "cache_ok cache"
  shows "cache_ok (fst (snd (snd (shapeRequest J e req cfg cache))))"
proof -
  let ?s = "sessionStep J e req cfg (fingerprintApplies req cfg) (requestProject req cfg)
    (nativeMarkers req, [(''fingerprint'', FormatBool (fingerprintApplies req cfg))], cache)"
  have "fst (snd (snd (shapeRequest J e req cfg cache))) = snd (snd ?s)"
    by (simp add: shapeRequest_def Let_def split: prod.splits)
  with sessionStep_cache [OF assms] show ?thesis by simp
qed

lemma interceptAfter_ok:
  assumes "plugin_ok p"
  shows "plugin_ok (snd (interceptAfter J e req p))"
proof (cases "shaped req (mcfg (manager p))")
  case False
  with assms show ?thesis by (simp add: interceptAfter_skip plugin_ok_def)
next
  case True
  obtain resp vals cache changed where
    s: "shapeRequest J e req (mcfg (manager p)) (sessionIDs (manager p)) = (resp, vals, cache, changed)"
    by (metis prod_cases4)
  have "cache_ok cache"
    using shapeRequest_cache [of "sessionIDs (manager p)" J e req "mcfg (manager p)"] s assms
    by (simp add: plugin_ok_def)
  with interceptAfter_shape [OF True s] assms show ?thesis by (simp add: plugin_ok_def)
qed

lemma handleInterceptAfter_cases:
  obtains (decode) err where "handleInterceptAfter a J e payload p = (CallError err, p)"
  | (handled) req where "handleInterceptAfter a J e payload p =
      (afterLog (host (snd (interceptAfter J e req p)))
         (Reply (OKEnvelope (RIntercept (fst (interceptAfter J e req p))))),
       snd (interceptAfter J e req p))"
proof (cases "if payload \<noteq> [] then dIntercept a payload else Inr emptyRequest")
  case (Inl err)
  then show ?thesis by (intro decode) (simp add: handleInterceptAfter_def)
next
  case (Inr req)
  then show ?thesis by (intro handled [of req]) (simp add: handleInterceptAfter_def split: prod.splits)
qed

lemma handleNative_cases:
  obtains (same) out where "handleNative a J nt e e2 method payload p = (out, p)" "out \<noteq> Panicked"
  | (execute) req stream where "dExecutor a payload = Inr req"
      "method = (if stream then ''executor.execute_stream'' else ''executor.execute'')"
      "fst (handleNative a J nt e e2 method payload p) =
         (case fst (executeNative J nt e e2 req stream (manager p)) of
            None \<Rightarrow> Panicked | Some env \<Rightarrow> Reply (mapEnvelope RExec env))"
      "manager (snd (handleNative a J nt e e2 method payload p)) =
         snd (executeNative J nt e e2 req stream (manager p))"
      "host (snd (handleNative a J nt e e2 method payload p)) = host p"
      "jobs (snd (handleNative a J nt e e2 method payload p)) = jobs p @
         (case fst (executeNative J nt e e2 req stream (manager p)) of
            Some (OKEnv (Streaming hs job)) \<Rightarrow> [job] | _ \<Rightarrow> [])"
  | (complete) i where "method = ''request.complete''" "dComplete a payload = Inr i"
      "handleNative a J nt e e2 method payload p =
         (Reply (mapEnvelope RNative (OKEnvelope RDone)),
          onManager (\<lambda>m. m\<lparr> registry := completeRequest i (registry m) \<rparr>) p)"
proof -
  have "(\<exists>stream. method = (if stream then ''executor.execute_stream'' else ''executor.execute'')) \<or>
      method = ''request.complete'' \<or>
      method \<notin> set [''executor.execute_stream'', ''executor.execute'', ''request.complete'']"
    by (simp only: ex_bool_eq if_True if_False set_simps insert_iff empty_iff) blast
  then consider (ex) stream where
      "method = (if stream then ''executor.execute_stream'' else ''executor.execute'')"
    | (co) "method = ''request.complete''"
    | (other) "method \<notin> set [''executor.execute_stream'', ''executor.execute'', ''request.complete'']"
    by blast
  then show ?thesis
  proof cases
    case ex
    show ?thesis
    proof (cases "dExecutor a payload")
      case (Inl err)
      with ex show ?thesis
        by (intro same [of "CallError err"]) (auto simp: handleNative_def Let_def)
    next
      case (Inr req)
      have eq: "handleNative a J nt e e2 method payload p =
          (case executeNative J nt e e2 req stream (manager p) of
             (None, m') \<Rightarrow> (Panicked, p\<lparr> manager := m' \<rparr>)
           | (Some env, m') \<Rightarrow>
               (Reply (mapEnvelope RExec env),
                p\<lparr> manager := m',
                   jobs := jobs p @ (case env of OKEnv (Streaming _ job) \<Rightarrow> [job] | _ \<Rightarrow> []) \<rparr>))"
        using ex Inr by (simp add: handleNative_def Let_def)
      show ?thesis
        by (rule execute [OF Inr ex]; unfold eq; simp split: prod.splits option.splits)
    qed
  next
    case co
    show ?thesis
    proof (cases "dComplete a payload")
      case (Inl err)
      with co show ?thesis
        by (intro same [of "CallError err"]) (auto simp: handleNative_def Let_def)
    next
      case (Inr i)
      show ?thesis by (rule complete [OF co Inr]) (simp add: handleNative_def Let_def co Inr)
    qed
  next
    case other
    have "\<exists>out. handleNative a J nt e e2 method payload p = (out, p) \<and> out \<noteq> Panicked"
      using other by (simp add: handleNative_def Let_def split: sum.splits)
    then show ?thesis using same by blast
  qed
qed

lemma completeRequest_unique:
  "uniqueKeys (nativeRequests r) \<Longrightarrow> uniqueKeys (nativeRequests (completeRequest i r))"
  by simp

lemma handleShutdown_ok: "plugin_ok (handleShutdown p)"
  by (simp add: plugin_ok_def handleShutdown_def onManager_def DefaultConfig_valid cancelNativeRequests_eq)

lemma handleLifecycle_ok: "plugin_ok p \<Longrightarrow> plugin_ok (snd (handleLifecycle a yaml payload p))"
  by (cases rule: handleLifecycle_cases [of a yaml payload p])
    (simp_all add: plugin_ok_def onManager_def reconfigure_def cancelNativeRequests_eq)

lemma handleNative_ok: "plugin_ok p \<Longrightarrow> plugin_ok (snd (handleNative a J nt e e2 method payload p))"
  by (cases rule: handleNative_cases [of a J nt e e2 "method" payload p])
    (simp_all add: plugin_ok_def onManager_def executeNative_manager)

lemma handleInterceptAfter_ok:
  "plugin_ok p \<Longrightarrow> plugin_ok (snd (handleInterceptAfter a J e payload p))"
  by (cases rule: handleInterceptAfter_cases [of a J e payload p]) (simp_all add: interceptAfter_ok)

lemma HandleCall_ok: "plugin_ok p \<Longrightarrow> plugin_ok (snd (HandleCall a J nt yaml e e2 method payload p))"
  by (simp add: HandleCall_def handleLifecycle_ok handleNative_ok handleInterceptAfter_ok handleShutdown_ok)

interpretation ok_calls: served "\<lambda>c p. snd (oneCall a J nt yaml c p)" "\<lambda>c. True" plugin_ok
  for a J nt yaml
  by unfold_locales (simp add: oneCall_def HandleCall_ok)

lemma serve_ok: "plugin_ok (serve a J nt yaml calls startPlugin)"
  unfolding serve_def by (rule ok_calls.kept_by_all [OF _ startPlugin_ok]) simp

subsection \<open>Session ids outlive everything but a shutdown\<close>

definition keepsSessions :: "call \<Rightarrow> bool" where
  "keepsSessions c \<longleftrightarrow> callMethod c \<notin> set [''plugin.shutdown'', ''plugin.quiesce'']"

lemma shapedSession_keeps:
  "cachedID cache i = Some v \<Longrightarrow> shapedSession e w cache = (x, cache') \<Longrightarrow> cachedID cache' i = Some v"
  using session_ids.keep [of cache i v e w] by (auto simp: shapedSession_def split: if_splits)

lemma sessionStep_keeps:
  "cachedID cache i = Some v \<Longrightarrow>
     cachedID (snd (snd (sessionStep J e req cfg fp project (hs, vals, cache)))) i = Some v"
  using shapedSession_keeps [of cache i v e]
  by (auto simp: sessionStep_def Let_def split: option.splits prod.splits)

lemma shapeRequest_keeps:
  assumes "cachedID cache i = Some v"
  shows "cachedID (fst (snd (snd (shapeRequest J e req cfg cache)))) i = Some v"
proof -
  let ?s = "sessionStep J e req cfg (fingerprintApplies req cfg) (requestProject req cfg)
    (nativeMarkers req, [(''fingerprint'', FormatBool (fingerprintApplies req cfg))], cache)"
  have "fst (snd (snd (shapeRequest J e req cfg cache))) = snd (snd ?s)"
    by (simp add: shapeRequest_def Let_def split: prod.splits)
  with sessionStep_keeps [OF assms] show ?thesis by simp
qed

lemma interceptAfter_cachedID:
  assumes "cachedID (sessionIDs (manager p)) i = Some v"
  shows "cachedID (sessionIDs (manager (snd (interceptAfter J e req p)))) i = Some v"
proof (cases "shaped req (mcfg (manager p))")
  case False
  with assms show ?thesis by (simp add: interceptAfter_skip)
next
  case True
  obtain resp vals cache changed where
    s: "shapeRequest J e req (mcfg (manager p)) (sessionIDs (manager p)) = (resp, vals, cache, changed)"
    by (metis prod_cases4)
  with interceptAfter_shape(2) [OF True s] shapeRequest_keeps [OF assms, of J e req "mcfg (manager p)"]
  show ?thesis by simp
qed

lemma nativeIdentity_keeps:
  "cachedID cache i = Some v \<Longrightarrow> nativeIdentity J e cfg req cache = (w, cache') \<Longrightarrow>
     cachedID cache' i = Some v"
  using session_ids.keep [of cache i v e] by (auto simp: nativeIdentity_def Let_def split: if_splits)

lemma executeNative_cachedID:
  "cachedID (sessionIDs m) i = Some v \<Longrightarrow>
     cachedID (sessionIDs (snd (executeNative J nt e e2 req stream m))) i = Some v"
  by (cases rule: executeNative_cases [of J nt e e2 req stream m])
    (auto simp: sendUpstream_manager dest: nativeIdentity_keeps)

lemma oneCall_cachedID:
  assumes "keepsSessions c" "cachedID (sessionIDs (manager p)) i = Some v"
  shows "cachedID (sessionIDs (manager (snd (oneCall a J nt yaml c p)))) i = Some v"
proof -
  have l: "cachedID (sessionIDs (manager (snd (handleLifecycle a yaml (callPayload c) p)))) i = Some v"
    by (cases rule: handleLifecycle_cases [of a yaml "callPayload c" p])
      (simp_all add: assms(2) onManager_def reconfigure_def)
  have n: "cachedID (sessionIDs (manager (snd (handleNative a J nt (callEnv c) (callEnv2 c)
      (callMethod c) (callPayload c) p)))) i = Some v"
    by (cases rule: handleNative_cases [of a J nt "callEnv c" "callEnv2 c" "callMethod c" "callPayload c" p])
      (simp_all add: assms(2) onManager_def executeNative_cachedID)
  have h: "cachedID (sessionIDs (manager (snd (handleInterceptAfter a J (callEnv c) (callPayload c) p)))) i
      = Some v"
    by (cases rule: handleInterceptAfter_cases [of a J "callEnv c" "callPayload c" p])
      (simp_all add: assms(2) interceptAfter_cachedID)
  show ?thesis
    using assms l n h by (simp add: oneCall_def HandleCall_def keepsSessions_def)
qed

interpretation sticky_calls: served "\<lambda>c p. snd (oneCall a J nt yaml c p)" keepsSessions
    "\<lambda>p. cachedID (sessionIDs (manager p)) i = Some v" for a J nt yaml i v
  by unfold_locales (rule oneCall_cachedID)

subsection \<open>No panic\<close>

definition added_ok :: "added \<Rightarrow> bool" where
  "added_ok st \<longleftrightarrow> st \<noteq> Panic \<and> (\<forall>c. st = Added c \<longrightarrow> completion_ok c)"

lemma completionEmit_ok: "added_ok st \<Longrightarrow> added_ok (snd (completionEmit J f d st))"
  using addData_ok [of _ J d]
  by (auto simp: completionEmit_def added_ok_def split: added.splits)

text \<open>A property that every call of the callback keeps holds in the end.\<close>

lemma flushEvent_inv:
  assumes "\<And>f d k. I k \<Longrightarrow> I (snd (emit f d k))" "I (sseSink s)"
  shows "I (sseSink (snd (flushEvent J emit s)))"
  by (cases rule: flushEvent_cases [of J emit s]) (use assms in auto)

lemma finishScan_inv:
  assumes "\<And>f d k. I k \<Longrightarrow> I (snd (emit f d k))" "I (sseSink s)"
  shows "I (snd (finishScan J emit e s))"
proof -
  obtain er s1 where fl: "flushEvent J emit (s\<lparr> sseFrame := sseFrame s @ [LF] \<rparr>) = (er, s1)" by fastforce
  have "I (sseSink s1)"
    using flushEvent_inv [of I emit "s\<lparr> sseFrame := sseFrame s @ [LF] \<rparr>" J] assms fl by simp
  with assms(2) show ?thesis
    by (simp add: finishScan_def fl split: option.splits)
qed

lemma takeLine_inv:
  assumes "\<And>f d k. I k \<Longrightarrow> I (snd (emit f d k))" "I (sseSink s)"
  shows "case takeLine J emit l s of Stop e k \<Rightarrow> I k | Continue s' \<Rightarrow> I (sseSink s')"
proof -
  let ?s1 = "s\<lparr> sseFrame := sseFrame s @ l @ [LF] \<rparr>"
  obtain er s1 where fl: "flushEvent J emit ?s1 = (er, s1)" by fastforce
  have "I (sseSink s1)" using flushEvent_inv [of I emit ?s1 J] assms fl by simp
  with assms(2) show ?thesis unfolding takeLine_def Let_def fl by (simp split: option.splits)
qed

lemma scanLoop_inv:
  assumes step: "\<And>f d k. I k \<Longrightarrow> I (snd (emit f d k))"
  shows "I (sseSink s) \<Longrightarrow> I (snd (scanLoop J emit e input s))"
proof (induction input arbitrary: s rule: length_induct)
  case (1 input)
  show ?case
  proof (cases "nextLine input")
    case EndOfInput
    then show ?thesis
      using finishScan_inv [of I emit, OF step] "1.prems" by (subst scanLoop.simps) simp
  next
    case TooLong
    then show ?thesis
      using finishScan_inv [of I emit, OF step] "1.prems" by (subst scanLoop.simps) simp
  next
    case (Line l rest)
    note t = takeLine_inv [of I emit, OF step "1.prems", of J l]
    show ?thesis
    proof (cases "takeLine J emit l s")
      case (Stop er' k)
      with t have "I k" by simp
      with Stop Line show ?thesis by (subst scanLoop.simps) simp
    next
      case (Continue s')
      with t have "I (sseSink s')" by simp
      with "1.IH" nextLine_shorter [OF Line] Continue Line show ?thesis by (subst scanLoop.simps) simp
    qed
  qed
qed

lemma readNativeSSE_inv:
  "(\<And>f d k. I k \<Longrightarrow> I (snd (emit f d k))) \<Longrightarrow> I k \<Longrightarrow> I (snd (readNativeSSE J emit body k))"
  unfolding readNativeSSE_def by (rule scanLoop_inv) auto

lemma collectCompletion_total: "collectCompletion J key rsp \<noteq> None"
proof -
  have "added_ok (snd (readNativeSSE J (completionEmit J) (RspBody rsp) (Added newCompletion)))"
    by (rule readNativeSSE_inv [where I = added_ok]) (simp_all add: completionEmit_ok, simp add: added_ok_def newCompletion_ok)
  then show ?thesis
    by (auto simp: collectCompletion_def added_ok_def split: prod.splits added.splits option.splits sum.splits)
qed

lemma executeNative_total: "fst (executeNative J nt e e2 req stream m) \<noteq> None"
proof -
  have h: "fst (handleResponse J nt auth req stream i h m' rsp) \<noteq> None" for auth i h m' rsp
    using collectCompletion_total [of J "APIKey auth" rsp] by (auto simp: handleResponse_def Let_def)
  have "fst (sendUpstream J nt e2 auth req stream body hs m') \<noteq> None" for auth body hs m'
    by (cases rule: sendUpstream_cases [of J nt e2 auth req stream body hs m']) (simp_all add: h)
  then show ?thesis by (cases rule: executeNative_cases [of J nt e e2 req stream m]) auto
qed

text \<open>A call only panics when the host's log callback does.\<close>

lemma HandleCall_panics:
  assumes "fst (HandleCall a J nt yaml e e2 method payload p) = Panicked"
  shows "hostPanicked (host (snd (HandleCall a J nt yaml e e2 method payload p)))"
proof -
  have "fst (handleLifecycle a yaml payload p) \<noteq> Panicked"
    by (cases rule: handleLifecycle_cases [of a yaml payload p]) auto
  moreover have "hostPanicked (host (snd (handleInterceptAfter a J e payload p)))"
    if "fst (handleInterceptAfter a J e payload p) = Panicked"
    using that by (cases rule: handleInterceptAfter_cases [of a J e payload p]) (auto simp: afterLog_def split: if_splits)
  moreover have "fst (handleNative a J nt e e2 method payload p) \<noteq> Panicked"
    using executeNative_total
    by (cases rule: handleNative_cases [of a J nt e e2 "method" payload p]) (auto split: option.splits)
  ultimately show ?thesis using assms by (simp add: HandleCall_def split: if_splits)
qed

lemma HandleCall_callbackOK:
  assumes "callbackOK (host p)"
  shows "callbackOK (host (snd (HandleCall a J nt yaml e e2 method payload p)))"
proof -
  have "callbackOK (host (snd (handleLifecycle a yaml payload p)))"
    using assms by (cases rule: handleLifecycle_cases [of a yaml payload p]) (simp_all add: applyLoggingConfig_def)
  moreover have "callbackOK (host (snd (handleInterceptAfter a J e payload p)))"
    using assms by (cases rule: handleInterceptAfter_cases [of a J e payload p]) (simp_all add: interceptAfter_callbackOK)
  moreover have "callbackOK (host (snd (handleNative a J nt e e2 method payload p)))"
    using assms by (cases rule: handleNative_cases [of a J nt e e2 "method" payload p]) (simp_all add: onManager_def)
  ultimately show ?thesis using assms by (simp add: HandleCall_def handleShutdown_def)
qed

interpretation callback_calls: served "\<lambda>c p. snd (oneCall a J nt yaml c p)" "\<lambda>c. True"
    "\<lambda>p. callbackOK (host p)" for a J nt yaml
  by unfold_locales (simp add: oneCall_def HandleCall_callbackOK)

lemma serve_callbackOK: "callbackOK (host p) \<Longrightarrow> callbackOK (host (serve a J nt yaml calls p))"
  unfolding serve_def by (rule callback_calls.kept_by_all) simp_all

end
