(* ===== verification/Intercept_Props.thy ===== *)
theory Intercept_Props
  imports Calls Session_Properties
begin

section \<open>Lemmas on intercepted requests\<close>

text \<open>
  What the answer to \<open>request.intercept_after\<close> holds: on the fingerprint path the official
  session, the same one for the same identity, and exactly the headers the setup warning
  asks for; off it, neither a body nor cleared headers.
\<close>

subsection \<open>The fingerprint path\<close>

lemma identityStep_nonempty:
  "fst (identityStep e req cfg True project (hs, vals)) \<noteq> []"
  by (simp add: identityStep_fingerprint Let_def)

lemma fingerprint_response:
  assumes "shaped req (mcfg (manager p))" "fingerprintApplies req (mcfg (manager p))"
  obtains res v where
    "requestSession J e req (mcfg (manager p)) True = Some res"
    "shapedSession e (Value res) (sessionIDs (manager p)) =
       (v, sessionIDs (manager (snd (interceptAfter J e req p))))"
    "RespHeaders (fst (interceptAfter J e req p)) =
       fst (identityStep e req (mcfg (manager p)) True (requestProject req (mcfg (manager p)))
         (headerSet (HeaderName (CSession (mcfg (manager p)))) v
           (headerMerge (opencodeHeaders e v (requestProject req (mcfg (manager p))))
             (nativeMarkers req)), []))"
proof -
  let ?cfg = "mcfg (manager p)"
  obtain resp vals cache changed where
    s: "shapeRequest J e req ?cfg (sessionIDs (manager p)) = (resp, vals, cache, changed)"
    by (metis prod_cases4)
  obtain res v cache' where r: "requestSession J e req ?cfg True = Some res"
    "shapedSession e (Value res) (sessionIDs (manager p)) = (v, cache')"
    "RespHeaders resp = fst (identityStep e req ?cfg True (requestProject req ?cfg)
       (headerSet (HeaderName (CSession ?cfg)) v
         (headerMerge (opencodeHeaders e v (requestProject req ?cfg)) (nativeMarkers req)), []))"
    "cache = cache'"
    using shapeRequest_fingerprint [OF assms(2), of J e "sessionIDs (manager p)"] s by force
  then have "RespHeaders resp \<noteq> []" using identityStep_nonempty by metis
  then have "fst (interceptAfter J e req p) = resp"
    "sessionIDs (manager (snd (interceptAfter J e req p))) = cache"
    using interceptAfter_shape(1,2) [OF assms(1) s] by auto
  with r show ?thesis using that by simp
qed

text \<open>A name that step 2 does not set after step 1.\<close>

definition sessionName :: "Config \<Rightarrow> string \<Rightarrow> bool" where
  "sessionName cfg n \<longleftrightarrow>
     n \<in> set (HeaderName (CSession cfg) # sessionHeaderNames) \<and>
     CanonicalHeaderKey n \<notin> CanonicalHeaderKey ` set (identityNames cfg)"

lemma fingerprint_response_session:
  assumes "shaped req (mcfg (manager p))" "fingerprintApplies req (mcfg (manager p))"
  obtains res v where
    "requestSession J e req (mcfg (manager p)) True = Some res"
    "shapedSession e (Value res) (sessionIDs (manager p)) =
       (v, sessionIDs (manager (snd (interceptAfter J e req p))))"
    "\<And>n. sessionName (mcfg (manager p)) n \<Longrightarrow>
       headerFirst (RespHeaders (fst (interceptAfter J e req p))) n = v"
  using fingerprint_response [OF assms, of J e]
  by (metis fingerprint_session_headers sessionName_def)

lemma shapedSession_learn:
  "shapedSession e v cache = (w, cache') \<Longrightarrow>
     w = v \<and> isOpenCodeSessionID v \<or> \<not> isOpenCodeSessionID v \<and> cachedID cache' v = Some w"
  using session_ids.learn [of e v cache w cache'] by (auto simp: shapedSession_def split: if_splits)

lemma shapedSession_again:
  assumes "shapedSession e v cache = (w, cache1)"
    and "\<not> isOpenCodeSessionID v \<Longrightarrow> cachedID cache1 v = Some w \<Longrightarrow> cachedID cache2 v = Some w"
  shows "fst (shapedSession e' v cache2) = w"
  using shapedSession_learn [OF assms(1)] assms(2) session_ids.hit [of cache2 v w e']
  by (auto simp: shapedSession_def)

subsection \<open>Off the fingerprint path\<close>

lemma sessionStep_plain_cache: "snd (snd (sessionStep J e req cfg False project (hs, vals, cache))) = cache"
  by (simp add: sessionStep_def Let_def split: option.splits)

lemma shapeRequest_plain:
  assumes "\<not> fingerprintApplies req cfg"
  shows "RespBody (fst (shapeRequest J e req cfg cache)) = [] \<and>
    ClearHeaders (fst (shapeRequest J e req cfg cache)) = [] \<and>
    fst (snd (snd (shapeRequest J e req cfg cache))) = cache"
proof -
  obtain hs vals c where st: "sessionStep J e req cfg False (requestProject req cfg)
      (nativeMarkers req, [(''fingerprint'', FormatBool False)], cache) = (hs, vals, c)"
    by (metis prod_cases3)
  then have "c = cache" using sessionStep_plain_cache [of J e req cfg "requestProject req cfg"] by (metis snd_conv)
  with st assms show ?thesis by (simp add: shapeRequest_def Let_def split: prod.splits)
qed

lemma interceptAfter_plain:
  assumes "\<not> fingerprintApplies req (mcfg (manager p))"
  shows "RespBody (fst (interceptAfter J e req p)) = [] \<and>
    ClearHeaders (fst (interceptAfter J e req p)) = [] \<and>
    manager (snd (interceptAfter J e req p)) = manager p"
proof (cases "shaped req (mcfg (manager p))")
  case False
  then show ?thesis by (simp add: interceptAfter_skip emptyResponse_def)
next
  case True
  obtain resp vals cache changed where
    s: "shapeRequest J e req (mcfg (manager p)) (sessionIDs (manager p)) = (resp, vals, cache, changed)"
    by (metis prod_cases4)
  with shapeRequest_plain [OF assms, of J e "sessionIDs (manager p)"]
  have "RespBody resp = []" "ClearHeaders resp = []" "cache = sessionIDs (manager p)" by simp_all
  with s True assms show ?thesis
    by (auto simp: interceptAfter_def Let_def shaped_def emptyResponse_def)
qed

subsection \<open>The header glue\<close>

definition headerNames :: "header \<Rightarrow> string set" where
  "headerNames hs = fst ` set hs"

definition filled :: "header \<Rightarrow> bool" where
  "filled hs \<longleftrightarrow> (\<forall>n\<in>headerNames hs. headerFirst hs n \<noteq> [] \<and> CanonicalHeaderKey n = n)"

lemma headerNames_Nil [simp]: "headerNames [] = {}"
  by (simp add: headerNames_def)

lemma headerNames_set [simp]:
  "headerNames (headerSet name v hs) = insert (CanonicalHeaderKey name) (headerNames hs)"
  by (simp add: headerNames_def headerSet_def dom_update)

lemma headerNames_merge:
  "headerNames (headerMerge src dst) = headerNames src \<union> headerNames dst"
  unfolding headerMerge_def headerNames_def
  by (induction src arbitrary: dst) (auto simp: dom_update split: prod.splits)

lemma filled_set: "filled hs \<Longrightarrow> v \<noteq> [] \<Longrightarrow> filled (headerSet name v hs)"
  by (auto simp: filled_def headerFirst_set)

lemma of_char_upperByte:
  "(of_char (upperByte c) :: nat) =
     (if 97 \<le> (of_char c :: nat) \<and> (of_char c :: nat) \<le> 122 then of_char c - 32 else of_char c)"
proof (cases "97 \<le> (of_char c :: nat) \<and> (of_char c :: nat) \<le> 122")
  case True
  then have "((of_char c :: nat) - 32) mod 256 = of_char c - 32" by (intro mod_less) arith
  with True show ?thesis by (simp add: upperByte_def)
next
  case False
  then show ?thesis by (auto simp: upperByte_def Let_def)
qed

lemma upper_lower [simp]: "upperByte (lowerByte c) = upperByte c"
proof -
  have "(of_char (upperByte (lowerByte c)) :: nat) = of_char (upperByte c)"
    by (simp only: of_char_upperByte of_char_lowerByte) arith
  then show ?thesis by (simp only: of_char_eq_iff)
qed

lemma canonBytes_lower: "canonBytes up (map lowerByte s) = canonBytes up s"
proof (induction up s rule: canonBytes.induct)
  case (2 up c s)
  then show ?case by (cases up) (simp_all add: Let_def)
qed simp

lemma token_ascii: "list_all isTokenByte s \<Longrightarrow> asciiOnly s"
  by (auto simp: asciiOnly_def list_all_iff isTokenByte_def Let_def)

lemma token_visible: "isTokenByte c \<Longrightarrow> visibleByte c"
  by (auto simp: isTokenByte_def visibleByte_def Let_def)

lemma CanonicalHeaderKey_fold:
  assumes "list_all isTokenByte s" "list_all isTokenByte t" "EqualFold s t"
  shows "CanonicalHeaderKey s = CanonicalHeaderKey t"
proof -
  have "map lowerByte s = map lowerByte t"
    using assms by (simp add: EqualFold_def foldCase_ascii token_ascii)
  then have "canonBytes True s = canonBytes True t" by (metis canonBytes_lower)
  with assms show ?thesis by (simp add: CanonicalHeaderKey_def)
qed

lemma headerNames_map_of: "n \<in> headerNames hs \<longleftrightarrow> map_of hs n \<noteq> None"
  by (auto simp: headerNames_def map_of_eq_None_iff)

lemma filled_merge:
  assumes "filled src" "filled dst" "uniqueKeys src" "uniqueKeys dst"
  shows "filled (headerMerge src dst)"
  unfolding filled_def headerNames_merge
proof
  fix n
  assume n: "n \<in> headerNames src \<union> headerNames dst"
  with assms(1,2) have c: "CanonicalHeaderKey n = n" by (auto simp: filled_def)
  have "headerFirst (headerMerge src dst) n = headerFirst (if n \<in> headerNames src then src else dst) n"
    using assms(3,4)
    by (auto simp: headerFirst_def c map_of_headerMerge headerNames_map_of split: option.splits)
  with n c assms(1,2) show "headerFirst (headerMerge src dst) n \<noteq> [] \<and> CanonicalHeaderKey n = n"
    by (auto simp: filled_def split: if_splits)
qed

lemma canonical_constants:
  "CanonicalHeaderKey ''User-Agent'' = ''User-Agent''" "CanonicalHeaderKey ''Accept'' = ''Accept''"
  "CanonicalHeaderKey DefaultIdentityHeader = ''X-Opencode-Client''"
  "CanonicalHeaderKey HeaderOpenCodeProject = ''X-Opencode-Project''"
  "CanonicalHeaderKey HeaderOpenCodeSessionID = ''X-Opencode-Session-Id''"
  "CanonicalHeaderKey ''X-Opencode-Session'' = ''X-Opencode-Session''"
  "CanonicalHeaderKey ''X-Session-Affinity'' = ''X-Session-Affinity''"
  "CanonicalHeaderKey ''X-Session-Id'' = ''X-Session-Id''"
  "CanonicalHeaderKey ''B3'' = ''B3''" "CanonicalHeaderKey ''Traceparent'' = ''Traceparent''"
  by code_simp+

lemma filled_opencodeHeaders:
  assumes "session \<noteq> []"
  shows "filled (opencodeHeaders e session project)"
proof -
  have "length (ProjectID e project) = 40" using ProjectID_shape by (simp add: isProjectHash_def)
  then have "ProjectID e project \<noteq> []" by auto
  with assms show ?thesis
    unfolding opencodeHeaders_def Let_def sessionHeaderNames_def fold_simps comp_def id_def
    by (intro filled_set) (simp_all add: filled_def DefaultFingerprintUA_def DefaultFingerprintAccept_def)
qed

lemma headerNames_opencode:
  "headerNames (opencodeHeaders e session project) =
     {''User-Agent'', ''Accept'', ''X-Opencode-Client'', ''X-Opencode-Project'', ''X-Opencode-Session'',
      ''X-Opencode-Session-Id'', ''X-Session-Affinity'', ''X-Session-Id'', ''B3'', ''Traceparent''}"
  by (simp add: headerNames_def opencodeHeaders_list)

lemma headerNames_opencode_same:
  "headerNames (opencodeHeaders e session project) = headerNames (opencodeHeaders e' [] [])"
  by (simp add: headerNames_opencode)

lemma opencode_names_in:
  "''User-Agent'' \<in> headerNames (opencodeHeaders e [] [])"
  "''Accept'' \<in> headerNames (opencodeHeaders e [] [])"
  "''X-Opencode-Client'' \<in> headerNames (opencodeHeaders e [] [])"
  "''X-Opencode-Project'' \<in> headerNames (opencodeHeaders e [] [])"
  by (simp_all add: headerNames_opencode)

lemma insert_known:
  "p \<in> E \<Longrightarrow> c \<in> E \<Longrightarrow> u \<in> E \<Longrightarrow>
     insert p (insert c (insert u (insert x (insert h E)))) = {x, h} \<union> E"
  "a \<in> E \<Longrightarrow> insert a ({x, h} \<union> E) = {x, h} \<union> E"
  by blast+

lemma fingerprint_names:
  assumes "plugin_ok p" "shaped req (mcfg (manager p))" "fingerprintApplies req (mcfg (manager p))"
    and "\<not> isNativeAuth req"
  shows "headerNames (RespHeaders (fst (interceptAfter J e req p))) =
      {CanonicalHeaderKey (outboundUAHeader (mcfg (manager p))),
       CanonicalHeaderKey (HeaderName (CSession (mcfg (manager p))))} \<union>
      headerNames (opencodeHeaders e [] []) \<and>
    filled (RespHeaders (fst (interceptAfter J e req p)))"
proof -
  let ?cfg = "mcfg (manager p)"
  obtain res v where "requestSession J e req ?cfg True = Some res" and r:
    "shapedSession e (Value res) (sessionIDs (manager p)) =
       (v, sessionIDs (manager (snd (interceptAfter J e req p))))"
    "RespHeaders (fst (interceptAfter J e req p)) =
       fst (identityStep e req ?cfg True (requestProject req ?cfg)
         (headerSet (HeaderName (CSession ?cfg)) v
           (headerMerge (opencodeHeaders e v (requestProject req ?cfg)) (nativeMarkers req)), []))"
    by (rule fingerprint_response [OF assms(2,3), of J e])
  have "cache_ok (sessionIDs (manager p))" using assms(1) by (simp add: plugin_ok_def)
  from shapedSession_id [OF this r(1)] have v: "v \<noteq> []"
    by (auto simp: isOpenCodeSessionID_def openCodeSessionRE_def)
  have m: "nativeMarkers req = []" using assms(4) by (simp add: nativeMarkers_def)
  have "length (ProjectID e (requestProject req ?cfg)) = 40" using ProjectID_shape by (simp add: isProjectHash_def)
  then have p: "ProjectID e (requestProject req ?cfg) \<noteq> []" by auto
  have ne: "fingerprintValue (FpUserAgent (CFingerprint ?cfg)) DefaultFingerprintUA \<noteq> []"
    "fingerprintValue (FpClient (CFingerprint ?cfg)) DefaultFingerprintClient \<noteq> []"
    by (rule fingerprintValue_nonempty; simp add: DefaultFingerprintUA_def DefaultFingerprintClient_def)+
  have "filled (headerSet (HeaderName (CSession ?cfg)) v
      (headerMerge (opencodeHeaders e v (requestProject req ?cfg)) []))"
    by (intro filled_set filled_merge filled_opencodeHeaders opencodeHeaders_unique v)
      (simp_all add: filled_def)
  then have "filled (RespHeaders (fst (interceptAfter J e req p)))"
    using ne p unfolding r(2) identityStep_fingerprint Let_def m by (simp add: filled_set)
  moreover have "headerNames (RespHeaders (fst (interceptAfter J e req p))) =
      {CanonicalHeaderKey (outboundUAHeader ?cfg), CanonicalHeaderKey (HeaderName (CSession ?cfg))} \<union>
      headerNames (opencodeHeaders e [] [])"
    unfolding r(2) identityStep_fingerprint Let_def m
    by (simp only: headerNames_set headerNames_merge headerNames_Nil Un_empty_right canonical_constants
        headerNames_opencode_same [of e v _ e] insert_known opencode_names_in if_distrib [of headerNames]
        if_cancel)
  ultimately show ?thesis by blast
qed

text \<open>The names a credential refers to when it declares the entries of the warning.\<close>

lemma glue_references:
  assumes "list_all isTokenByte (HeaderName (CSession cfg))" "HeaderName (CSession cfg) \<noteq> []"
  shows "insert ''User-Agent'' (CanonicalHeaderKey ` snd ` set (glueEntries cfg)) =
    {CanonicalHeaderKey (outboundUAHeader cfg), CanonicalHeaderKey (HeaderName (CSession cfg))} \<union>
    headerNames (opencodeHeaders e [] [])"
proof -
  have "TrimSpace (HeaderName (CSession cfg)) = HeaderName (CSession cfg)"
    using assms token_visible by (intro TrimSpace_visible) (auto simp: list_all_iff)
  moreover have "EqualFold (HeaderName (CSession cfg)) ''X-Opencode-Session'' \<Longrightarrow>
      CanonicalHeaderKey (HeaderName (CSession cfg)) = ''X-Opencode-Session''"
    using CanonicalHeaderKey_fold [OF assms(1), of "''X-Opencode-Session''"]
    by (simp add: canonical_constants isTokenByte_def)
  ultimately show ?thesis
    using assms(2)
    by (auto simp: glueEntries_def Let_def headerNames_opencode canonical_constants)
qed

subsection \<open>Native sessions and warnings\<close>

definition rewrittenNames :: "Config \<Rightarrow> string set" where
  "rewrittenNames cfg =
     (if BoolVal (Rewrite (CUserAgent cfg)) DefaultRewriteUA then
        {outboundUAHeader cfg, DefaultIdentityHeader} \<union>
        (if SetUserAgentHeader (CUserAgent cfg) then {''User-Agent''} else {})
      else {})"

definition markerNames :: "RequestInterceptRequest \<Rightarrow> string set" where
  "markerNames req =
     (if isNativeAuth req then {nativeExecutionIDHeader, nativeSourceFormatHeader} else {})"

lemma identityStep_plain_names:
  "headerNames (fst (identityStep e req cfg False project (hs, vals))) \<subseteq>
     headerNames hs \<union> CanonicalHeaderKey ` rewrittenNames cfg"
  by (auto simp: identityStep_def rewrittenNames_def Let_def split: prod.splits if_splits)

lemma nativeMarkers_names: "headerNames (nativeMarkers req) \<subseteq> CanonicalHeaderKey ` markerNames req"
  by (auto simp: nativeMarkers_def markerNames_def)

text \<open>The session header is only set when a session was found that the client does not send there.\<close>

definition sessionNames :: "codec \<Rightarrow> RequestInterceptRequest \<Rightarrow> Config \<Rightarrow> string set" where
  "sessionNames J req cfg =
     (if resolveSessionID J req cfg (HeaderName (CSession cfg)) = None \<or>
         cleanSession (headerGet (ReqHeaders req) (HeaderName (CSession cfg))) \<noteq> [] then {}
      else {HeaderName (CSession cfg)})"

lemma native_session_resolved:
  "cleanSession (headerGet (ReqHeaders req) n) \<noteq> [] \<Longrightarrow>
     \<exists>res. resolveSessionID J req cfg n = Some res \<and> Source res = ''native''"
  by (cases "headerValue (ReqHeaders req) n")
    (simp_all add: resolveSessionID_def cleanHeader_def headerGet_def Let_def cleanSession_def [of "[]"])

lemma sessionStep_plain_names:
  "headerNames (fst (sessionStep J e req cfg False project (hs, vals, cache))) \<subseteq>
     headerNames hs \<union> CanonicalHeaderKey ` sessionNames J req cfg"
  using native_session_resolved [of req "HeaderName (CSession cfg)" J cfg]
  by (auto simp: sessionStep_def requestSession_def sessionNames_def Let_def split: option.splits if_splits)

lemma plain_names:
  assumes "\<not> fingerprintApplies req cfg"
  shows "headerNames (RespHeaders (fst (shapeRequest J e req cfg cache))) \<subseteq>
     CanonicalHeaderKey ` (sessionNames J req cfg \<union> rewrittenNames cfg \<union> markerNames req)"
proof -
  let ?project = "requestProject req cfg"
  let ?vals = "[(''fingerprint'', FormatBool False)]"
  obtain hs vals' cache' where
    s: "sessionStep J e req cfg False ?project (nativeMarkers req, ?vals, cache) = (hs, vals', cache')"
    by (metis prod_cases3)
  have r: "RespHeaders (fst (shapeRequest J e req cfg cache)) =
      fst (identityStep e req cfg False ?project (hs, vals'))"
    using assms s by (simp add: shapeRequest_def Let_def split: prod.splits)
  have "headerNames hs \<subseteq> headerNames (nativeMarkers req) \<union> CanonicalHeaderKey ` sessionNames J req cfg"
    using sessionStep_plain_names [of J e req cfg ?project "nativeMarkers req" ?vals cache] s by simp
  then show ?thesis
    using identityStep_plain_names [of e req cfg ?project hs vals'] nativeMarkers_names [of req]
    unfolding r image_Un by blast
qed

text \<open>The session header outside the fingerprint path, for a session that is not the client's own.\<close>

lemma plain_session_header:
  assumes "\<not> fingerprintApplies req (mcfg (manager p))" "shaped req (mcfg (manager p))"
    and "resolveSessionID J req (mcfg (manager p)) (HeaderName (CSession (mcfg (manager p)))) = Some res"
    and "Source res \<noteq> ''native''"
    and "CanonicalHeaderKey (HeaderName (CSession (mcfg (manager p)))) \<notin>
      CanonicalHeaderKey ` set (identityNames (mcfg (manager p)))"
  shows "headerFirst (RespHeaders (fst (interceptAfter J e req p))) (HeaderName (CSession (mcfg (manager p)))) =
    sessionHeaderValue res (mcfg (manager p))"
proof -
  let ?cfg = "mcfg (manager p)" and ?project = "requestProject req (mcfg (manager p))"
  let ?name = "HeaderName (CSession (mcfg (manager p)))"
  let ?vals = "[(''fingerprint'', FormatBool False)]"
  obtain resp vals cache changed where
    s: "shapeRequest J e req ?cfg (sessionIDs (manager p)) = (resp, vals, cache, changed)"
    by (metis prod_cases4)
  obtain hs vals' cache' where
    h: "sessionStep J e req ?cfg False ?project (nativeMarkers req, ?vals, sessionIDs (manager p)) = (hs, vals', cache')"
    by (metis prod_cases3)
  then have "map_of hs (CanonicalHeaderKey ?name) = Some [sessionHeaderValue res ?cfg]"
    using assms(3,4) by (auto simp: sessionStep_def requestSession_def Let_def headerSet_get)
  moreover have "RespHeaders resp = fst (identityStep e req ?cfg False ?project (hs, vals'))"
    using assms(1) s h by (auto simp: shapeRequest_def Let_def split: prod.splits)
  ultimately have m: "map_of (RespHeaders resp) (CanonicalHeaderKey ?name) = Some [sessionHeaderValue res ?cfg]"
    using identityStep_other [OF assms(5)] by simp
  then have "RespHeaders resp \<noteq> []" by auto
  with interceptAfter_shape(1) [OF assms(2) s] m show ?thesis by (simp add: headerFirst_def)
qed

text \<open>An official id depends on the identity through its digest alone.\<close>

lemma shapeSessionID_digest:
  "sessionDigest w = sessionDigest v \<Longrightarrow> shapeSessionID e w cache = shapeSessionID e v cache"
  by (simp add: shapeSessionID_def)

lemma interceptAfter_names:
  "headerNames (RespHeaders (fst (interceptAfter J e req p))) \<subseteq>
     headerNames (RespHeaders (fst (shapeRequest J e req (mcfg (manager p)) (sessionIDs (manager p)))))"
  by (auto simp: interceptAfter_def Let_def emptyResponse_def split: prod.splits)

text \<open>Warnings in the log; every other line has another level.\<close>

definition isWarning :: "json \<Rightarrow> bool" where
  "isWarning line \<longleftrightarrow> jget (objVal line) ''level'' = JStr ''warn''"

definition warnings :: "Plugin \<Rightarrow> json list" where
  "warnings p = filter isWarning (hostLog (host p))"

lemma logToHost_warnings:
  "level \<noteq> ''warn'' \<Longrightarrow> filter isWarning (hostLog (logToHost level msg flds h)) = filter isWarning (hostLog h)"
  by (simp add: logToHost_def logToHostAlways_def isWarning_def jget_def Let_def split: option.split)

lemma log_lines_no_warning [simp]:
  "filter isWarning (hostLog (logIntercept req vals c h)) = filter isWarning (hostLog h)"
  "filter isWarning (hostLog (logSkip req h)) = filter isWarning (hostLog h)"
  by (simp_all add: logIntercept_def logSkip_def logToHost_warnings)

text \<open>A credential that has been warned about, or needs no warning.\<close>

definition warnedFor :: "string \<Rightarrow> Plugin \<Rightarrow> bool" where
  "warnedFor auth p \<longleftrightarrow> warnKey auth \<in> warnedAuths (manager p)"

lemma warnGlue_grows: "warned \<subseteq> fst (warnGlueRequirement a cfg (warned, h))"
  by (auto simp: warnGlueRequirement_def Let_def)

lemma interceptAfter_warned:
  "warnedAuths (manager p) \<subseteq> warnedAuths (manager (snd (interceptAfter J e req p)))"
  using warnGlue_grows [of "warnedAuths (manager p)" "metadataString (ReqMetadata req) ''selected_auth_id''"
      "mcfg (manager p)" "host p"]
  by (auto simp: interceptAfter_def Let_def split: prod.splits)

lemma interceptAfter_quiet:
  assumes "warnedFor (metadataString (ReqMetadata req) ''selected_auth_id'') p"
  shows "warnings (snd (interceptAfter J e req p)) = warnings p"
proof -
  have "warnGlueRequirement (metadataString (ReqMetadata req) ''selected_auth_id'') (mcfg (manager p))
      (warnedAuths (manager p), host p) = (warnedAuths (manager p), host p)"
    using assms by (simp add: warnGlueRequirement_def warnedFor_def Let_def)
  then show ?thesis by (simp add: interceptAfter_def warnings_def Let_def split: prod.splits)
qed

lemma interceptAfter_learns_warning:
  assumes "shaped req (mcfg (manager p))" "fingerprintApplies req (mcfg (manager p))" "\<not> isNativeAuth req"
    and "BoolVal (WarnMissingGlue (CFingerprint (mcfg (manager p)))) DefaultFingerprintWarnGlue"
  shows "warnedFor (metadataString (ReqMetadata req) ''selected_auth_id'')
    (snd (interceptAfter J e req p))"
  using assms
  by (auto simp: warnedFor_def interceptAfter_def shaped_def warnGlueRequirement_def Let_def
      split: prod.splits)

definition keepsWarnings :: "call \<Rightarrow> bool" where
  "keepsWarnings c \<longleftrightarrow> callMethod c \<notin>
     set [''plugin.register'', ''plugin.reconfigure'', ''plugin.shutdown'', ''plugin.quiesce'']"

lemma sendUpstream_warned: "warnedAuths (snd (sendUpstream J nt e2 auth req stream body hs m)) = warnedAuths m"
  using sendUpstream_result [of J nt e2 auth req stream body hs m] by auto

lemma executeNative_warned: "warnedAuths (snd (executeNative J nt e e2 req stream m)) = warnedAuths m"
  by (cases rule: executeNative_cases [of J nt e e2 req stream m]) (simp_all add: sendUpstream_warned)

lemma oneCall_warned:
  assumes "keepsWarnings c" "warnedFor auth p"
  shows "warnedFor auth (snd (oneCall a J nt yaml c p))"
proof -
  have n: "warnedFor auth (snd (handleNative a J nt (callEnv c) (callEnv2 c) (callMethod c) (callPayload c) p))"
    by (cases rule: handleNative_cases [of a J nt "callEnv c" "callEnv2 c" "callMethod c" "callPayload c" p])
      (use assms(2) in \<open>auto simp: warnedFor_def onManager_def executeNative_warned\<close>)
  have h: "warnedFor auth (snd (handleInterceptAfter a J (callEnv c) (callPayload c) p))"
    by (cases rule: handleInterceptAfter_cases [of a J "callEnv c" "callPayload c" p])
      (use assms(2) in \<open>auto simp: warnedFor_def intro: subsetD [OF interceptAfter_warned]\<close>)
  show ?thesis
    using assms n h by (simp add: oneCall_def HandleCall_def keepsWarnings_def)
qed

interpretation warned_calls: served "\<lambda>c p. snd (oneCall a J nt yaml c p)" keepsWarnings "warnedFor auth"
  for a J nt yaml auth
  by unfold_locales (rule oneCall_warned)

subsection \<open>Sample arguments\<close>

text \<open>
  Concrete arguments for the parameters of a call, used in the instances of the properties:
  payloads that decode to \<open>plainRequest\<close>, a network without an upstream, a configuration
  file that keeps the defaults.
\<close>

definition plainAbi :: abi where
  "plainAbi =
    \<lparr> dLifecycle = (\<lambda>b. Inr b), dIntercept = (\<lambda>b. Inr plainRequest), dParse = (\<lambda>b. Inl ''no''),
      dForAuth = (\<lambda>b. Inl ''no''), dExecutor = (\<lambda>b. Inl ''no''), dComplete = (\<lambda>b. Inr b),
      dRefresh = (\<lambda>b. Inl ''no'') \<rparr>"

definition offlineNet :: net where
  "offlineNet =
    \<lparr> urlParse = (\<lambda>s. None), proxyFromEnvironment = (\<lambda>s. Inr None),
      nativeClient = (\<lambda>s. Inl ''offline''), statusText = (\<lambda>c. []), secondsUntil = (\<lambda>s. None) \<rparr>"

definition keepConfig :: "string \<Rightarrow> Config \<Rightarrow> string + Config" where
  "keepConfig b cfg = Inr cfg"

end
