(* ===== verification/Upstream_Props.thy ===== *)
theory Upstream_Props
  imports Native_Properties Calls
begin

section \<open>Lemmas on upstream requests\<close>

text \<open>
  What \<open>executeNative\<close> sends and what it leaves behind. \<open>guarded\<close> puts a filter before the
  HTTP client: a request that does not satisfy the predicate is not sent but answered by
  \<open>blocked\<close>. That the filter makes no difference says that every request satisfies it.
\<close>

subsection \<open>The registry after an execution\<close>

definition settled :: "Registry \<Rightarrow> Registry \<Rightarrow> bool" where
  "settled r r' \<longleftrightarrow>
     (\<forall>i h. map_of (nativeRequests r') i = Some h \<longrightarrow> map_of (nativeRequests r) i = Some h) \<and>
     (\<forall>h. nextExec r \<le> h \<and> h < nextExec r' \<longrightarrow> h \<in> cancelled r')"

lemma settled_refl: "settled r r"
  by (auto simp: settled_def)

lemma nativeContext_fresh [simp]:
  "fst (nativeContext i r) = nextExec r"
  "nextExec (snd (nativeContext i r)) = Suc (nextExec r)"
  by (simp_all add: nativeContext_def Let_def)

lemma cleanupExec_simps [simp]:
  "nextExec (cleanupExec i h r) = nextExec r"
  "cancelled (cleanupExec i h r) = insert h (cancelled r)"
  by (simp_all add: cleanupExec_def)

lemma settled_cleanup:
  "settled r (cleanupExec i (fst (nativeContext i r)) (snd (nativeContext i r)))"
  using cleanup_after_context [of i r] by (auto simp: settled_def split: if_splits)

text \<open>A reply that is not a stream leaves the registry alone or runs the clean-up.\<close>

definition endsAs :: "Registry \<Rightarrow> Registry \<Rightarrow> bool" where
  "endsAs r r' \<longleftrightarrow> r' = r \<or> (\<exists>i. r' = cleanupExec i (nextExec r) (snd (nativeContext i r)))"

lemma endsAs_settled: "endsAs r r' \<Longrightarrow> settled r r'"
  using settled_cleanup [of r] by (auto simp: endsAs_def settled_refl)

lemma sendUpstream_ends:
  assumes "sendUpstream J nt e2 auth req stream body hs m = (reply, m')"
    and "\<And>hs job. reply \<noteq> Some (OKEnv (Streaming hs job))"
  shows "endsAs (registry m) (registry m')"
proof (cases rule: sendUpstream_cases [of J nt e2 auth req stream body hs m])
  case (answered proxy client rsp)
  let ?i = "executionID e2 req"
  let ?h = "fst (nativeContext ?i (registry m))" and ?r = "snd (nativeContext ?i (registry m))"
  have "m' = m\<lparr> registry := cleanupExec ?i ?h ?r \<rparr>"
    using assms answered(3) by (auto simp: handleResponse_def OKEnvelope_def Let_def split: if_splits)
  then show ?thesis by (auto simp: endsAs_def)
qed (use assms(1) in \<open>auto simp: endsAs_def\<close>)

lemma executeNative_ends:
  assumes "executeNative J nt e e2 req stream m = (reply, m')"
    and "\<And>hs job. reply \<noteq> Some (OKEnv (Streaming hs job))"
  shows "endsAs (registry m) (registry m')"
  using assms sendUpstream_ends [of J nt e2 _ req stream _ _ "m\<lparr> sessionIDs := _ \<rparr>" reply m']
  by (cases rule: executeNative_cases [of J nt e e2 req stream m]) (auto simp: endsAs_def)

lemmas executeNative_settled = executeNative_ends [THEN endsAs_settled]

lemma collectCompletion_not_streaming: "collectCompletion J key rsp \<noteq> Some (OKEnv (Streaming hs job))"
  by (auto simp: collectCompletion_def OKEnvelope_def nativeError_def
      split: prod.splits added.splits option.splits sum.splits)

lemma sendUpstream_streaming:
  assumes "sendUpstream J nt e2 auth req stream body hs m = (Some (OKEnv (Streaming hs' job)), m')"
  shows "JobHandle job = nextExec (registry m) \<and>
    registry m' = snd (nativeContext (JobID job) (registry m))"
proof (cases rule: sendUpstream_cases [of J nt e2 auth req stream body hs m])
  case (answered proxy client rsp)
  then show ?thesis
    using assms collectCompletion_not_streaming [THEN not_sym]
    by (auto simp: handleResponse_def OKEnvelope_def nativeError_def nativeUpstreamError_def
        Let_def split: if_splits)
qed (use assms in auto)

lemma runStream_registry:
  "registry (fst (runStream J fn job m w)) = cleanupExec (JobID job) (JobHandle job) (registry m)"
  by (simp add: runStream_def Let_def split: prod.splits)

lemma executeNative_starts:
  assumes "executeNative J nt e e2 req stream m = (Some (OKEnv (Streaming hs job)), m')"
  shows "JobHandle job = nextExec (registry m) \<and>
    registry m' = snd (nativeContext (JobID job) (registry m))"
  using assms sendUpstream_streaming [of J nt e2 _ req stream _ _ "m\<lparr> sessionIDs := _ \<rparr>" hs job m']
  by (cases rule: executeNative_cases [of J nt e e2 req stream m]) auto

lemma executeNative_streaming:
  assumes "executeNative J nt e e2 req stream m = (Some (OKEnv (Streaming hs job)), m')"
  shows "settled (registry m) (registry (fst (runStream J fn job m' w)))"
  using settled_cleanup [of "registry m" "JobID job"] executeNative_starts [OF assms]
  by (simp add: runStream_registry)

subsection \<open>The headers sent\<close>

definition internalHeaders :: "string list" where
  "internalHeaders =
     [''X-Opencode-Request'', nativeExecutionIDHeader, nativeSourceFormatHeader] @ droppedRequestHeaders"

lemma map_of_drop_all:
  "map_of (fold headerDel ns hs) k = (if k \<in> CanonicalHeaderKey ` set ns then None else map_of hs k)"
  by (induction ns arbitrary: hs) (auto simp: headerDel_def delete_conv')

lemma customHeaders_unique: "uniqueKeys hs \<Longrightarrow> uniqueKeys (customHeaders incoming own hs)"
  by (induction incoming own hs rule: customHeaders.induct) (simp_all add: Let_def)

lemma credentialHeaders_unique: "uniqueKeys (credentialHeaders incoming auth)"
  by (simp add: credentialHeaders_def customHeaders_unique)

lemma nativeHeaders_at:
  "\<exists>project. \<forall>k. map_of (nativeHeaders e cfg incoming auth session) k =
     (if k \<in> CanonicalHeaderKey ` set internalHeaders then None
      else if k = CanonicalHeaderKey (HeaderName (CSession cfg)) then Some [session]
      else if k = CanonicalHeaderKey DefaultIdentityHeader
      then Some [fingerprintValue (FpClient (CFingerprint cfg)) DefaultFingerprintClient]
      else if k = CanonicalHeaderKey ''Accept''
      then Some [fingerprintValue (FpAccept (CFingerprint cfg)) DefaultFingerprintAccept]
      else if k = CanonicalHeaderKey ''User-Agent''
      then Some [fingerprintValue (FpUserAgent (CFingerprint cfg)) DefaultFingerprintUA]
      else (case map_of (opencodeHeaders e session project) k of
              Some v \<Rightarrow> Some v | None \<Rightarrow> map_of (credentialHeaders incoming auth) k))"
  unfolding nativeHeaders_def Let_def internalHeaders_def [symmetric] map_of_drop_all headerSet_get
    map_of_headerMerge [OF credentialHeaders_unique opencodeHeaders_unique]
  by (rule exI, rule allI, rule refl)

lemma nativeHeaders_internal:
  "n \<in> set internalHeaders \<Longrightarrow>
     map_of (nativeHeaders e cfg incoming auth session) (CanonicalHeaderKey n) = None"
  using nativeHeaders_at [of e cfg incoming auth session] by (auto simp del: set_append)

definition plainNames :: "string list" where
  "plainNames = internalHeaders @ [''User-Agent'', ''Accept'', DefaultIdentityHeader]"

lemma internal_not_named:
  assumes "n \<in> set (''Authorization'' # sessionHeaderNames)"
  shows "CanonicalHeaderKey n \<notin> CanonicalHeaderKey ` set plainNames"
proof -
  have "list_all (\<lambda>n. CanonicalHeaderKey n \<notin> set (map CanonicalHeaderKey plainNames))
      (''Authorization'' # sessionHeaderNames)"
    by code_simp
  with assms show ?thesis by (simp only: list_all_iff set_map) blast
qed

lemma nativeHeaders_other:
  assumes "n \<in> set (''Authorization'' # sessionHeaderNames)"
    and "CanonicalHeaderKey n \<noteq> CanonicalHeaderKey (HeaderName (CSession cfg))"
  shows "\<exists>project. map_of (nativeHeaders e cfg incoming auth session) (CanonicalHeaderKey n) =
    (case map_of (opencodeHeaders e session project) (CanonicalHeaderKey n) of
       Some v \<Rightarrow> Some v | None \<Rightarrow> map_of (credentialHeaders incoming auth) (CanonicalHeaderKey n))"
  using nativeHeaders_at [of e cfg incoming auth session] internal_not_named [OF assms(1)] assms(2)
  unfolding plainNames_def by auto

lemma nativeHeaders_named:
  assumes "n \<in> set (''Authorization'' # sessionHeaderNames)"
    and "CanonicalHeaderKey n = CanonicalHeaderKey (HeaderName (CSession cfg))"
  shows "map_of (nativeHeaders e cfg incoming auth session) (CanonicalHeaderKey n) = Some [session]"
  using nativeHeaders_at [of e cfg incoming auth session] internal_not_named [OF assms(1)] assms(2)
  unfolding plainNames_def by auto

lemma nativeHeaders_session:
  assumes "n \<in> set sessionHeaderNames"
  shows "headerFirst (nativeHeaders e cfg incoming auth session) n = session"
  using assms nativeHeaders_named [of n cfg e incoming auth session]
    nativeHeaders_other [of n cfg e incoming auth session]
    canonical_session_names [OF assms] opencodeHeaders_session [OF assms]
  by (cases "CanonicalHeaderKey n = CanonicalHeaderKey (HeaderName (CSession cfg))")
    (auto simp: headerFirst_def)

lemma nativeHeaders_authorization:
  assumes "CanonicalHeaderKey (HeaderName (CSession cfg)) \<noteq> ''Authorization''"
  shows "headerFirst (nativeHeaders e cfg incoming auth session) ''Authorization'' =
    ''Bearer '' @ TrimSpace (APIKey auth)"
proof -
  have c: "CanonicalHeaderKey ''Authorization'' = ''Authorization''" by code_simp
  have "map_of (opencodeHeaders e session project) ''Authorization'' = None" for project
    by (simp add: opencodeHeaders_list)
  with assms nativeHeaders_other [of "''Authorization''" cfg e incoming auth session] c show ?thesis
    by (auto simp: headerFirst_def credentialHeaders_def headerSet_get)
qed

lemma nativeHeaders_session_authorization:
  assumes "CanonicalHeaderKey (HeaderName (CSession cfg)) = ''Authorization''"
  shows "headerFirst (nativeHeaders e cfg incoming auth session) ''Authorization'' = session"
proof -
  have "CanonicalHeaderKey ''Authorization'' = ''Authorization''" by code_simp
  with assms nativeHeaders_named [of "''Authorization''" cfg e incoming auth session]
  show ?thesis by (simp add: headerFirst_def)
qed

subsection \<open>The filter before the client\<close>

definition guarded_net :: "(httpRequest \<Rightarrow> bool) \<Rightarrow> (httpRequest \<Rightarrow> string + httpResponse) \<Rightarrow> net \<Rightarrow> net" where
  "guarded_net ok blocked nt = nt\<lparr> nativeClient := (\<lambda>proxy.
     case nativeClient nt proxy of
       Inl err \<Rightarrow> Inl err
     | Inr client \<Rightarrow> Inr (\<lambda>r. if ok r then client r else blocked r)) \<rparr>"

lemma guarded_net_fields:
  "urlParse (guarded_net ok blocked nt) = urlParse nt"
  "proxyFromEnvironment (guarded_net ok blocked nt) = proxyFromEnvironment nt"
  "statusText (guarded_net ok blocked nt) = statusText nt"
  "secondsUntil (guarded_net ok blocked nt) = secondsUntil nt"
  by (simp_all add: guarded_net_def)

lemma guarded_net_parts:
  "nativeProxyURL (guarded_net ok blocked nt) auth = nativeProxyURL nt auth"
  "handleResponse J (guarded_net ok blocked nt) auth req stream i h m rsp =
     handleResponse J nt auth req stream i h m rsp"
  unfolding nativeProxyURL_def handleResponse_def nativeUpstreamError_def retrySeconds_def
    guarded_net_fields
  by (rule refl)+

lemma sendUpstream_guarded:
  assumes "\<And>h. ok \<lparr> UpURL = BaseURL auth @ ''/chat/completions'', UpHeaders = hs, UpBody = body,
      UpContext = h \<rparr>"
  shows "sendUpstream J (guarded_net ok blocked nt) e2 auth req stream body hs m =
    sendUpstream J nt e2 auth req stream body hs m"
proof -
  have c: "nativeClient (guarded_net ok blocked nt) proxy =
      (case nativeClient nt proxy of
         Inl err \<Rightarrow> Inl err | Inr client \<Rightarrow> Inr (\<lambda>r. if ok r then client r else blocked r))" for proxy
    by (simp add: guarded_net_def)
  show ?thesis
    unfolding sendUpstream_def guarded_net_parts guarded_net_fields Let_def
    apply (rule sum.case_cong [OF refl refl], rule prod.case_cong [OF refl])
    subgoal for proxy h r
      by (cases "nativeClient nt proxy") (simp_all add: c assms cong: if_cong)
    done
qed

lemma executeNative_guarded:
  assumes "\<And>auth session cache h body. decodeNativeAuth J (urlParse nt) (mcfg m) (ExStorageJSON req) = Inr auth \<Longrightarrow>
      nativeIdentity J e (mcfg m) req (sessionIDs m) = (session, cache) \<Longrightarrow>
      ok \<lparr> UpURL = BaseURL (effectiveAuth req auth) @ ''/chat/completions'',
        UpHeaders = nativeHeaders e (mcfg m) (ExHeaders req) (effectiveAuth req auth) session,
        UpBody = body, UpContext = h \<rparr>"
  shows "executeNative J (guarded_net ok blocked nt) e e2 req stream m = executeNative J nt e e2 req stream m"
proof (cases "decodeNativeAuth J (urlParse nt) (mcfg m) (ExStorageJSON req)")
  case (Inl err)
  then show ?thesis unfolding executeNative_def Let_def guarded_net_fields by simp
next
  case (Inr auth)
  obtain session cache where n: "nativeIdentity J e (mcfg m) req (sessionIDs m) = (session, cache)" by fastforce
  have "sendUpstream J (guarded_net ok blocked nt) e2 (effectiveAuth req auth) req stream body
      (nativeHeaders e (mcfg m) (ExHeaders req) (effectiveAuth req auth) session) m' =
    sendUpstream J nt e2 (effectiveAuth req auth) req stream body
      (nativeHeaders e (mcfg m) (ExHeaders req) (effectiveAuth req auth) session) m'" for body m'
    using assms [OF Inr n] by (rule sendUpstream_guarded)
  then show ?thesis
    unfolding executeNative_def Let_def guarded_net_fields Inr n by (simp split: root.splits option.splits)
qed

text \<open>
  What every request to the upstream satisfies. A configuration may name \<open>Authorization\<close> as the
  session header; then the session is sent in the place of the key.
\<close>

definition upstreamOK :: "codec \<Rightarrow> net \<Rightarrow> Config \<Rightarrow> nativeExecutorRequest \<Rightarrow> httpRequest \<Rightarrow> bool" where
  "upstreamOK J nt cfg req r \<longleftrightarrow>
     (\<exists>auth session.
        decodeNativeAuth J (urlParse nt) cfg (ExStorageJSON req) = Inr auth \<and>
        officialBase (urlParse nt) (BaseURL auth) \<and>
        UpURL r = BaseURL auth @ ''/chat/completions'' \<and>
        isOpenCodeSessionID session \<and>
        (\<forall>n\<in>set sessionHeaderNames. headerFirst (UpHeaders r) n = session) \<and>
        (\<forall>n\<in>set internalHeaders. map_of (UpHeaders r) (CanonicalHeaderKey n) = None) \<and>
        headerFirst (UpHeaders r) ''Authorization'' =
          (if CanonicalHeaderKey (HeaderName (CSession cfg)) = ''Authorization'' then session
           else ''Bearer '' @ APIKey auth))"

lemma effectiveAuth_simps [simp]:
  "BaseURL (effectiveAuth req auth) = BaseURL auth"
  "APIKey (effectiveAuth req auth) = APIKey auth"
  by (simp_all add: effectiveAuth_def)

lemma upstreamOK_sent:
  assumes "cache_ok cache" "decodeNativeAuth J (urlParse nt) cfg (ExStorageJSON req) = Inr auth"
    and "nativeIdentity J e cfg req cache = (session, cache')"
  shows "upstreamOK J nt cfg req
    \<lparr> UpURL = BaseURL auth @ ''/chat/completions'',
      UpHeaders = nativeHeaders e cfg incoming (effectiveAuth req auth) session,
      UpBody = body, UpContext = h \<rparr>"
proof -
  have "credentialOK (urlParse nt) (CFreeTier cfg) auth" by (rule decodeNativeAuth_credentialOK [OF assms(2)])
  then have k: "officialBase (urlParse nt) (BaseURL auth)" "TrimSpace (APIKey auth) = APIKey auth"
    by (simp_all add: credentialOK_def)
  have "isOpenCodeSessionID session" using nativeIdentity_shape [OF assms(1,3)] by blast
  with assms(2) k show ?thesis
    unfolding upstreamOK_def
    by (intro exI [of _ auth] exI [of _ session])
      (simp add: nativeHeaders_session nativeHeaders_internal nativeHeaders_authorization
        nativeHeaders_session_authorization)
qed

end
