(* ===== verification/Ident_Order.thy ===== *)
theory Ident_Order
  imports Session_Properties
begin

section \<open>Identifiers in the order of time\<close>

text \<open>
  The 12 hexadecimal digits of an identifier are the low 48 bits of its clock value, and strings
  of the same length are ordered like the numbers they stand for. So request ids sort by time,
  and session ids, which hold the complement, sort against it. The 48 bits hold the low 36 bits
  of the milliseconds: the order is right within a window of \<open>2^36\<close> milliseconds (over two years).
\<close>

subsection \<open>Fixed-width hexadecimal\<close>

fun hexOf :: "nat \<Rightarrow> nat \<Rightarrow> string" where
  "hexOf 0 v = []"
| "hexOf (Suc n) v = hexDigits ! (v div 16 ^ n mod 16) # hexOf n v"

lemma length_hexOf [simp]: "length (hexOf n v) = n"
  by (induction n) simp_all

lemma hexDigits_less: "i < j \<Longrightarrow> j < 16 \<Longrightarrow> hexDigits ! i < hexDigits ! j"
proof -
  have "sorted_wrt (<) hexDigits" by (simp add: hexDigits_def less_char_def)
  then show "i < j \<Longrightarrow> j < 16 \<Longrightarrow> hexDigits ! i < hexDigits ! j"
    by (simp add: sorted_wrt_iff_nth_less)
qed

lemma mod_power_Suc: "(v :: nat) mod 16 ^ Suc n = 16 ^ n * (v div 16 ^ n mod 16) + v mod 16 ^ n"
  by (simp add: mod_mult2_eq mult.commute [of 16])

lemma top_digit_le:
  fixes a b :: nat
  assumes "a mod 16 ^ Suc n < b mod 16 ^ Suc n"
  shows "a div 16 ^ n mod 16 < b div 16 ^ n mod 16 \<or>
    a div 16 ^ n mod 16 = b div 16 ^ n mod 16 \<and> a mod 16 ^ n < b mod 16 ^ n"
proof (rule ccontr)
  let ?x = "a div 16 ^ n mod 16" and ?y = "b div 16 ^ n mod 16"
  assume n: "\<not> ?thesis"
  show False
  proof (cases "?y < ?x")
    case True
    then have "16 ^ n * Suc ?y \<le> 16 ^ n * ?x" by (intro mult_le_mono2) simp
    moreover have "b mod 16 ^ n < 16 ^ n" by simp
    ultimately have "b mod 16 ^ Suc n < a mod 16 ^ Suc n"
      unfolding mod_power_Suc mult_Suc_right by linarith
    with assms show False by simp
  next
    case False
    with n assms show False unfolding mod_power_Suc by auto
  qed
qed

lemma hexOf_less: "a mod 16 ^ n < b mod 16 ^ n \<Longrightarrow> hexOf n a < hexOf n b"
proof (induction n)
  case 0
  then show ?case by simp
next
  case (Suc n)
  from top_digit_le [OF Suc.prems] show ?case
    using Suc.IH by (auto intro: hexDigits_less)
qed

subsection \<open>The time component\<close>

lemma unat_ucast_byte: "unat (ucast (w :: 64 word) :: byte) = unat w mod 256"
  by (simp add: unsigned_ucast_eq take_bit_eq_mod)

lemma unat_drop_bit_div: "unat (drop_bit k (w :: 64 word)) = unat w div 2 ^ k"
  by (subst unat_drop_bit_eq) (simp add: drop_bit_eq_div)

lemma hexByte_nat:
  "hexByte b = [hexDigits ! (unat b div 16), hexDigits ! (unat b mod 16)]"
proof -
  have "unat (drop_bit 4 b) = unat b div 16"
    by (subst unat_drop_bit_eq) (simp add: drop_bit_eq_div)
  moreover have "unat (take_bit 4 b) = unat b mod 16"
    by (subst unsigned_take_bit_eq) (simp_all add: take_bit_eq_mod)
  ultimately show ?thesis by (simp add: hexByte_def)
qed

lemma byte_digits: "x mod 256 div 16 = x div 16 mod 16" "x mod 256 mod 16 = x mod 16" for x :: nat
proof -
  have "x mod (16 * 16) = 16 * (x div 16 mod 16) + x mod 16" by (rule mod_mult2_eq)
  then have x: "x mod 256 = x mod 16 + 16 * (x div 16 mod 16)" by simp
  show "x mod 256 div 16 = x div 16 mod 16" unfolding x by simp
  show "x mod 256 mod 16 = x mod 16" unfolding x by simp
qed

lemma hexOf_numeral [simp]:
  "hexOf (numeral k) v = hexDigits ! (v div 16 ^ pred_numeral k mod 16) # hexOf (pred_numeral k) v"
  by (simp only: numeral_eq_Suc [of k] hexOf.simps)

lemma timeHexFrom_hexOf: "timeHexFrom v = hexOf 12 (unat v)"
proof -
  have byte: "hexByte (ucast (drop_bit k v)) =
      [hexDigits ! (unat v div (2 ^ k * 16) mod 16), hexDigits ! (unat v div 2 ^ k mod 16)]" for k
    by (simp add: hexByte_nat unat_ucast_byte unat_drop_bit_div byte_digits div_mult2_eq)
  show ?thesis
    by (simp add: timeHexFrom_def upt_rec byte)
qed

subsection \<open>The clock\<close>

lemma less_timeHex:
  "unat v mod 16 ^ 12 < unat w mod 16 ^ 12 \<Longrightarrow> timeHexFrom v < timeHexFrom w"
  unfolding timeHexFrom_hexOf by (rule hexOf_less)

lemma currentTick_low: "unat (currentTick e) mod 16 ^ 12 = 4096 * (unat (nowMillis e) mod 2 ^ 36) + 1"
proof -
  let ?m = "unat (nowMillis e)"
  have "unat (currentTick e) = (?m * 4096 + 1) mod 2 ^ 64"
    by (simp add: currentTick_def unat_word_ariths mod_simps)
  then have "unat (currentTick e) mod 16 ^ 12 = (?m * 4096 + 1) mod (4096 * 2 ^ 36)"
    by (simp add: mod_mod_cancel)
  also have "\<dots> = 4096 * ((?m * 4096 + 1) div 4096 mod 2 ^ 36) + (?m * 4096 + 1) mod 4096"
    by (rule mod_mult2_eq)
  also have "(?m * 4096 + 1) div 4096 = ?m" using div_mult_self3 [of 4096 ?m 1] by simp
  also have "(?m * 4096 + 1) mod 4096 = 1" using mod_mult_self3 [of ?m 4096 1] by simp
  finally show ?thesis .
qed

lemma complement_low: "unat (NOT w :: 64 word) mod 16 ^ 12 = 16 ^ 12 - 1 - unat w mod 16 ^ 12"
proof -
  have "uint (NOT w) = 2 ^ 64 - 1 - uint w"
    by (simp add: unsigned_not_eq take_bit_not_eq_mask_diff mask_eq_exp_minus_1
        bintr_uint)
  then have "uint (NOT w) = (16 ^ 12 - 1 - uint w) + 65535 * 16 ^ 12" by simp
  then have "uint (NOT w) mod 16 ^ 12 = (16 ^ 12 - 1 - uint w) mod 16 ^ 12"
    by (simp only: mod_mult_self1)
  also have "\<dots> = (16 ^ 12 - 1 - uint w mod 16 ^ 12) mod 16 ^ 12"
    by (rule mod_diff_right_eq [symmetric])
  also have "\<dots> = 16 ^ 12 - 1 - uint w mod 16 ^ 12"
    by (rule mod_pos_pos_trivial) (simp_all add: pos_mod_bound less_imp_le)
  finally have "int (unat (NOT w) mod 16 ^ 12) = int (16 ^ 12 - 1 - unat w mod 16 ^ 12)"
    by (simp add: of_nat_diff zmod_int)
  then show ?thesis by (simp only: of_nat_eq_iff)
qed

lemma append_less_same: "x < y \<Longrightarrow> (p :: string) @ x < p @ y"
  by (induction p) simp_all

lemma append_less:
  fixes a b :: string
  shows "length a = length b \<Longrightarrow> a < b \<Longrightarrow> a @ x < b @ y"
  by (induction a b rule: list_induct2) auto

text \<open>Two readings of the clock in one window, the second one later.\<close>

lemma later_tick:
  assumes "nowMillis e < nowMillis e'" "drop_bit 36 (nowMillis e) = drop_bit 36 (nowMillis e')"
  shows "unat (currentTick e) mod 16 ^ 12 < unat (currentTick e') mod 16 ^ 12"
proof -
  have "unat (nowMillis e) div 2 ^ 36 = unat (nowMillis e') div 2 ^ 36"
    using assms(2) by (simp only: unat_drop_bit_div [symmetric])
  moreover have "unat (nowMillis e) < unat (nowMillis e')"
    using assms(1) by (simp add: word_less_nat_alt)
  ultimately have "unat (nowMillis e) mod 2 ^ 36 < unat (nowMillis e') mod 2 ^ 36"
    by (metis add_less_cancel_left div_mult_mod_eq)
  then show ?thesis unfolding currentTick_low by simp
qed

lemma fresh_session:
  "cachedID c i = None \<Longrightarrow> fst (shapeSessionID e i c) =
     sessionIDPrefix @ timeHexFrom (NOT (currentTick e)) @ base62From (take 14 (sessionDigest i))"
  by (auto simp: cachedID_def shapeSessionID_def Let_def split: option.splits if_splits)

text \<open>
  C28. Identifiers sort by time: of two requests in the same window of \<open>2^36\<close> milliseconds, the later
  one has the greater request id, and a session first seen later has the smaller session id
  (the official client's descending order), whatever the identities and the random bytes are.
\<close>

theorem ids_ordered_by_time:
  assumes "nowMillis e < nowMillis e'" "drop_bit 36 (nowMillis e) = drop_bit 36 (nowMillis e')"
    and "cachedID c i = None" "cachedID c' j = None"
  shows "newRequestID e < newRequestID e' \<and>
    fst (shapeSessionID e' j c') < fst (shapeSessionID e i c)"
proof
  note later = later_tick [OF assms(1,2)]
  have "timeHexFrom (currentTick e) < timeHexFrom (currentTick e')"
    by (rule less_timeHex [OF later])
  then show "newRequestID e < newRequestID e'"
    unfolding newRequestID_def by (intro append_less_same append_less) simp_all
  have "unat (NOT (currentTick e')) mod 16 ^ 12 < unat (NOT (currentTick e)) mod 16 ^ 12"
    unfolding complement_low using later by simp
  then have "timeHexFrom (NOT (currentTick e')) < timeHexFrom (NOT (currentTick e))"
    by (rule less_timeHex)
  then show "fst (shapeSessionID e' j c') < fst (shapeSessionID e i c)"
    unfolding fresh_session [OF assms(3)] fresh_session [OF assms(4)]
    by (intro append_less_same append_less) simp_all
qed

lemma ids_ordered_by_time_witness:
  "newRequestID sampleEnv < newRequestID (sampleEnv\<lparr> nowMillis := 1750000000001 \<rparr>)"
proof -
  have "nowMillis sampleEnv < nowMillis (sampleEnv\<lparr> nowMillis := 1750000000001 \<rparr>)"
    "drop_bit 36 (nowMillis sampleEnv) = drop_bit 36 (nowMillis (sampleEnv\<lparr> nowMillis := 1750000000001 \<rparr>))"
    "cachedID [] ''a'' = None" "cachedID [] ''b'' = None"
    by (simp_all add: sampleEnv_def cachedID_def drop_bit_eq_div)
  from ids_ordered_by_time [OF this] show ?thesis by blast
qed

end
