(* ===== verification/Lifetimes.thy ===== *)
theory Lifetimes
  imports Upstream_Props Intercept_Props
begin

section \<open>Executions and the streams that keep them\<close>

text \<open>
  The plugin with the goroutines that serve its streams: an event is a call of the host, or the
  end of a stream in flight (its goroutine touches the manager only then, in its clean-up).
  The events come in any order. \<open>tracked\<close> relates the registry to the streams in flight; it is
  kept by every operation on the registry, so by every event.
\<close>

datatype 'w event = Arrives call | StreamEnds nat 'w

definition endStream :: "codec \<Rightarrow> 'w host \<Rightarrow> nat \<Rightarrow> 'w \<Rightarrow> Plugin \<Rightarrow> Plugin" where
  "endStream J fn k w p =
     (if k < length (jobs p)
      then p\<lparr> manager := fst (runStream J fn (jobs p ! k) (manager p) w),
              jobs := take k (jobs p) @ drop (Suc k) (jobs p) \<rparr>
      else p)"

fun happens ::
    "abi \<Rightarrow> codec \<Rightarrow> net \<Rightarrow> (string \<Rightarrow> Config \<Rightarrow> string + Config) \<Rightarrow> 'w host \<Rightarrow> 'w event \<Rightarrow> Plugin \<Rightarrow> Plugin" where
  "happens a J nt yaml fn (Arrives c) p = snd (oneCall a J nt yaml c p)"
| "happens a J nt yaml fn (StreamEnds k w) p = endStream J fn k w p"

definition runEvents ::
    "abi \<Rightarrow> codec \<Rightarrow> net \<Rightarrow> (string \<Rightarrow> Config \<Rightarrow> string + Config) \<Rightarrow> 'w host \<Rightarrow> 'w event list \<Rightarrow>
     Plugin \<Rightarrow> Plugin" where
  "runEvents a J nt yaml fn events p = fold (happens a J nt yaml fn) events p"

subsection \<open>The registry and a set of owners\<close>

type_synonym owners = "(string \<times> handle) list"

definition tracked :: "owners \<Rightarrow> Registry \<Rightarrow> bool" where
  "tracked ow r \<longleftrightarrow>
     uniqueKeys (nativeRequests r) \<and> set (nativeRequests r) \<subseteq> set ow \<and>
     {..<nextExec r} - cancelled r \<subseteq> snd ` set ow \<and>
     distinct (map snd ow) \<and> snd ` set ow \<subseteq> {..<nextExec r}"

lemma tracked_empty: "tracked [] emptyRegistry"
  by (simp add: tracked_def emptyRegistry_def)

lemma set_update_subset: "set (AList.update i h m) \<subseteq> insert (i, h) (set m)"
  by (induction m) auto

lemma set_delete_subset: "set (AList.delete i m) \<subseteq> set m"
  by (auto simp: AList.delete_eq)

lemma tracked_context:
  assumes "tracked ow r"
  shows "tracked (ow @ [(i, nextExec r)]) (snd (nativeContext i r))"
  using assms set_update_subset [of i "nextExec r" "nativeRequests r"]
  by (auto simp: tracked_def nativeContext_def Let_def less_Suc_eq)

lemma tracked_cleanup:
  assumes "tracked (ow @ (i, h) # ow') r"
  shows "tracked (ow @ ow') (cleanupExec i h r)"
proof -
  have "(i, h) \<notin> set (nativeRequests (cleanupExec i h r))"
    using assms map_of_is_SomeI [of "nativeRequests r" i h]
    by (auto simp: tracked_def uniqueKeys_def cleanupExec_def releaseExec_def AList.delete_eq)
  moreover have "set (nativeRequests (cleanupExec i h r)) \<subseteq> set (nativeRequests r)"
    using set_delete_subset [of i "nativeRequests r"] by (simp add: cleanupExec_def releaseExec_def)
  ultimately show ?thesis
    using assms by (auto simp: tracked_def cleanup_unique)
qed

lemma tracked_complete: "tracked ow r \<Longrightarrow> tracked ow (completeRequest i r)"
  using set_delete_subset [of i "nativeRequests r"] by (auto simp: tracked_def)

lemma tracked_cancel: "tracked ow r \<Longrightarrow> tracked ow (cancelNativeRequests r)"
  by (auto simp: tracked_def cancelNativeRequests_eq)

lemma tracked_ends: "tracked ow r \<Longrightarrow> endsAs r r' \<Longrightarrow> tracked ow r'"
  using tracked_context [of ow r] tracked_cleanup [of ow _ "nextExec r" "[]"]
  by (auto simp: endsAs_def)

subsection \<open>Every event keeps the streams and the registry together\<close>

definition ownersOf :: "Plugin \<Rightarrow> owners" where
  "ownersOf p = map (\<lambda>job. (JobID job, JobHandle job)) (jobs p)"

definition streamsOwn :: "Plugin \<Rightarrow> bool" where
  "streamsOwn p \<longleftrightarrow> tracked (ownersOf p) (registry (manager p))"

lemma executeNative_owned:
  assumes "tracked ow (registry m)"
  shows "tracked (ow @ map (\<lambda>job. (JobID job, JobHandle job))
      (case fst (executeNative J nt e e2 req stream m) of
         Some (OKEnv (Streaming hs job)) \<Rightarrow> [job] | _ \<Rightarrow> []))
    (registry (snd (executeNative J nt e e2 req stream m)))"
proof -
  obtain reply m' where r: "executeNative J nt e e2 req stream m = (reply, m')" by fastforce
  show ?thesis
  proof (cases "\<exists>hs job. reply = Some (OKEnv (Streaming hs job))")
    case True
    then obtain hs job where reply: "reply = Some (OKEnv (Streaming hs job))" by blast
    from executeNative_starts [OF r [unfolded reply]] tracked_context [OF assms, of "JobID job"]
    show ?thesis by (simp add: r reply)
  next
    case False
    then have "tracked ow (registry m')" using executeNative_ends [OF r] tracked_ends [OF assms] by blast
    with False r show ?thesis by (auto split: option.split envelope.split execReply.split)
  qed
qed

lemma handleNative_owned:
  assumes "streamsOwn p"
  shows "streamsOwn (snd (handleNative a J nt e e2 method payload p))"
proof (cases rule: handleNative_cases [of a J nt e e2 "method" payload p])
  case same
  with assms show ?thesis by simp
next
  case (execute req stream)
  have "tracked (ownersOf p) (registry (manager p))" using assms by (simp only: streamsOwn_def)
  from executeNative_owned [OF this, of J nt e e2 req stream] show ?thesis
    unfolding streamsOwn_def ownersOf_def execute(4,6) map_append .
next
  case complete
  with assms show ?thesis by (simp add: streamsOwn_def ownersOf_def onManager_def tracked_complete)
qed

lemma oneCall_owned:
  assumes "streamsOwn p"
  shows "streamsOwn (snd (oneCall a J nt yaml c p))"
proof -
  note own = assms [unfolded streamsOwn_def]
  have "streamsOwn (snd (handleLifecycle a yaml (callPayload c) p))"
    by (cases rule: handleLifecycle_cases [of a yaml "callPayload c" p])
      (use own in \<open>simp_all add: streamsOwn_def ownersOf_def onManager_def reconfigure_def tracked_cancel\<close>)
  moreover have "streamsOwn (snd (handleInterceptAfter a J (callEnv c) (callPayload c) p))"
    by (cases rule: handleInterceptAfter_cases [of a J "callEnv c" "callPayload c" p])
      (use own in \<open>simp_all add: streamsOwn_def ownersOf_def interceptAfter_keeps\<close>)
  moreover have "streamsOwn (snd (handleNative a J nt (callEnv c) (callEnv2 c) (callMethod c)
      (callPayload c) p))"
    by (rule handleNative_owned [OF assms])
  moreover have "streamsOwn (handleShutdown p)"
    using own by (simp add: streamsOwn_def ownersOf_def handleShutdown_def onManager_def tracked_cancel)
  ultimately show ?thesis using assms by (simp add: oneCall_def HandleCall_def)
qed

lemma endStream_owned:
  assumes "streamsOwn p"
  shows "streamsOwn (endStream J fn k w p)"
proof (cases "k < length (jobs p)")
  case True
  let ?own = "\<lambda>job. (JobID job, JobHandle job)"
  have "map ?own (jobs p) = map ?own (take k (jobs p) @ jobs p ! k # drop (Suc k) (jobs p))"
    by (rule arg_cong [OF id_take_nth_drop [OF True]])
  then have "tracked (map ?own (take k (jobs p)) @ ?own (jobs p ! k) # map ?own (drop (Suc k) (jobs p)))
      (registry (manager p))"
    using assms by (simp only: streamsOwn_def ownersOf_def map_append list.map)
  from tracked_cleanup [OF this] True show ?thesis
    by (simp add: streamsOwn_def ownersOf_def endStream_def runStream_registry)
qed (use assms in \<open>simp add: endStream_def\<close>)

interpretation owned_events: served "happens a J nt yaml fn" "\<lambda>ev. True" streamsOwn for a J nt yaml fn
proof
  fix ev p
  assume "streamsOwn p"
  then show "streamsOwn (happens a J nt yaml fn ev p)"
    by (cases ev) (simp_all add: oneCall_owned endStream_owned)
qed

lemma runEvents_owned: "streamsOwn (runEvents a J nt yaml fn events startPlugin)"
proof -
  have "streamsOwn startPlugin"
    using tracked_empty by (simp add: streamsOwn_def ownersOf_def startPlugin_def NewManager_def)
  then show ?thesis unfolding runEvents_def by (intro owned_events.kept_by_all) simp_all
qed

text \<open>
  C16. Nothing runs on its own: whatever calls and ends of streams happen, in whatever order, every
  execution in the registry belongs to a stream in flight, under its id, and every context
  ever created that belongs to none has been cancelled. In particular no context is left once
  the last stream has ended.
\<close>

theorem only_streams_run:
  "let p = runEvents a J nt yaml fn events startPlugin; r = registry (manager p) in
     set (nativeRequests r) \<subseteq> (\<lambda>job. (JobID job, JobHandle job)) ` set (jobs p) \<and>
     {..<nextExec r} - JobHandle ` set (jobs p) \<subseteq> cancelled r"
proof -
  let ?p = "runEvents a J nt yaml fn events startPlugin"
  have "tracked (ownersOf ?p) (registry (manager ?p))"
    using runEvents_owned by (simp add: streamsOwn_def)
  then show ?thesis
    by (auto simp: Let_def tracked_def ownersOf_def image_image)
qed

end
