(* ===== verification/Entry.thy ===== *)
theory Entry
  imports Intercept_Props
begin

section \<open>The C entry points\<close>

text \<open>
  main.go: the functions the host loads from the shared library, and the way back into the
  host. A C pointer to bytes is None (nil) or the bytes at and after it as a function of the
  offset; memory obtained from malloc is a heap of blocks by address. \<open>size_t\<close> is a 64-bit
  word and \<open>C.int\<close> a 32-bit one, so \<open>cInt\<close> is the conversion between them, and
  \<open>C.GoBytes\<close> panics on a negative length. \<open>C.CBytes\<close> does not return nil (it aborts when
  malloc fails). The JSON text of an envelope is the argument \<open>enc\<close> (\<open>envelopeText\<close> of the
  theory \<open>Abi\<close>), \<open>HandleCall\<close> is the argument \<open>disp\<close>; a panic is None.
\<close>

unbundle bit_operations_syntax

record cbuffer =
  bufPtr :: "nat option"
  bufLen :: "64 word"

record cheap =
  heapBlocks :: "(nat \<times> string) list"
  heapNext :: nat

definition maxRequestLen :: "64 word" where
  "maxRequestLen = push_bit 31 1 - 1"

definition cInt :: "64 word \<Rightarrow> int" where
  "cInt n = sint (ucast n :: 32 word)"

definition GoBytes :: "(nat \<Rightarrow> char) \<Rightarrow> int \<Rightarrow> string option" where
  "GoBytes mem n = (if n < 0 then None else Some (map mem [0..<nat n]))"

definition CBytes :: "string \<Rightarrow> cheap \<Rightarrow> nat \<times> cheap" where
  "CBytes raw h =
     (heapNext h, h\<lparr> heapBlocks := (heapNext h, raw) # heapBlocks h, heapNext := Suc (heapNext h) \<rparr>)"

definition writeResponse :: "cbuffer option \<Rightarrow> string \<Rightarrow> cheap \<Rightarrow> cbuffer option \<times> cheap" where
  "writeResponse response raw h =
     (if response = None \<or> raw = [] then (response, h)
      else
        (case CBytes raw h of
           (addr, h') \<Rightarrow>
             (Some \<lparr> bufPtr = Some addr, bufLen = of_nat (length raw) \<rparr>, h')))"

definition cliproxyPluginFree :: "nat option \<Rightarrow> cheap \<Rightarrow> cheap" where
  "cliproxyPluginFree ptr h =
     (case ptr of
        None \<Rightarrow> h
      | Some addr \<Rightarrow> h\<lparr> heapBlocks := AList.delete addr (heapBlocks h) \<rparr>)"

subsection \<open>Calls from the host\<close>

type_synonym dispatch = "string \<Rightarrow> string \<Rightarrow> Plugin \<Rightarrow> outcome \<times> Plugin"

text \<open>The request bytes: None is the panic of \<open>C.GoBytes\<close>.\<close>

definition requestBytesOf :: "(nat \<Rightarrow> char) option \<Rightarrow> 64 word \<Rightarrow> string option" where
  "requestBytesOf request requestLen =
     (case request of
        Some mem \<Rightarrow> if requestLen > 0 then GoBytes mem (cInt requestLen) else Some []
      | None \<Rightarrow> Some [])"

definition cliproxyPluginCall ::
    "(reply envelope \<Rightarrow> string) \<Rightarrow> dispatch \<Rightarrow> string option \<Rightarrow> (nat \<Rightarrow> char) option \<Rightarrow> 64 word \<Rightarrow>
     cbuffer option \<Rightarrow> cheap \<Rightarrow> Plugin \<Rightarrow> (int \<times> (cbuffer option \<times> cheap) \<times> Plugin) option" where
  "cliproxyPluginCall enc disp name request requestLen buffer h p =
     (let response = map_option (\<lambda>_. \<lparr> bufPtr = None, bufLen = 0 \<rparr>) buffer in
      case name of
        None \<Rightarrow>
          Some (1, writeResponse response (enc (ErrEnvelope ''invalid_method'' ''method is required'')) h, p)
      | Some cmd \<Rightarrow>
          if request \<noteq> None \<and> requestLen > 0 \<and> requestLen > maxRequestLen then
            Some (0, writeResponse response
              (enc (ErrEnvelope ''plugin_error'' ''request exceeds maximum size'')) h, p)
          else
            (case requestBytesOf request requestLen of
               None \<Rightarrow> None
             | Some req \<Rightarrow>
                 (case disp cmd req p of
                    (CallError err, p') \<Rightarrow>
                      Some (1, writeResponse response (enc (ErrEnvelope ''plugin_error'' err)) h, p')
                  | (Reply env, p') \<Rightarrow> Some (0, writeResponse response (enc env) h, p')
                  | (Panicked, p') \<Rightarrow> None)))"

definition cliproxyPluginShutdown :: "dispatch \<Rightarrow> Plugin \<Rightarrow> Plugin" where
  "cliproxyPluginShutdown disp p = snd (disp ''plugin.shutdown'' [] p)"

subsection \<open>Calls into the host\<close>

text \<open>
  The host's API as the code stores it. The call function gets method and payload and answers
  with its return code and a buffer (pointer and length); \<open>chFree\<close> is what freeing a buffer
  does to the host, None for a nil function pointer.
\<close>

record 'w chost =
  chVersion :: "32 word"
  chCall :: "(string \<Rightarrow> string \<Rightarrow> 'w \<Rightarrow> int \<times> (nat \<Rightarrow> char) option \<times> 64 word \<times> 'w) option"
  chFree :: "('w \<Rightarrow> 'w) option"

datatype hostResult = HostErr string | HostBytes string | HostPanic

definition hostCall ::
    "bool \<Rightarrow> 'w chost \<Rightarrow> string \<Rightarrow> string \<Rightarrow> 'w \<Rightarrow> hostResult \<times> 'w" where
  "hostCall ready api cmd payload w =
     (case chCall api of
        None \<Rightarrow> (HostErr ''host call not initialized'', w)
      | Some f \<Rightarrow>
          if \<not> ready then (HostErr ''host call not initialized'', w)
          else
            (case f cmd payload w of
               (ret, ptr, len, w') \<Rightarrow>
                 if ret \<noteq> 0 then
                   (HostErr (''host call '' @ cmd @ '' failed: '' @ showInt ret), w')
                 else
                   (case ptr of
                      None \<Rightarrow> (HostBytes [], w')
                    | Some mem \<Rightarrow>
                        if len = 0 then (HostBytes [], w')
                        else
                          (case GoBytes mem (cInt len) of
                             None \<Rightarrow> (HostPanic, w')
                           | Some out \<Rightarrow>
                               (HostBytes out, case chFree api of Some free \<Rightarrow> free w' | None \<Rightarrow> w')))))"

subsection \<open>Initialisation\<close>

record pluginApi =
  piVersion :: "32 word"
  piFilled :: bool

record 'w entry =
  hostReady :: bool
  hostApi :: "'w chost"
  dispatcher :: Plugin

definition ABIVersion :: "32 word" where
  "ABIVersion = 1"

text \<open>
  The callback that is installed, as the dispatcher sees it: \<open>host.log\<close> through \<open>hostCall\<close>, when the
  host is in the state \<open>sees sent\<close> as the last payload of \<open>sent\<close> is sent.
\<close>

definition logReturns :: "codec \<Rightarrow> 'w chost \<Rightarrow> (json list \<Rightarrow> 'w) \<Rightarrow> hostCaller" where
  "logReturns J api sees sent =
     (case marshal J (last sent) of
        None \<Rightarrow> True
      | Some payload \<Rightarrow> fst (hostCall True api ''host.log'' payload (sees sent)) \<noteq> HostPanic)"

definition cliproxy_plugin_init ::
    "codec \<Rightarrow> (json list \<Rightarrow> 'w) \<Rightarrow> 'w chost option \<Rightarrow> pluginApi option \<Rightarrow> 'w entry \<Rightarrow>
     int \<times> pluginApi option \<times> 'w entry" where
  "cliproxy_plugin_init J sees api plug st =
     (case (plug, api) of
        (Some _, Some h) \<Rightarrow>
          if chVersion h \<noteq> ABIVersion then (1, plug, st)
          else
            (0, Some \<lparr> piVersion = ABIVersion, piFilled = True \<rparr>,
             st\<lparr> hostReady := True, hostApi := h,
                 dispatcher := dispatcher st
                   \<lparr> host := SetHostCaller (Some (logReturns J h sees)) (host (dispatcher st)) \<rparr> \<rparr>)
      | _ \<Rightarrow> (1, plug, st))"

subsection \<open>Lengths\<close>

lemma unat_maxRequestLen: "unat maxRequestLen = 2147483647"
  by (simp add: maxRequestLen_def)

lemma sint_int: "sint (w :: 32 word) = (uint w + 2147483648) mod 4294967296 - 2147483648"
  by (simp add: sint_uint signed_take_bit_eq_take_bit_shift take_bit_eq_mod)

lemma cInt_eq: "cInt n = (int (unat n) + 2147483648) mod 4294967296 - 2147483648"
proof -
  have "uint (ucast n :: 32 word) = int (unat n) mod 4294967296"
    by (simp add: unsigned_ucast_eq take_bit_eq_mod)
  then show ?thesis by (simp add: cInt_def sint_int mod_simps)
qed

lemma cInt_small:
  assumes "unat n < 2147483648"
  shows "cInt n = int (unat n)"
proof -
  have "(int (unat n) + 2147483648) mod 4294967296 = int (unat n) + 2147483648"
    using assms by (intro mod_pos_pos_trivial) linarith+
  then show ?thesis unfolding cInt_eq by linarith
qed

lemma cInt_large:
  assumes "unat n \<ge> 2147483648"
  shows "cInt n \<noteq> int (unat n)"
proof -
  have "cInt n < 2147483648" unfolding cInt_eq by (simp add: pos_mod_bound)
  with assms show ?thesis by linarith
qed

lemma GoBytes_small [simp]:
  "unat n < 2147483648 \<Longrightarrow> GoBytes mem (cInt n) = Some (map mem [0..<unat n])"
  by (simp add: cInt_small GoBytes_def)

lemma GoBytes_large:
  assumes "unat n \<ge> 2147483648"
  shows "GoBytes mem (cInt n) \<noteq> Some (map mem [0..<unat n])"
proof
  assume "GoBytes mem (cInt n) = Some (map mem [0..<unat n])"
  then have "0 \<le> cInt n" "map mem [0..<nat (cInt n)] = map mem [0..<unat n]"
    by (auto simp: GoBytes_def split: if_splits)
  then have "nat (cInt n) = unat n" by (metis length_map length_upt minus_nat.diff_0)
  moreover from \<open>0 \<le> cInt n\<close> have "int (nat (cInt n)) = cInt n" by simp
  ultimately have "cInt n = int (unat n)" by (simp only:)
  with cInt_large [OF assms] show False by simp
qed

lemma maxRequestLen_less: "n \<le> maxRequestLen \<longleftrightarrow> unat n < 2147483648"
  by (simp add: word_le_nat_alt unat_maxRequestLen) arith

subsection \<open>The heap\<close>

definition cheap_ok :: "cheap \<Rightarrow> bool" where
  "cheap_ok h \<longleftrightarrow> (\<forall>a\<in>fst ` set (heapBlocks h). a < heapNext h)"

text \<open>A response: nothing, or one new block that holds exactly the bytes of the length given.\<close>

definition responseOK :: "string \<Rightarrow> cheap \<Rightarrow> cbuffer option \<times> cheap \<Rightarrow> bool" where
  "responseOK text h out \<longleftrightarrow>
     (case out of
        (None, h') \<Rightarrow> h' = h
      | (Some b, h') \<Rightarrow>
          if text = [] then bufPtr b = None \<and> bufLen b = 0 \<and> h' = h
          else
            (\<exists>addr. bufPtr b = Some addr \<and> bufLen b = of_nat (length text) \<and>
               map_of (heapBlocks h) addr = None \<and> map_of (heapBlocks h') addr = Some text \<and>
               heapBlocks (cliproxyPluginFree (bufPtr b) h') = heapBlocks h))"

lemma writeResponse_ok:
  assumes "cheap_ok h"
  shows "responseOK text h (writeResponse (map_option (\<lambda>_. \<lparr> bufPtr = None, bufLen = 0 \<rparr>) buffer) text h)"
proof -
  have "heapNext h \<notin> fst ` set (heapBlocks h)" using assms by (auto simp: cheap_ok_def)
  then have "map_of (heapBlocks h) (heapNext h) = None" "AList.delete (heapNext h) (heapBlocks h) = heapBlocks h"
    by (simp_all add: map_of_eq_None_iff delete_id)
  then show ?thesis
    by (cases buffer) (simp_all add: responseOK_def writeResponse_def CBytes_def cliproxyPluginFree_def)
qed

lemma requestBytesOf_small:
  "\<not> (request \<noteq> None \<and> requestLen > 0 \<and> requestLen > maxRequestLen) \<Longrightarrow>
     requestBytesOf request requestLen =
       Some (case request of Some mem \<Rightarrow> map mem [0..<unat requestLen] | None \<Rightarrow> [])"
  by (auto simp: requestBytesOf_def maxRequestLen_less not_less split: option.splits)

subsection \<open>Properties\<close>

lemma plugin_call_ends:
  assumes "cheap_ok h"
    and "bytes = (case request of Some mem \<Rightarrow> map mem [0..<unat requestLen] | None \<Rightarrow> [])"
  shows "case cliproxyPluginCall enc (HandleCall a J nt yaml e e2) name request requestLen buffer h p of
      None \<Rightarrow> \<not> callbackOK (host p) \<and>
        (\<exists>cmd. name = Some cmd \<and> fst (HandleCall a J nt yaml e e2 cmd bytes p) = Panicked \<and>
           hostPanicked (host (snd (HandleCall a J nt yaml e e2 cmd bytes p))))
    | Some (ret, out, p') \<Rightarrow>
        (\<exists>txt. responseOK txt h out \<and>
          (case name of
             None \<Rightarrow> ret = 1 \<and> p' = p
           | Some cmd \<Rightarrow>
               if request \<noteq> None \<and> requestLen > maxRequestLen then ret = 0 \<and> p' = p
               else
                 p' = snd (HandleCall a J nt yaml e e2 cmd bytes p) \<and>
                 (case fst (HandleCall a J nt yaml e e2 cmd bytes p) of
                    Reply env \<Rightarrow> ret = 0 \<and> txt = enc env
                  | CallError err \<Rightarrow> ret = 1 \<and> txt = enc (ErrEnvelope ''plugin_error'' err)
                  | Panicked \<Rightarrow> False)))"
proof (cases "\<exists>cmd. name = Some cmd \<and> \<not> (request \<noteq> None \<and> requestLen > 0 \<and> requestLen > maxRequestLen)")
  case False
  then show ?thesis
    using writeResponse_ok [OF assms(1)]
    by (cases name) (auto simp: cliproxyPluginCall_def Let_def intro: le_less_trans)
next
  case True
  then obtain cmd where c: "name = Some cmd"
    "\<not> (request \<noteq> None \<and> requestLen > 0 \<and> requestLen > maxRequestLen)" by blast
  then have small: "\<not> (request \<noteq> None \<and> requestLen > maxRequestLen)" by (auto intro: le_less_trans)
  obtain out p' where o: "HandleCall a J nt yaml e e2 cmd bytes p = (out, p')" by fastforce
  define wr where
    "wr = (\<lambda>txt. writeResponse (map_option (\<lambda>_. \<lparr> bufPtr = None, bufLen = 0 \<rparr>) buffer) txt h)"
  have w: "responseOK t h (wr t)" for t
    unfolding wr_def by (rule writeResponse_ok [OF assms(1)])
  have call: "cliproxyPluginCall enc (HandleCall a J nt yaml e e2) name request requestLen buffer h p =
      (case out of
         CallError err \<Rightarrow> Some (1, wr (enc (ErrEnvelope ''plugin_error'' err)), p')
       | Reply env \<Rightarrow> Some (0, wr (enc env), p')
       | Panicked \<Rightarrow> None)"
    using c(2) o
    by (simp only: cliproxyPluginCall_def Let_def c(1) option.case if_False prod.case wr_def
        requestBytesOf_small [OF c(2)] assms(2) [symmetric])
  show ?thesis
  proof (cases out)
    case (Reply env)
    with call w [of "enc env"] o c(1) small show ?thesis by auto
  next
    case (CallError err)
    with call w [of "enc (ErrEnvelope ''plugin_error'' err)"] o c(1) small show ?thesis by auto
  next
    case Panicked
    with o HandleCall_panics [of a J nt yaml e e2 cmd bytes p] have "hostPanicked (host p')" by simp
    moreover from this have "\<not> callbackOK (host p)"
      using HandleCall_callbackOK [of p a J nt yaml e e2 cmd bytes] o by (auto simp: callbackOK_def)
    ultimately show ?thesis using call o c(1) Panicked by simp
  qed
qed

text \<open>
  C32. A call through the C interface is safe for every 64-bit length and every pointer: the
  request never makes it panic (only the host's own log callback can, see C34), the dispatcher
  gets exactly the bytes of the request (or is not called at all, when
  the method is missing or the request too long for \<open>C.int\<close>), and the host is left with
  either no buffer or one fresh block with exactly the bytes of the reply, which freeing it
  gives back.
\<close>

theorem plugin_call_safe:
  assumes "cheap_ok h"
    and "bytes = (case request of Some mem \<Rightarrow> map mem [0..<unat requestLen] | None \<Rightarrow> [])"
  shows "case cliproxyPluginCall enc (HandleCall a J nt yaml e e2) name request requestLen buffer h p of
      None \<Rightarrow> \<not> callbackOK (host p) \<and>
        (\<exists>cmd. name = Some cmd \<and> fst (HandleCall a J nt yaml e e2 cmd bytes p) = Panicked \<and>
           hostPanicked (host (snd (HandleCall a J nt yaml e e2 cmd bytes p))))
    | Some (ret, out, p') \<Rightarrow>
        (\<exists>txt. responseOK txt h out \<and>
          (case name of
             None \<Rightarrow> ret = 1 \<and> p' = p
           | Some cmd \<Rightarrow>
               if request \<noteq> None \<and> requestLen > maxRequestLen then ret = 0 \<and> p' = p
               else
                 p' = snd (HandleCall a J nt yaml e e2 cmd bytes p) \<and>
                 (case fst (HandleCall a J nt yaml e e2 cmd bytes p) of
                    Reply env \<Rightarrow> ret = 0 \<and> txt = enc env
                  | CallError err \<Rightarrow> ret = 1 \<and> txt = enc (ErrEnvelope ''plugin_error'' err)
                  | Panicked \<Rightarrow> False)))"
  by (rule plugin_call_ends [OF assms])

lemma plugin_call_safe_witness:
  "\<exists>out. cliproxyPluginCall (\<lambda>_. ''{}'')
     (HandleCall plainAbi sampleCodec offlineNet keepConfig sampleEnv sampleEnv) (Some ''plugin.quiesce'')
     (Some (\<lambda>i. CHR ''x'')) (push_bit 63 1) (Some \<lparr> bufPtr = None, bufLen = 0 \<rparr>)
     \<lparr> heapBlocks = [], heapNext = 1 \<rparr> startPlugin = Some (0, out, startPlugin)"
proof -
  let ?h = "\<lparr> heapBlocks = [], heapNext = 1 \<rparr>"
  have "cheap_ok ?h" by (simp add: cheap_ok_def)
  from plugin_call_safe [OF this refl, where enc = "\<lambda>_. ''{}''" and a = plainAbi and J = sampleCodec
      and nt = offlineNet and yaml = keepConfig and e = sampleEnv and ?e2.0 = sampleEnv
      and name = "Some ''plugin.quiesce''" and request = "Some (\<lambda>i. CHR ''x'')"
      and requestLen = "push_bit 63 1" and buffer = "Some \<lparr> bufPtr = None, bufLen = 0 \<rparr>" and p = startPlugin]
  show ?thesis by (auto simp: maxRequestLen_def word_less_nat_alt callbackOK_def startPlugin_def split: option.splits)
qed

text \<open>When the host's answers fit, the callback the plugin installs returns.\<close>

lemma hostCall_returns:
  assumes "\<And>f ret ptr len w'. chCall api = Some f \<Longrightarrow> f cmd payload w = (ret, ptr, len, w') \<Longrightarrow> len \<le> maxRequestLen"
  shows "fst (hostCall ready api cmd payload w) \<noteq> HostPanic"
proof (cases "chCall api")
  case (Some f)
  obtain ret ptr len w' where f: "f cmd payload w = (ret, ptr, len, w')" by (metis prod_cases4)
  with assms [OF Some f] Some show ?thesis
    by (simp add: hostCall_def maxRequestLen_less split: option.split)
qed (simp add: hostCall_def)

lemma init_callbackOK:
  assumes "\<And>f payload w ret ptr len w'. chCall api = Some f \<Longrightarrow>
      f ''host.log'' payload w = (ret, ptr, len, w') \<Longrightarrow> len \<le> maxRequestLen"
    and "callbackOK (host (dispatcher st))"
  shows "callbackOK (host (dispatcher (snd (snd (cliproxy_plugin_init J sees (Some api) plug st)))))"
proof -
  have "logReturns J api sees sent" for sent
    by (auto simp: logReturns_def intro!: hostCall_returns assms(1) split: option.split)
  with assms(2) show ?thesis
    by (auto simp: cliproxy_plugin_init_def SetHostCaller_def callbackOK_def split: option.split)
qed

text \<open>
  C34. The way back has no such bound: a non-empty answer of the host arrives as it is exactly when
  its length fits the request bound; a longer one is cut off or panics (see \<open>GoBytes\<close>).
\<close>

theorem host_call_exact:
  assumes "chCall api = Some f" "f cmd payload w = (0, Some mem, len, w')" "len \<noteq> 0"
  shows "fst (hostCall True api cmd payload w) = HostBytes (map mem [0..<unat len]) \<longleftrightarrow>
    len \<le> maxRequestLen"
proof (cases "unat len < 2147483648")
  case True
  with assms show ?thesis by (simp add: hostCall_def maxRequestLen_less)
next
  case False
  then have "GoBytes mem (cInt len) \<noteq> Some (map mem [0..<unat len])" by (intro GoBytes_large) simp
  with False assms show ?thesis by (auto simp: hostCall_def maxRequestLen_less split: option.split)
qed

lemma host_call_exact_witness:
  "fst (hostCall True
     \<lparr> chVersion = 1, chCall = Some (\<lambda>c r n. (0, Some (\<lambda>i. CHR ''x''), push_bit 31 1, n)),
       chFree = Some (\<lambda>n. n + (1 :: nat)) \<rparr> ''host.log'' ''{}'' 0)
   \<noteq> HostBytes (map (\<lambda>i. CHR ''x'') [0..<unat (push_bit 31 1 :: 64 word)])"
proof -
  have "\<not> (push_bit 31 1 :: 64 word) \<le> maxRequestLen" by (simp add: maxRequestLen_def)
  then show ?thesis
    by (subst host_call_exact [where w' = 0]) simp_all
qed

end
