(* ===== verification/Base64.thy ===== *)
theory Base64
  imports Prelude
begin

section \<open>Base64: encoding/base64\<close>

text \<open>
  \<open>base64.StdEncoding\<close>, which \<open>nativeProxyConnect\<close> uses for the proxy's credentials and
  \<open>encoding/json\<close> for a \<open>[]byte\<close>. Three bytes are four characters for six bits each; the rest
  is filled with \<open>=\<close>. The decoder skips line breaks, demands the filling, and does not look at
  the bits of the last character that it drops.
\<close>

subsection \<open>Characters\<close>

definition base64Char :: "nat \<Rightarrow> char" where
  "base64Char n =
     (if n < 26 then char_of (65 + n) else if n < 52 then char_of (71 + n)
      else if n < 62 then char_of (n - 4) else if n = 62 then CHR ''+'' else CHR ''/'')"

definition base64Index :: "char \<Rightarrow> nat option" where
  "base64Index c =
     (let n = of_char c :: nat in
      if 65 \<le> n \<and> n \<le> 90 then Some (n - 65) else if 97 \<le> n \<and> n \<le> 122 then Some (n - 71)
      else if 48 \<le> n \<and> n \<le> 57 then Some (n + 4) else if c = CHR ''+'' then Some 62
      else if c = CHR ''/'' then Some 63 else None)"

lemma base64Index_Char: "n < 64 \<Longrightarrow> base64Index (base64Char n) = Some n"
  by (auto simp: base64Index_def base64Char_def Let_def)

text \<open>None of the characters is the filling or a line break.\<close>

lemma base64Char_plain: "base64Char n \<notin> set [CHR ''='', CHR 0x0D, CHR 0x0A]"
proof (cases "n < 64")
  case True
  have "base64Index c = None" if "c \<in> set [CHR ''='', CHR 0x0D, CHR 0x0A]" for c
    using that by (auto simp: base64Index_def)
  with base64Index_Char [OF True] show ?thesis by fastforce
next
  case False
  then show ?thesis by (simp add: base64Char_def)
qed

subsection \<open>Encoding\<close>

fun base64 :: "string \<Rightarrow> string" where
  "base64 [] = []"
| "base64 [a] =
     (let n = of_char a * 16 in [base64Char (n div 64), base64Char (n mod 64), CHR ''='', CHR ''=''])"
| "base64 [a, b] =
     (let n = (of_char a * 256 + of_char b) * 4 in
      [base64Char (n div 4096), base64Char (n div 64 mod 64), base64Char (n mod 64), CHR ''=''])"
| "base64 (a # b # c # rest) =
     (let n = of_char a * 65536 + of_char b * 256 + of_char c in
      [base64Char (n div 262144), base64Char (n div 4096 mod 64), base64Char (n div 64 mod 64),
       base64Char (n mod 64)] @ base64 rest)"

subsection \<open>Decoding\<close>

definition bytesOf3 :: "nat \<Rightarrow> string" where
  "bytesOf3 n = [char_of (n div 65536), char_of (n div 256 mod 256), char_of (n mod 256)]"

fun decodeQuads :: "string \<Rightarrow> string option" where
  "decodeQuads [] = Some []"
| "decodeQuads (a # b # c # d # rest) =
     (case (base64Index a, base64Index b) of
        (Some i, Some j) \<Rightarrow>
          if c = CHR ''='' then
            (if d = CHR ''='' \<and> rest = [] then Some (take 1 (bytesOf3 ((i * 64 + j) * 4096))) else None)
          else
            (case base64Index c of
               None \<Rightarrow> None
             | Some k \<Rightarrow>
                 if d = CHR ''='' then
                   (if rest = [] then Some (take 2 (bytesOf3 (((i * 64 + j) * 64 + k) * 64))) else None)
                 else
                   (case (base64Index d, decodeQuads rest) of
                      (Some l, Some out) \<Rightarrow> Some (bytesOf3 (((i * 64 + j) * 64 + k) * 64 + l) @ out)
                    | _ \<Rightarrow> None))
      | _ \<Rightarrow> None)"
| "decodeQuads _ = None"

definition base64Decode :: "string \<Rightarrow> string option" where
  "base64Decode s = decodeQuads (filter (\<lambda>c. c \<noteq> CHR 0x0D \<and> c \<noteq> CHR 0x0A) s)"

subsection \<open>Round trip\<close>

lemma of_char_less: "(of_char c :: nat) < 256"
  by (metis mod_less_divisor of_char_mod_256 zero_less_numeral)

lemma of_char_bound: "(of_char c :: nat) \<le> 255"
  using of_char_less [of c] by linarith

text \<open>Putting the six-bit digits together again.\<close>

lemma sextets:
  fixes n :: nat
  shows "n div 4096 * 64 + n div 64 mod 64 = n div 64"
    and "n div 262144 * 64 + n div 4096 mod 64 = n div 4096"
proof -
  have "n div 4096 = n div 64 div 64" "n div 262144 = n div 4096 div 64"
    by (simp_all add: div_mult2_eq [symmetric])
  then show "n div 4096 * 64 + n div 64 mod 64 = n div 64"
    "n div 262144 * 64 + n div 4096 mod 64 = n div 4096"
    by (simp_all only: div_mult_mod_eq)
qed

lemma decode_quad:
  assumes "i < 64" "j < 64" "k < 64" "l < 64"
  shows "decodeQuads [base64Char i, base64Char j, CHR ''='', CHR ''=''] =
      Some (take 1 (bytesOf3 ((i * 64 + j) * 4096)))"
    and "decodeQuads [base64Char i, base64Char j, base64Char k, CHR ''=''] =
      Some (take 2 (bytesOf3 (((i * 64 + j) * 64 + k) * 64)))"
    and "decodeQuads (base64Char i # base64Char j # base64Char k # base64Char l # rest) =
      map_option (\<lambda>out. bytesOf3 (((i * 64 + j) * 64 + k) * 64 + l) @ out) (decodeQuads rest)"
  using assms [THEN base64Index_Char] base64Char_plain [of k] base64Char_plain [of l]
  by (simp_all split: option.split)

lemma bytesOf3_join:
  assumes "x < 256" "y < 256" "z < 256"
  shows "bytesOf3 (x * 65536 + y * 256 + z) = [char_of x, char_of y, char_of z]"
proof -
  have d: "(m * 256 + b) div 256 = m" "(m * 256 + b) mod 256 = b" if "b < 256" for m b :: nat
    using that by simp_all
  have "bytesOf3 ((x * 256 + y) * 256 + z) = [char_of x, char_of y, char_of z]"
    unfolding bytesOf3_def using div_mult2_eq [of "(x * 256 + y) * 256 + z" 256 256]
    by (simp only: d [OF assms(3)] d [OF assms(2)] mod_less [OF assms(1)]) simp
  then show ?thesis by (simp add: algebra_simps)
qed

lemma decodeQuads_base64: "decodeQuads (base64 s) = Some s"
proof (induction s rule: base64.induct)
  case 1
  then show ?case by simp
next
  case (2 a)
  define n where "n = (of_char a :: nat) * 16"
  have "n \<le> 255 * 16" unfolding n_def by (intro mult_le_mono of_char_bound order_refl)
  then have "n < 64 * 64" by simp
  then have "n div 64 < 64" by (rule less_mult_imp_div_less)
  moreover have "(n div 64 * 64 + n mod 64) * 4096 = of_char a * 65536 + 0 * 256 + 0"
    unfolding div_mult_mod_eq n_def by simp
  ultimately show ?case
    using bytesOf3_join [of "of_char a" 0 0] of_char_less [of a]
    by (simp only: base64.simps Let_def n_def [symmetric] decode_quad(1) mod_less_divisor zero_less_numeral)
      simp
next
  case (3 a b)
  define n where "n = ((of_char a :: nat) * 256 + of_char b) * 4"
  have "n \<le> (255 * 256 + 255) * 4"
    unfolding n_def by (intro mult_le_mono add_le_mono of_char_bound order_refl)
  then have "n < 64 * 4096" by simp
  then have "n div 4096 < 64" by (rule less_mult_imp_div_less)
  moreover have "((n div 4096 * 64 + n div 64 mod 64) * 64 + n mod 64) * 64 =
      of_char a * 65536 + of_char b * 256 + 0"
    unfolding sextets div_mult_mod_eq n_def by simp
  ultimately show ?case
    using bytesOf3_join [of "of_char a" "of_char b" 0] of_char_less [of a] of_char_less [of b]
    by (simp only: base64.simps Let_def n_def [symmetric] decode_quad(2) mod_less_divisor zero_less_numeral)
      simp
next
  case (4 a b c rest)
  define n where "n = (of_char a :: nat) * 65536 + of_char b * 256 + of_char c"
  have "n \<le> 255 * 65536 + 255 * 256 + 255"
    unfolding n_def by (intro mult_le_mono add_le_mono of_char_bound order_refl)
  then have "n < 64 * 262144" by simp
  then have "n div 262144 < 64" by (rule less_mult_imp_div_less)
  moreover have "((n div 262144 * 64 + n div 4096 mod 64) * 64 + n div 64 mod 64) * 64 + n mod 64 = n"
    unfolding sextets div_mult_mod_eq ..
  moreover have "bytesOf3 n = [a, b, c]"
    using bytesOf3_join [of "of_char a" "of_char b" "of_char c"] of_char_less by (simp add: n_def)
  moreover have "decodeQuads (base64 rest) = Some rest" using 4 by blast
  ultimately show ?case
    by (simp only: base64.simps Let_def n_def [symmetric] append.simps decode_quad(3) mod_less_divisor
        zero_less_numeral option.map)
qed

text \<open>An encoding has no line breaks, so the decoder gives the bytes back.\<close>

lemma base64_plain: "c \<in> set (base64 s) \<Longrightarrow> c \<noteq> CHR 0x0D \<and> c \<noteq> CHR 0x0A"
  using base64Char_plain by (induction s rule: base64.induct) (auto simp: Let_def)

lemma base64_round_trip: "base64Decode (base64 s) = Some s"
proof -
  have "filter (\<lambda>c. c \<noteq> CHR 0x0D \<and> c \<noteq> CHR 0x0A) (base64 s) = base64 s"
    using base64_plain by (simp add: filter_id_conv)
  then show ?thesis by (simp add: base64Decode_def decodeQuads_base64)
qed

end
