(* ===== verification/Abi.thy ===== *)
theory Abi
  imports Dispatch Base64 "HOL-Library.Monad_Syntax"
begin

section \<open>The encodings of the plugin interface\<close>

text \<open>
  What crosses the C interface, as decoded JSON values: how the payloads of the calls fill the
  request structs (plugin/types.go and the structs of plugin/native.go), and the values the
  replies are encoded as, with the names and the \<open>omitempty\<close> of their tags. \<open>goAbi\<close> is the
  record \<open>abi\<close> of the dispatcher that decodes this way. Only the text of a JSON value stays a
  parameter (\<open>codec\<close>), and the texts of its errors (\<open>errText\<close>, by method).

  A \<open>[]byte\<close> is a base64 string, or an array of numbers. The literal of a number is not part
  of a decoded value: a whole number counts as an integer literal here.
\<close>

subsection \<open>Fields\<close>

definition wholeNumber :: "rat \<Rightarrow> int option" where
  "wholeNumber n = (if of_int \<lfloor>n\<rfloor> = n then Some \<lfloor>n\<rfloor> else None)"

definition intoInt :: "int \<Rightarrow> int \<Rightarrow> json \<Rightarrow> int \<Rightarrow> int option" where
  "intoInt lo hi v x =
     (case v of
        JNull \<Rightarrow> Some x
      | JNum n \<Rightarrow>
          (case wholeNumber n of
             Some i \<Rightarrow> if lo \<le> i \<and> i < hi then Some i else None
           | None \<Rightarrow> None)
      | _ \<Rightarrow> None)"

definition intoByte :: "json \<Rightarrow> char \<Rightarrow> char option" where
  "intoByte v x = map_option (\<lambda>i. char_of (nat i)) (intoInt 0 256 v (of_char x))"

definition intoBytes :: "json \<Rightarrow> string \<Rightarrow> string option" where
  "intoBytes v x =
     (case v of
        JNull \<Rightarrow> Some []
      | JStr s \<Rightarrow> base64Decode s
      | JArr vs \<Rightarrow> intoElems intoByte (CHR 0x00) vs x
      | _ \<Rightarrow> None)"

definition intoStrings :: "json \<Rightarrow> string list \<Rightarrow> string list option" where
  "intoStrings = intoSlice intoString []"

fun addHeaders :: "obj \<Rightarrow> header \<Rightarrow> header option" where
  "addHeaders [] x = Some x"
| "addHeaders ((k, v) # m) x =
     (case intoStrings v [] of None \<Rightarrow> None | Some vs \<Rightarrow> addHeaders m (AList.update k vs x))"

definition intoHeader :: "json \<Rightarrow> header \<Rightarrow> header option" where
  "intoHeader v x = (case v of JNull \<Rightarrow> Some [] | JObj m \<Rightarrow> addHeaders m x | _ \<Rightarrow> None)"

text \<open>A \<open>map[string]any\<close>.\<close>

definition intoMap :: "json \<Rightarrow> obj \<Rightarrow> obj option" where
  "intoMap v x =
     (case v of JNull \<Rightarrow> Some [] | JObj m \<Rightarrow> Some (fold (\<lambda>(k, v). jset k v) m x) | _ \<Rightarrow> None)"

subsection \<open>Requests\<close>

definition decodeLifecycle :: "obj \<Rightarrow> string option" where
  "decodeLifecycle m =
     do { y \<leftarrow> structField intoBytes ''config_yaml'' [] m;
          _ \<leftarrow> structField (intoInt 0 (2 ^ 32)) ''schema_version'' 0 m;
          Some y }"

definition decodeIntercept :: "obj \<Rightarrow> RequestInterceptRequest option" where
  "decodeIntercept m =
     do { i \<leftarrow> structField intoString ''RequestID'' [] m;
          source \<leftarrow> structField intoString ''SourceFormat'' [] m;
          target \<leftarrow> structField intoString ''ToFormat'' [] m;
          model \<leftarrow> structField intoString ''Model'' [] m;
          requested \<leftarrow> structField intoString ''RequestedModel'' [] m;
          headers \<leftarrow> structField intoHeader ''Headers'' [] m;
          body \<leftarrow> structField intoBytes ''Body'' [] m;
          metadata \<leftarrow> structField intoMap ''Metadata'' [] m;
          Some \<lparr> RequestID = i, SourceFormat = source, ToFormat = target, Model = model,
            RequestedModel = requested, ReqHeaders = headers, ReqBody = body,
            ReqMetadata = metadata \<rparr> }"

definition intoHost :: "json \<Rightarrow> string \<Rightarrow> string option" where
  "intoHost v x =
     (case v of
        JNull \<Rightarrow> Some x
      | JObj m \<Rightarrow> structField intoString ''ProxyURL'' x m
      | _ \<Rightarrow> None)"

definition decodeParse :: "obj \<Rightarrow> parseRequest option" where
  "decodeParse m =
     do { provider \<leftarrow> structField intoString ''Provider'' [] m;
          path \<leftarrow> structField intoString ''Path'' [] m;
          file \<leftarrow> structField intoString ''FileName'' [] m;
          raw \<leftarrow> structField intoBytes ''RawJSON'' [] m;
          proxy \<leftarrow> structField intoHost ''Host'' [] m;
          Some \<lparr> ParseProvider = provider, ParsePath = path, ParseFileName = file,
            ParseRawJSON = raw, ParseHostProxyURL = proxy \<rparr> }"

definition decodeForAuth :: "obj \<Rightarrow> forAuthRequest option" where
  "decodeForAuth m =
     do { provider \<leftarrow> structField intoString ''AuthProvider'' [] m;
          storage \<leftarrow> structField intoBytes ''StorageJSON'' [] m;
          Some \<lparr> ForAuthProvider = provider, ForStorageJSON = storage \<rparr> }"

definition decodeRefresh :: "obj \<Rightarrow> refreshRequest option" where
  "decodeRefresh m =
     do { i \<leftarrow> structField intoString ''AuthID'' [] m;
          provider \<leftarrow> structField intoString ''AuthProvider'' [] m;
          storage \<leftarrow> structField intoBytes ''StorageJSON'' [] m;
          Some \<lparr> RefreshAuthID = i, RefreshAuthProvider = provider, RefreshStorageJSON = storage \<rparr> }"

text \<open>The fields the executor does not read still have to fit their types.\<close>

definition decodeExecutor :: "obj \<Rightarrow> nativeExecutorRequest option" where
  "decodeExecutor m =
     do { _ \<leftarrow> structField intoString ''AuthID'' [] m;
          provider \<leftarrow> structField intoString ''AuthProvider'' [] m;
          model \<leftarrow> structField intoString ''Model'' [] m;
          _ \<leftarrow> structField intoString ''Format'' [] m;
          source \<leftarrow> structField intoString ''SourceFormat'' [] m;
          _ \<leftarrow> structField intoBool ''Stream'' False m;
          headers \<leftarrow> structField intoHeader ''Headers'' [] m;
          payload \<leftarrow> structField intoBytes ''Payload'' [] m;
          _ \<leftarrow> structField intoBytes ''OriginalRequest'' [] m;
          storage \<leftarrow> structField intoBytes ''StorageJSON'' [] m;
          metadata \<leftarrow> structField intoMap ''Metadata'' [] m;
          _ \<leftarrow> structField intoMap ''AuthMetadata'' [] m;
          attrs \<leftarrow> structField intoStringMap ''AuthAttributes'' [] m;
          stream \<leftarrow> structField intoString ''stream_id'' [] m;
          _ \<leftarrow> structField intoString ''host_callback_id'' [] m;
          Some \<lparr> ExAuthProvider = provider, ExModel = model, ExSourceFormat = source,
            ExHeaders = headers, ExPayload = payload, ExStorageJSON = storage,
            ExMetadata = metadata, ExAuthAttributes = attrs, ExStreamID = stream \<rparr> }"

definition decodeComplete :: "obj \<Rightarrow> string option" where
  "decodeComplete m = structField intoString ''RequestID'' [] m"

text \<open>\<open>json.Unmarshal(payload, &req)\<close> for a struct: \<open>null\<close> leaves it as it is.\<close>

definition unmarshalStruct ::
    "codec \<Rightarrow> (string \<Rightarrow> string) \<Rightarrow> (obj \<Rightarrow> 'a option) \<Rightarrow> string \<Rightarrow> string + 'a" where
  "unmarshalStruct J err decode payload =
     (case unmarshalMap J payload of
        DecodeError \<Rightarrow> Inl (err payload)
      | NilMap \<Rightarrow> (case decode [] of Some r \<Rightarrow> Inr r | None \<Rightarrow> Inl (err payload))
      | Root m \<Rightarrow> (case decode m of Some r \<Rightarrow> Inr r | None \<Rightarrow> Inl (err payload)))"

definition goAbi :: "codec \<Rightarrow> (string \<Rightarrow> string \<Rightarrow> string) \<Rightarrow> abi" where
  "goAbi J errText =
    \<lparr> dLifecycle = unmarshalStruct J (errText ''lifecycle'') decodeLifecycle,
      dIntercept = unmarshalStruct J (errText ''intercept'') decodeIntercept,
      dParse = unmarshalStruct J (errText ''auth.parse'') decodeParse,
      dForAuth = unmarshalStruct J (errText ''model.for_auth'') decodeForAuth,
      dExecutor = unmarshalStruct J (errText ''executor'') decodeExecutor,
      dComplete = unmarshalStruct J (errText ''request.complete'') decodeComplete,
      dRefresh = unmarshalStruct J (errText ''auth.refresh'') decodeRefresh \<rparr>"

subsection \<open>Replies\<close>

text \<open>A nil \<open>[]byte\<close> or map is encoded as \<open>null\<close>; \<open>omitempty\<close> leaves the member out.\<close>

definition stringsJson :: "string list \<Rightarrow> json" where
  "stringsJson vs = JArr (map JStr vs)"

definition headerJson :: "header \<Rightarrow> json" where
  "headerJson h = JObj (map (\<lambda>(k, vs). (k, stringsJson vs)) h)"

definition bytesJson :: "string \<Rightarrow> json" where
  "bytesJson b = (if b = [] then JNull else JStr (base64 b))"

definition mapJson :: "obj \<Rightarrow> json" where
  "mapJson m = (if m = [] then JNull else JObj m)"

definition omitempty :: "bool \<Rightarrow> string \<Rightarrow> json \<Rightarrow> obj" where
  "omitempty is_empty name v = (if is_empty then [] else [(name, v)])"

definition errorJson :: "EnvelopeError \<Rightarrow> json" where
  "errorJson err =
     JObj ([(''code'', JStr (ErrCode err)), (''message'', JStr (ErrMessage err))]
       @ omitempty (HTTPStatus err = 0) ''http_status'' (JNum (of_int (HTTPStatus err)))
       @ omitempty (RetryAfterSeconds err = 0) ''retry_after_seconds''
           (JNum (of_int (RetryAfterSeconds err))))"

fun envelopeJson :: "('r \<Rightarrow> json) \<Rightarrow> 'r envelope \<Rightarrow> obj" where
  "envelopeJson enc (OKEnv r) = [(''ok'', JBool True), (''result'', enc r)]"
| "envelopeJson enc (ErrEnv err) = [(''ok'', JBool False), (''error'', errorJson err)]"

definition interceptJson :: "RequestInterceptResponse \<Rightarrow> obj" where
  "interceptJson r =
     omitempty (RespHeaders r = []) ''Headers'' (headerJson (RespHeaders r))
     @ omitempty (ClearHeaders r = []) ''ClearHeaders'' (stringsJson (ClearHeaders r))
     @ omitempty (RespBody r = []) ''Body'' (JStr (base64 (RespBody r)))"

definition configFieldJson :: "ConfigField \<Rightarrow> json" where
  "configFieldJson f =
     JObj [(''Name'', JStr (FieldName f)), (''Type'', JStr (FieldType f)),
       (''Description'', JStr (FieldDescription f))]"

definition metadataJson :: "Registration \<Rightarrow> json" where
  "metadataJson r =
     JObj [(''Name'', JStr (MetaName r)), (''Version'', JStr (MetaVersion r)),
       (''Author'', JStr (MetaAuthor r)), (''GitHubRepository'', JStr (MetaRepository r)),
       (''ConfigFields'', JArr (map configFieldJson (ConfigFields r)))]"

definition capabilitiesJson :: "Registration \<Rightarrow> json" where
  "capabilitiesJson r =
     JObj [(''request_interceptor'', JBool (CapRequestInterceptor r)),
       (''auth_provider'', JBool (CapAuthProvider r)),
       (''model_provider'', JBool (CapModelProvider r)),
       (''executor'', JBool (CapExecutor r)),
       (''executor_model_scope'', JStr (CapExecutorModelScope r)),
       (''executor_input_formats'', stringsJson (CapExecutorInputFormats r)),
       (''executor_output_formats'', stringsJson (CapExecutorOutputFormats r)),
       (''request_lifecycle_plugin'', JBool (CapRequestLifecycle r))]"

definition registrationJson :: "Registration \<Rightarrow> json" where
  "registrationJson r =
     JObj [(''schema_version'', JNum (of_int (SchemaVersion r))), (''metadata'', metadataJson r),
       (''capabilities'', capabilitiesJson r)]"

definition authDataJson :: "nativeAuthData \<Rightarrow> json" where
  "authDataJson d =
     JObj [(''Provider'', JStr (DataProvider d)), (''ID'', JStr (DataID d)),
       (''FileName'', JStr (DataFileName d)), (''Label'', JStr (DataLabel d)),
       (''Prefix'', JStr (DataPrefix d)), (''ProxyURL'', JStr (DataProxyURL d)),
       (''Disabled'', JBool (DataDisabled d)), (''StorageJSON'', bytesJson (StorageJSON d)),
       (''Metadata'', mapJson (DataMetadata d)),
       (''Attributes'', mapJson (map (\<lambda>(k, v). (k, JStr v)) (Attributes d)))]"

fun nativeReplyJson :: "nativeReply \<Rightarrow> json" where
  "nativeReplyJson (RIdentifier i) = JObj [(''identifier'', JStr i)]"
| "nativeReplyJson RNotHandled = JObj [(''Handled'', JBool False)]"
| "nativeReplyJson (RHandled d) = JObj [(''Handled'', JBool True), (''Auth'', authDataJson d)]"
| "nativeReplyJson (RModels ms) = JObj [(''Provider'', JStr PluginID), (''Models'', JArr ms)]"
| "nativeReplyJson RNoModels = JObj []"
| "nativeReplyJson (RRefreshed d) = JObj [(''Auth'', authDataJson d)]"
| "nativeReplyJson RDone = JObj []"

fun execReplyJson :: "execReply \<Rightarrow> json" where
  "execReplyJson (Completed data hs) =
     JObj [(''Payload'', bytesJson data), (''Headers'', headerJson hs)]"
| "execReplyJson (Streaming hs job) = JObj [(''headers'', headerJson hs)]"

fun replyJson :: "reply \<Rightarrow> json" where
  "replyJson (RIntercept r) = JObj (interceptJson r)"
| "replyJson (RRegistered r) = registrationJson r"
| "replyJson (RNative r) = nativeReplyJson r"
| "replyJson (RExec r) = execReplyJson r"
| "replyJson REmpty = JObj []"

text \<open>
  The text of an envelope. When a result cannot be encoded, \<open>OKEnvelope\<close> reports that instead;
  the error envelopes hold only strings and numbers, and should one fail all the same,
  \<open>ErrEnvelope\<close> falls back to a literal and \<open>nativeError\<close> (which sets a status) to nothing.
\<close>

definition errEnvelopeText :: "codec \<Rightarrow> EnvelopeError \<Rightarrow> string" where
  "errEnvelopeText J err =
     (case marshal J (JObj (envelopeJson replyJson (ErrEnv err))) of
        Some out \<Rightarrow> out
      | None \<Rightarrow>
          if HTTPStatus err = 0 then
            ''{\"ok\":false,\"error\":{\"code\":\"plugin_error\",\"message\":\"encode error envelope failed\"}}''
          else [])"

fun envelopeText :: "codec \<Rightarrow> reply envelope \<Rightarrow> string" where
  "envelopeText J (ErrEnv err) = errEnvelopeText J err"
| "envelopeText J (OKEnv r) =
     (case marshal J (replyJson r) of
        None \<Rightarrow>
          errEnvelopeText J
            \<lparr> ErrCode = ''plugin_error'', ErrMessage = ''encode result failed'', HTTPStatus = 0,
              RetryAfterSeconds = 0 \<rparr>
      | Some _ \<Rightarrow>
          (case marshal J (JObj (envelopeJson replyJson (OKEnv r))) of
             Some out \<Rightarrow> out
           | None \<Rightarrow>
               ''{\"ok\":false,\"error\":{\"code\":\"plugin_error\",\"message\":\"encode envelope failed\"}}''))"

subsection \<open>Answers of the host\<close>

text \<open>\<open>nativeHostCall\<close> decodes the answer into the same \<open>Envelope\<close>; \<open>result\<close> takes any value.\<close>

definition intoError :: "json \<Rightarrow> EnvelopeError option \<Rightarrow> EnvelopeError option option" where
  "intoError v x =
     (case v of
        JNull \<Rightarrow> Some None
      | JObj m \<Rightarrow>
          (let old = (case x of Some err \<Rightarrow> err
                 | None \<Rightarrow> \<lparr> ErrCode = [], ErrMessage = [], HTTPStatus = 0, RetryAfterSeconds = 0 \<rparr>) in
           do { code \<leftarrow> structField intoString ''code'' (ErrCode old) m;
                message \<leftarrow> structField intoString ''message'' (ErrMessage old) m;
                status \<leftarrow> structField (intoInt (- (2 ^ 63)) (2 ^ 63)) ''http_status'' (HTTPStatus old) m;
                retry \<leftarrow> structField (intoInt (- (2 ^ 63)) (2 ^ 63)) ''retry_after_seconds''
                  (RetryAfterSeconds old) m;
                Some (Some \<lparr> ErrCode = code, ErrMessage = message, HTTPStatus = status,
                  RetryAfterSeconds = retry \<rparr>) })
      | _ \<Rightarrow> None)"

definition decodeEnvelope :: "obj \<Rightarrow> (bool \<times> EnvelopeError option) option" where
  "decodeEnvelope m =
     do { ok \<leftarrow> structField intoBool ''ok'' False m;
          err \<leftarrow> structField intoError ''error'' None m;
          Some (ok, err) }"

definition hostAnswerOf :: "codec \<Rightarrow> (string \<Rightarrow> string) \<Rightarrow> string + string \<Rightarrow> hostAnswer" where
  "hostAnswerOf J errText result =
     (case result of
        Inl err \<Rightarrow> HostError err
      | Inr raw \<Rightarrow>
          (case unmarshalStruct J errText decodeEnvelope raw of
             Inl err \<Rightarrow> HostError err
           | Inr (ok, err) \<Rightarrow> HostEnvelope ok (map_option ErrMessage err)))"

text \<open>The requests to the host that the executor makes, as JSON.\<close>

fun hostRequestJson :: "hostRequest \<Rightarrow> obj" where
  "hostRequestJson (StreamEmit i payload) =
     [(''stream_id'', JStr i), (''payload'', bytesJson payload)]"
| "hostRequestJson (StreamClose i detail) =
     (''stream_id'', JStr i) #
     (case detail of Some err \<Rightarrow> [(''error_detail'', errorJson err)] | None \<Rightarrow> [])"

end
