(* ===== verification/Abi_Props.thy ===== *)
theory Abi_Props
  imports Abi Entry
begin

section \<open>Properties of the encodings\<close>

text \<open>
  Decoding what the structs of plugin/types.go are encoded as gives the values back, so the
  dispatcher sees the request the host sent and the host the response the dispatcher computed.
\<close>

subsection \<open>Fields of an encoded struct\<close>

lemma fieldValues_Cons:
  "fieldValues name ((k, v) # m) = (if EqualFold k name then v # fieldValues name m else fieldValues name m)"
  by (simp add: fieldValues_def)

lemma fieldValues_Nil [simp]: "fieldValues name [] = []"
  by (simp add: fieldValues_def)

lemma fieldValues_append: "fieldValues name (m @ m') = fieldValues name m @ fieldValues name m'"
  by (simp add: fieldValues_def)

lemma fieldValues_own:
  assumes "distinct (map (\<lambda>(k, v). foldCase k) m)" "(k, v) \<in> set m"
  shows "fieldValues k m = [v]"
  using assms
proof (induction m)
  case Nil
  then show ?case by simp
next
  case (Cons kv m)
  obtain k' v' where kv: "kv = (k', v')" by fastforce
  have none: "fieldValues k m = []" if "foldCase k' = foldCase k"
    using Cons.prems(1) that by (force simp: fieldValues_def filter_empty_conv EqualFold_def kv)
  show ?case
  proof (cases "kv = (k, v)")
    case True
    with none kv show ?thesis by (simp add: fieldValues_Cons)
  next
    case False
    with Cons.prems kv have "(k, v) \<in> set m" by auto
    then have "foldCase k \<in> (\<lambda>(k, v). foldCase k) ` set m" by force
    with Cons.prems(1) kv have "\<not> EqualFold k' k" by (auto simp: EqualFold_def)
    with Cons.IH Cons.prems \<open>(k, v) \<in> set m\<close> kv show ?thesis by (simp add: fieldValues_Cons)
  qed
qed

lemma structField_own:
  "distinct (map (\<lambda>(k, v). foldCase k) m) \<Longrightarrow> (k, v) \<in> set m \<Longrightarrow> structField into k zero m = into v zero"
  by (rule structField_single) (rule fieldValues_own)

subsection \<open>Values\<close>

lemma intoBytes_base64 [simp]: "intoBytes (JStr (base64 b)) x = Some b"
  by (simp add: intoBytes_def base64_round_trip)

lemma intoBytes_bytesJson [simp]: "intoBytes (bytesJson b) x = Some b"
  by (simp add: bytesJson_def intoBytes_def base64_round_trip)

lemma intoElems_strings: "intoElems intoString [] (map JStr vs) [] = Some vs"
  by (induction vs) (simp_all add: intoString_def)

lemma intoStrings_json [simp]: "intoStrings (stringsJson vs) [] = Some vs"
  by (simp add: intoStrings_def intoSlice_def stringsJson_def intoElems_strings)

lemma update_fresh: "k \<notin> fst ` set m \<Longrightarrow> AList.update k v m = m @ [(k, v)]"
  by (induction m) auto

lemma addHeaders_json:
  "uniqueKeys (x @ h) \<Longrightarrow> addHeaders (map (\<lambda>(k, vs). (k, stringsJson vs)) h) x = Some (x @ h)"
proof (induction h arbitrary: x)
  case Nil
  then show ?case by simp
next
  case (Cons e h)
  obtain k vs where e: "e = (k, vs)" by fastforce
  with Cons.prems have "AList.update k vs x = x @ [(k, vs)]"
    by (intro update_fresh) (auto simp: uniqueKeys_def)
  with Cons.IH [of "x @ [(k, vs)]"] Cons.prems e show ?case by simp
qed

lemma intoHeader_json [simp]: "uniqueKeys h \<Longrightarrow> intoHeader (headerJson h) [] = Some h"
  using addHeaders_json [of "[]" h] by (simp add: intoHeader_def headerJson_def)

lemma fold_update_fresh:
  "uniqueKeys (x @ m) \<Longrightarrow> fold (\<lambda>(k, v). AList.update k v) m x = x @ m"
proof (induction m arbitrary: x)
  case Nil
  then show ?case by simp
next
  case (Cons e m)
  obtain k v where e: "e = (k, v)" by fastforce
  with Cons.prems have "AList.update k v x = x @ [(k, v)]"
    by (intro update_fresh) (auto simp: uniqueKeys_def)
  with Cons.IH [of "x @ [(k, v)]"] Cons.prems e show ?case by simp
qed

lemma intoMap_json [simp]: "uniqueKeys m \<Longrightarrow> intoMap (mapJson m) [] = Some m"
  using fold_update_fresh [of "[]" m] by (simp add: intoMap_def mapJson_def)

lemma intoString_json [simp]: "intoString (JStr s) x = Some s"
  by (simp add: intoString_def)

lemma intoBool_json [simp]: "intoBool (JBool b) x = Some b"
  by (simp add: intoBool_def)

lemma intoInt_json [simp]: "lo \<le> i \<Longrightarrow> i < hi \<Longrightarrow> intoInt lo hi (JNum (of_int i)) x = Some i"
  by (simp add: intoInt_def wholeNumber_def)

subsection \<open>The interception\<close>

text \<open>The request as the host encodes it, with the names of the tags.\<close>

definition requestJson :: "RequestInterceptRequest \<Rightarrow> obj" where
  "requestJson req =
     [(''RequestID'', JStr (RequestID req)), (''SourceFormat'', JStr (SourceFormat req)),
      (''ToFormat'', JStr (ToFormat req)), (''Model'', JStr (Model req)),
      (''RequestedModel'', JStr (RequestedModel req)), (''Headers'', headerJson (ReqHeaders req)),
      (''Body'', bytesJson (ReqBody req)), (''Metadata'', mapJson (ReqMetadata req))]"

lemma requestJson_names: "distinct (map (\<lambda>(k, v). foldCase k) (requestJson req))"
proof -
  have "distinct (map foldCase [''RequestID'', ''SourceFormat'', ''ToFormat'', ''Model'',
      ''RequestedModel'', ''Headers'', ''Body'', ''Metadata''])" by code_simp
  then show ?thesis by (simp add: requestJson_def)
qed

lemma decodeIntercept_requestJson:
  assumes "uniqueKeys (ReqHeaders req)" "uniqueKeys (ReqMetadata req)"
  shows "decodeIntercept (requestJson req) = Some req"
proof -
  have g: "structField intoString ''RequestID'' [] (requestJson req) = Some (RequestID req)"
    "structField intoString ''SourceFormat'' [] (requestJson req) = Some (SourceFormat req)"
    "structField intoString ''ToFormat'' [] (requestJson req) = Some (ToFormat req)"
    "structField intoString ''Model'' [] (requestJson req) = Some (Model req)"
    "structField intoString ''RequestedModel'' [] (requestJson req) = Some (RequestedModel req)"
    by (subst structField_own [OF requestJson_names], simp add: requestJson_def, simp)+
  have h: "structField intoHeader ''Headers'' [] (requestJson req) = Some (ReqHeaders req)"
    by (subst structField_own [OF requestJson_names], simp add: requestJson_def)
      (simp add: assms(1))
  have b: "structField intoBytes ''Body'' [] (requestJson req) = Some (ReqBody req)"
    by (subst structField_own [OF requestJson_names], simp add: requestJson_def) simp
  have m: "structField intoMap ''Metadata'' [] (requestJson req) = Some (ReqMetadata req)"
    by (subst structField_own [OF requestJson_names], simp add: requestJson_def)
      (simp add: assms(2))
  show ?thesis by (simp add: decodeIntercept_def g h b m)
qed

text \<open>The response as the host decodes it: the members of the same struct.\<close>

definition decodeResponse :: "obj \<Rightarrow> RequestInterceptResponse option" where
  "decodeResponse m =
     do { headers \<leftarrow> structField intoHeader ''Headers'' [] m;
          clear \<leftarrow> structField intoStrings ''ClearHeaders'' [] m;
          body \<leftarrow> structField intoBytes ''Body'' [] m;
          Some \<lparr> RespHeaders = headers, ClearHeaders = clear, RespBody = body \<rparr> }"

definition hostReads :: "codec \<Rightarrow> string \<Rightarrow> RequestInterceptResponse option" where
  "hostReads J reply =
     (case unmarshalMap J reply of
        Root m \<Rightarrow>
          if jget m ''ok'' = JBool True then decodeResponse (objVal (jget m ''result'')) else None
      | _ \<Rightarrow> None)"

lemma response_names: "distinct (map foldCase [''Headers'', ''ClearHeaders'', ''Body''])"
  by code_simp

lemma response_fields:
  "EqualFold ''Headers'' ''Headers''" "\<not> EqualFold ''Headers'' ''ClearHeaders''"
  "\<not> EqualFold ''Headers'' ''Body''" "\<not> EqualFold ''ClearHeaders'' ''Headers''"
  "\<not> EqualFold ''ClearHeaders'' ''Body''" "\<not> EqualFold ''Body'' ''Headers''"
  "\<not> EqualFold ''Body'' ''ClearHeaders''"
  using response_names by (auto simp: EqualFold_def)

lemma fieldValues_omitempty:
  "fieldValues name (omitempty b k v) = (if \<not> b \<and> EqualFold k name then [v] else [])"
  by (simp add: omitempty_def fieldValues_def)

lemma decodeResponse_interceptJson:
  assumes "uniqueKeys (RespHeaders r)"
  shows "decodeResponse (interceptJson r) = Some r"
proof -
  have "structField intoHeader ''Headers'' [] (interceptJson r) = Some (RespHeaders r)"
    by (simp add: structField_def interceptJson_def fieldValues_append fieldValues_omitempty
        response_fields assms)
  moreover have "structField intoStrings ''ClearHeaders'' [] (interceptJson r) = Some (ClearHeaders r)"
    by (simp add: structField_def interceptJson_def fieldValues_append fieldValues_omitempty response_fields)
  moreover have "structField intoBytes ''Body'' [] (interceptJson r) = Some (RespBody r)"
    by (simp add: structField_def interceptJson_def fieldValues_append fieldValues_omitempty response_fields)
  ultimately show ?thesis by (simp add: decodeResponse_def)
qed

text \<open>The headers of a response are a map.\<close>

lemma sessionStep_unique:
  "uniqueKeys hs \<Longrightarrow> uniqueKeys (fst (sessionStep J e req cfg fp project (hs, vals, cache)))"
  by (auto simp: sessionStep_def Let_def headerMerge_unique split: option.splits prod.splits)

lemma identityStep_unique:
  "uniqueKeys hs \<Longrightarrow> uniqueKeys (fst (identityStep e req cfg fp project (hs, vals)))"
  by (auto simp: identityStep_def Let_def)

lemma shapeRequest_unique: "uniqueKeys (RespHeaders (fst (shapeRequest J e req cfg cache)))"
proof -
  let ?fp = "fingerprintApplies req cfg" and ?project = "requestProject req cfg"
  let ?s = "sessionStep J e req cfg ?fp ?project (nativeMarkers req, [(''fingerprint'', FormatBool ?fp)], cache)"
  have "RespHeaders (fst (shapeRequest J e req cfg cache)) =
      fst (identityStep e req cfg ?fp ?project (fst ?s, fst (snd ?s)))"
    by (simp only: shapeRequest_def Let_def case_prod_beta fst_conv RequestInterceptResponse.select_convs)
  then show ?thesis
    using identityStep_unique sessionStep_unique [OF nativeMarkers_unique] by simp
qed

lemma interceptAfter_unique: "uniqueKeys (RespHeaders (fst (interceptAfter J e req p)))"
proof (cases "shaped req (mcfg (manager p))")
  case False
  then show ?thesis by (simp add: interceptAfter_skip emptyResponse_def)
next
  case True
  obtain resp vals cache changed where
    s: "shapeRequest J e req (mcfg (manager p)) (sessionIDs (manager p)) = (resp, vals, cache, changed)"
    by (metis prod_cases4)
  then have "uniqueKeys (RespHeaders resp)"
    using shapeRequest_unique [of J e req "mcfg (manager p)" "sessionIDs (manager p)"] by simp
  with interceptAfter_shape(1) [OF True s] show ?thesis by (simp add: emptyResponse_def)
qed

lemma envelopeText_exact:
  assumes "codec_inverse J (replyJson r)" "codec_inverse J (JObj (envelopeJson replyJson (OKEnv r)))"
  shows "unmarshalMap J (envelopeText J (OKEnv r)) = Root [(''ok'', JBool True), (''result'', replyJson r)]"
  using assms by (auto simp: codec_inverse_def unmarshalMap_Root)

text \<open>
  C6. The interception is exact over the wire: from the text of a request to the text of the reply,
  the plugin computes \<open>interceptAfter\<close> on the request the host encoded, and the host decodes
  the very response that was computed, headers, cleared headers and body (the JSON codec
  decoding what it encoded; a panic of the host's log callback, see \<open>afterLog\<close>, ends the call).
\<close>

theorem intercept_over_the_wire:
  assumes "payload \<noteq> []" "unmarshal J payload = Some (JObj (requestJson req))"
    and "uniqueKeys (ReqHeaders req)" "uniqueKeys (ReqMetadata req)"
    and "codec_inverse J (replyJson (RIntercept (fst (interceptAfter J e req p))))"
    and "codec_inverse J (JObj (envelopeJson replyJson (OKEnv (RIntercept (fst (interceptAfter J e req p))))))"
  shows "\<exists>env. HandleCall (goAbi J errText) J nt yaml e e2 ''request.intercept_after'' payload p =
      (afterLog (host (snd (interceptAfter J e req p))) (Reply env), snd (interceptAfter J e req p)) \<and>
    hostReads J (envelopeText J env) = Some (fst (interceptAfter J e req p))"
proof -
  let ?r = "fst (interceptAfter J e req p)"
  have "dIntercept (goAbi J errText) payload = Inr req"
    using assms(2) decodeIntercept_requestJson [OF assms(3,4)]
    by (simp add: goAbi_def unmarshalStruct_def unmarshalMap_def)
  then have "HandleCall (goAbi J errText) J nt yaml e e2 ''request.intercept_after'' payload p =
      (afterLog (host (snd (interceptAfter J e req p))) (Reply (OKEnv (RIntercept ?r))),
       snd (interceptAfter J e req p))"
    using assms(1) by (simp add: HandleCall_def handleInterceptAfter_def OKEnvelope_def split: prod.splits)
  moreover have "hostReads J (envelopeText J (OKEnv (RIntercept ?r))) = Some ?r"
    unfolding hostReads_def envelopeText_exact [OF assms(5,6)]
    by (simp add: jget_def decodeResponse_interceptJson [OF interceptAfter_unique])
  ultimately show ?thesis by blast
qed

text \<open>A codec that knows one request and the reply it gets.\<close>

definition wireCodec :: codec where
  "wireCodec =
    \<lparr> unmarshal = (\<lambda>b. if b = ''request'' then Some (JObj (requestJson plainRequest))
        else if b = ''result'' then Some (replyJson (RIntercept emptyResponse))
        else if b = ''reply'' then Some (JObj (envelopeJson replyJson (OKEnv (RIntercept emptyResponse))))
        else None),
      marshal = (\<lambda>v. if v = replyJson (RIntercept emptyResponse) then Some ''result''
        else if v = JObj (envelopeJson replyJson (OKEnv (RIntercept emptyResponse))) then Some ''reply''
        else None),
      rawMap = (\<lambda>b. None), decodeErr = (\<lambda>b. ''invalid''), marshalErr = ''unsupported'' \<rparr>"

lemma intercept_over_the_wire_witness:
  "\<exists>env. HandleCall (goAbi wireCodec (\<lambda>k b. ''invalid'')) wireCodec offlineNet keepConfig sampleEnv
      sampleEnv ''request.intercept_after'' ''request'' startPlugin =
      (Reply env, startPlugin\<lparr> host := logSkip plainRequest (host startPlugin) \<rparr>) \<and>
    hostReads wireCodec (envelopeText wireCodec env) = Some emptyResponse"
proof -
  have "\<not> isNativeAuth plainRequest" "\<not> isTarget plainRequest DefaultConfig" by code_simp+
  then have "\<not> shaped plainRequest (mcfg (manager startPlugin))"
    by (simp add: shaped_def startPlugin_def NewManager_def)
  then have r: "interceptAfter wireCodec sampleEnv plainRequest startPlugin =
      (emptyResponse, startPlugin\<lparr> host := logSkip plainRequest (host startPlugin) \<rparr>)"
    by (rule interceptAfter_skip)
  have alive: "afterLog (host (startPlugin\<lparr> host := logSkip plainRequest (host startPlugin) \<rparr>)) out = out" for out
    by (simp add: afterLog_def startPlugin_def logSkip_def logToHost_def logToHostAlways_def)
  have i: "interceptJson emptyResponse = []"
    by (simp add: interceptJson_def emptyResponse_def omitempty_def)
  have "codec_inverse wireCodec (replyJson (RIntercept emptyResponse))"
    "codec_inverse wireCodec (JObj (envelopeJson replyJson (OKEnv (RIntercept emptyResponse))))"
    by (simp_all add: codec_inverse_def wireCodec_def i)
  with intercept_over_the_wire [of "''request''" wireCodec plainRequest sampleEnv startPlugin
      "\<lambda>k b. ''invalid''" offlineNet keepConfig sampleEnv]
  show ?thesis unfolding r fst_conv snd_conv alive
    by (simp add: wireCodec_def) (simp add: plainRequest_def uniqueKeys_def)
qed

subsection \<open>Errors\<close>

text \<open>An error crosses the interface with its code, message, status and delay.\<close>

definition error_fits :: "EnvelopeError \<Rightarrow> bool" where
  "error_fits err \<longleftrightarrow> HTTPStatus err \<in> {- (2 ^ 63)..<2 ^ 63} \<and> RetryAfterSeconds err \<in> {- (2 ^ 63)..<2 ^ 63}"

lemma error_names: "distinct (map foldCase [''code'', ''message'', ''http_status'', ''retry_after_seconds''])"
  by code_simp

lemma error_fields:
  "list_all (\<lambda>(a, b). EqualFold a b \<longleftrightarrow> a = b)
     (List.product [''code'', ''message'', ''http_status'', ''retry_after_seconds'']
        [''code'', ''message'', ''http_status'', ''retry_after_seconds''])"
  using error_names by (auto simp: EqualFold_def)

lemma intoError_json:
  assumes "error_fits err"
  shows "intoError (errorJson err) None = Some (Some err)"
  using assms error_fields
  by (simp add: intoError_def errorJson_def error_fits_def structField_def fieldValues_append
      fieldValues_Cons fieldValues_omitempty)

lemma error_envelope_round_trip:
  assumes "codec_inverse J (JObj (envelopeJson replyJson (ErrEnv err)))" "error_fits err"
  shows "unmarshalStruct J t decodeEnvelope (envelopeText J (ErrEnv err)) = Inr (False, Some err)"
proof -
  have "distinct (map foldCase [''ok'', ''error''])" by code_simp
  then have "decodeEnvelope (envelopeJson replyJson (ErrEnv err)) = Some (False, Some err)"
    by (simp add: decodeEnvelope_def structField_def fieldValues_Cons EqualFold_def
        intoError_json [OF assms(2)])
  moreover from assms(1) obtain b where b: "marshal J (JObj (envelopeJson replyJson (ErrEnv err))) = Some b"
    "unmarshal J b = Some (JObj (envelopeJson replyJson (ErrEnv err)))"
    by (auto simp: codec_inverse_def)
  moreover from b(2) have "unmarshalMap J b = Root (envelopeJson replyJson (ErrEnv err))"
    by (simp only: unmarshalMap_Root)
  ultimately show ?thesis by (simp add: unmarshalStruct_def errEnvelopeText_def)
qed

definition payloadMethods :: "string list" where
  "payloadMethods =
     [''plugin.register'', ''plugin.reconfigure'', ''request.intercept_after'', ''auth.parse'',
      ''model.for_auth'', ''executor.execute'', ''executor.execute_stream'', ''request.complete'',
      ''auth.refresh'']"

lemma goAbi_malformed:
  assumes "unmarshalMap J payload = DecodeError"
  shows "dLifecycle (goAbi J t) payload = Inl (t ''lifecycle'' payload)"
    "dIntercept (goAbi J t) payload = Inl (t ''intercept'' payload)"
    "dParse (goAbi J t) payload = Inl (t ''auth.parse'' payload)"
    "dForAuth (goAbi J t) payload = Inl (t ''model.for_auth'' payload)"
    "dExecutor (goAbi J t) payload = Inl (t ''executor'' payload)"
    "dComplete (goAbi J t) payload = Inl (t ''request.complete'' payload)"
    "dRefresh (goAbi J t) payload = Inl (t ''auth.refresh'' payload)"
  by (simp_all add: goAbi_def unmarshalStruct_def assms)

lemma malformed_call:
  assumes "cmd \<in> set payloadMethods" "payload \<noteq> []" "unmarshalMap J payload = DecodeError"
  shows "\<exists>err. HandleCall (goAbi J t) J nt yaml e e2 cmd payload p = (CallError err, p)"
proof -
  note bad = goAbi_malformed [OF assms(3)]
  have l: "handleLifecycle (goAbi J t) yaml payload p = (CallError (t ''lifecycle'' payload), p)"
    using assms(2) by (simp add: handleLifecycle_def bad)
  have i: "handleInterceptAfter (goAbi J t) J e payload p = (CallError (t ''intercept'' payload), p)"
    using assms(2) by (simp add: handleInterceptAfter_def bad)
  have "list_all (\<lambda>cmd. \<exists>err. HandleCall (goAbi J t) J nt yaml e e2 cmd payload p = (CallError err, p))
      payloadMethods"
    by (simp add: payloadMethods_def HandleCall_def nativeMethods_def l i handleNative_def Let_def bad)
  with assms(1) show ?thesis by (simp add: list_all_iff)
qed

text \<open>
  C33. A malformed payload is rejected and changes nothing: when a call has a payload and its bytes decode
  neither to a JSON object nor to \<open>null\<close> (which Go takes for a struct without members), every method
  that reads its payload answers the C call with 1 and an error envelope, and the plugin is as
  it was.
\<close>

theorem malformed_payload_rejected:
  assumes "cheap_ok h" "cmd \<in> set payloadMethods" "n > 0" "n \<le> maxRequestLen"
    and "unmarshalMap J (map mem [0..<unat n]) = DecodeError"
  shows "\<exists>err out. cliproxyPluginCall (envelopeText J) (HandleCall (goAbi J t) J nt yaml e e2) (Some cmd)
      (Some mem) n buffer h p = Some (1, out, p) \<and>
    responseOK (envelopeText J (ErrEnvelope ''plugin_error'' err)) h out"
proof -
  have "map mem [0..<unat n] \<noteq> []" using assms(3) by (simp add: word_less_nat_alt)
  from malformed_call [OF assms(2) this assms(5)] obtain err
    where c: "HandleCall (goAbi J t) J nt yaml e e2 cmd (map mem [0..<unat n]) p = (CallError err, p)"
    by blast
  have b: "map mem [0..<unat n] =
      (case Some mem of Some mem \<Rightarrow> map mem [0..<unat n] | None \<Rightarrow> [])" by simp
  show ?thesis
    using plugin_call_ends [OF assms(1) b, where enc = "envelopeText J" and a = "goAbi J t" and J = J
        and nt = nt and yaml = yaml and e = e and ?e2.0 = e2 and name = "Some cmd" and buffer = buffer
        and p = p] leD [OF assms(4)]
    by (cases "cliproxyPluginCall (envelopeText J) (HandleCall (goAbi J t) J nt yaml e e2) (Some cmd)
        (Some mem) n buffer h p") (auto simp: c)
qed

lemma malformed_payload_rejected_witness:
  "\<exists>err out. cliproxyPluginCall (envelopeText sampleCodec)
      (HandleCall (goAbi sampleCodec (\<lambda>k b. ''invalid'')) sampleCodec offlineNet keepConfig sampleEnv sampleEnv)
      (Some ''auth.parse'') (Some (\<lambda>i. CHR ''x'')) 1 None \<lparr> heapBlocks = [], heapNext = 1 \<rparr> startPlugin =
      Some (1, out, startPlugin) \<and>
    responseOK (envelopeText sampleCodec (ErrEnvelope ''plugin_error'' err)) \<lparr> heapBlocks = [], heapNext = 1 \<rparr> out"
  by (rule malformed_payload_rejected)
    (simp_all add: cheap_ok_def payloadMethods_def maxRequestLen_def word_le_nat_alt unmarshalMap_def sampleCodec_def)

end
