(* ===== verification/Client_Hello.thy ===== *)
theory Client_Hello
  imports Prelude
begin

section \<open>The ClientHello of upstream connections\<close>

text \<open>
  \<open>nativeClientHelloSpec\<close> of plugin/native_transport.go: the value it builds, member by member.
  The named constants of the TLS library (curves, signature schemes, versions and modes) are
  constructors with their names, so two of them are only known to differ; the cipher suites
  and the compression method are the code points written in the code.
\<close>

datatype curveID = X25519MLKEM768 | X25519 | CurveP256 | CurveP384

datatype signatureScheme =
    ECDSAWithP256AndSHA256 | PSSWithSHA256 | PKCS1WithSHA256 | ECDSAWithP384AndSHA384
  | PSSWithSHA384 | PKCS1WithSHA384 | PSSWithSHA512 | PKCS1WithSHA512 | Ed25519
  | ECDSAWithP521AndSHA512 | PKCS1WithSHA1

datatype tlsVersion = VersionTLS13 | VersionTLS12

datatype pskMode = PskModeDHE

datatype renegotiation = RenegotiateOnceAsClient

datatype tlsExtension =
    SNIExtension
  | ExtendedMasterSecretExtension
  | RenegotiationInfoExtension renegotiation
  | SupportedCurvesExtension "curveID list"
  | SupportedPointsExtension "8 word list"
  | SessionTicketExtension
  | ALPNExtension "string list"
  | StatusRequestExtension
  | SignatureAlgorithmsExtension "signatureScheme list"
  | SCTExtension
  | KeyShareExtension "curveID list"
  | PSKKeyExchangeModesExtension "pskMode list"
  | SupportedVersionsExtension "tlsVersion list"

record clientHello =
  CipherSuites :: "16 word list"
  CompressionMethods :: "8 word list"
  Extensions :: "tlsExtension list"

definition nativeClientHelloSpec :: clientHello where
  "nativeClientHelloSpec =
    \<lparr> CipherSuites =
        [0x1301, 0x1302, 0x1303, 0xc02b, 0xc02f, 0xc02c, 0xc030, 0xcca9, 0xcca8, 0xc009, 0xc013,
         0xc00a, 0xc014, 0x009c, 0x009d, 0x002f, 0x0035],
      CompressionMethods = [0],
      Extensions =
        [SNIExtension, ExtendedMasterSecretExtension,
         RenegotiationInfoExtension RenegotiateOnceAsClient,
         SupportedCurvesExtension [X25519MLKEM768, X25519, CurveP256, CurveP384],
         SupportedPointsExtension [0], SessionTicketExtension, ALPNExtension [''http/1.1''],
         StatusRequestExtension,
         SignatureAlgorithmsExtension
           [ECDSAWithP256AndSHA256, PSSWithSHA256, PKCS1WithSHA256, ECDSAWithP384AndSHA384,
            PSSWithSHA384, PKCS1WithSHA384, PSSWithSHA512, PKCS1WithSHA512, Ed25519,
            ECDSAWithP521AndSHA512, PKCS1WithSHA1],
         SCTExtension, KeyShareExtension [X25519MLKEM768, X25519],
         PSKKeyExchangeModesExtension [PskModeDHE],
         SupportedVersionsExtension [VersionTLS13, VersionTLS12]] \<rparr>"

text \<open>
  What makes a hello consistent: every group with a key share is one of the supported curves,
  in their order; nothing is offered twice; the only protocol offered is HTTP/1.1, the one
  the transport on top speaks (its \<open>TLSNextProto\<close> is empty).
\<close>

fun helloCurves :: "tlsExtension list \<Rightarrow> curveID list" where
  "helloCurves [] = []"
| "helloCurves (SupportedCurvesExtension cs # es) = cs @ helloCurves es"
| "helloCurves (_ # es) = helloCurves es"

fun helloShares :: "tlsExtension list \<Rightarrow> curveID list" where
  "helloShares [] = []"
| "helloShares (KeyShareExtension cs # es) = cs @ helloShares es"
| "helloShares (_ # es) = helloShares es"

fun helloProtocols :: "tlsExtension list \<Rightarrow> string list" where
  "helloProtocols [] = []"
| "helloProtocols (ALPNExtension ps # es) = ps @ helloProtocols es"
| "helloProtocols (_ # es) = helloProtocols es"

definition hello_ok :: "clientHello \<Rightarrow> bool" where
  "hello_ok h \<longleftrightarrow>
     subseq (helloShares (Extensions h)) (helloCurves (Extensions h)) \<and>
     distinct (CipherSuites h) \<and> distinct (helloCurves (Extensions h)) \<and>
     distinct (Extensions h) \<and> helloProtocols (Extensions h) = [''http/1.1'']"

lemma nativeClientHelloSpec_ok: "hello_ok nativeClientHelloSpec"
  by (simp add: hello_ok_def nativeClientHelloSpec_def)

end
