(* ===== verification/Transport.thy ===== *)
theory Transport
  imports Auth Base64 Client_Hello
begin

section \<open>The upstream transport\<close>

text \<open>
  plugin/native_transport.go: which way an upstream connection takes, the CONNECT handshake
  with an HTTP proxy, and the TLS connection on top. Connections are handles of a \<open>conns\<close>
  state that records which are open and which addresses have been dialled; a TLS connection
  closes the one below it, so both are one handle. The record \<open>wire\<close> holds what the network
  answers: an error text, or None for success, and the proxy's answer (status and bytes
  buffered behind it). Deadlines and cancellation show as errors of these. \<open>url.Parse\<close> and
  \<open>proxy.FromURL\<close> are arguments. \<open>secured\<close> notes each finished handshake with the target: the
  connection, the server name checked and the hello sent.
\<close>

datatype via = Direct | Socks url

record conns =
  openConns :: "nat set"
  nextConn :: nat
  dials :: "(via \<times> string \<times> string) list"
  secured :: "(nat \<times> string \<times> clientHello) list"

record connectRequest =
  ConnectTarget :: string
  ConnectHeaders :: header

record wire =
  wDial :: "via \<Rightarrow> string \<Rightarrow> string \<Rightarrow> string option"
  wProxyTLS :: "string \<Rightarrow> string option"
  wConnectWrite :: "connectRequest \<Rightarrow> string option"
  wConnectReply :: "string + int \<times> nat"
  wApplyPreset :: "clientHello \<Rightarrow> string option"
  wHandshake :: "string \<Rightarrow> string option"

definition dial :: "wire \<Rightarrow> via \<Rightarrow> string \<Rightarrow> string \<Rightarrow> conns \<Rightarrow> (string + nat) \<times> conns" where
  "dial w v network addr s =
     (let s = s\<lparr> dials := dials s @ [(v, network, addr)] \<rparr> in
      case wDial w v network addr of
        Some err \<Rightarrow> (Inl err, s)
      | None \<Rightarrow>
          (Inr (nextConn s),
           s\<lparr> openConns := insert (nextConn s) (openConns s), nextConn := Suc (nextConn s) \<rparr>))"

definition closeConn :: "nat \<Rightarrow> conns \<Rightarrow> conns" where
  "closeConn c s = s\<lparr> openConns := openConns s - {c} \<rparr>"

subsection \<open>Addresses: net.SplitHostPort and net.JoinHostPort\<close>

definition JoinHostPort :: "string \<Rightarrow> string \<Rightarrow> string" where
  "JoinHostPort hostname port =
     (if CHR '':'' \<in> set hostname then ''['' @ hostname @ '']:'' @ port
      else hostname @ '':'' @ port)"

definition addrError :: "string \<Rightarrow> string \<Rightarrow> string" where
  "addrError addr reason = (if addr = [] then reason else ''address '' @ addr @ '': '' @ reason)"

definition quoted :: "char \<Rightarrow> string" where
  "quoted c = [CHR 0x27, c, CHR 0x27]"

text \<open>The part before the last colon, and the part after it.\<close>

definition lastColon :: "string \<Rightarrow> (string \<times> string) option" where
  "lastColon s =
     (if CHR '':'' \<notin> set s then None
      else
        let port = rev (takeWhile (\<lambda>c. c \<noteq> CHR '':'') (rev s))
        in Some (take (length s - length port - 1) s, port))"

definition SplitHostPort :: "string \<Rightarrow> string + string \<times> string" where
  "SplitHostPort addr =
     (case lastColon addr of
        None \<Rightarrow> Inl (addrError addr ''missing port in address'')
      | Some (before, port) \<Rightarrow>
          if hd addr = CHR ''['' then
            (let inner = takeWhile (\<lambda>c. c \<noteq> CHR '']'') (tl addr);
                 rest = drop (length inner + 2) addr in
             if CHR '']'' \<notin> set addr then Inl (addrError addr (''missing '' @ quoted (CHR '']'') @ '' in address''))
             else if rest = [] then Inl (addrError addr ''missing port in address'')
             else if rest \<noteq> '':'' @ port then
               Inl (addrError addr (if hd rest = CHR '':'' then ''too many colons in address''
                 else ''missing port in address''))
             else if CHR ''['' \<in> set (tl addr) then Inl (addrError addr (''unexpected '' @ quoted (CHR ''['') @ '' in address''))
             else if CHR '']'' \<in> set rest then Inl (addrError addr (''unexpected '' @ quoted (CHR '']'') @ '' in address''))
             else Inr (inner, port))
          else if CHR '':'' \<in> set before then Inl (addrError addr ''too many colons in address'')
          else if CHR ''['' \<in> set addr then Inl (addrError addr (''unexpected '' @ quoted (CHR ''['') @ '' in address''))
          else if CHR '']'' \<in> set addr then Inl (addrError addr (''unexpected '' @ quoted (CHR '']'') @ '' in address''))
          else Inr (before, port))"

subsection \<open>CONNECT\<close>

definition proxyAddress :: "url \<Rightarrow> string" where
  "proxyAddress endpoint =
     (let port = (if UPort endpoint = [] then
                    (if UScheme endpoint = ''https'' then ''443'' else ''80'')
                  else UPort endpoint)
      in JoinHostPort (UHostname endpoint) port)"

definition connectRequestFor :: "url \<Rightarrow> string \<Rightarrow> connectRequest" where
  "connectRequestFor endpoint target =
    \<lparr> ConnectTarget = target,
      ConnectHeaders =
        (case UUser endpoint of
           Some (user, password) \<Rightarrow>
             headerSet ''Proxy-Authorization'' (''Basic '' @ base64 (user @ '':'' @ password)) []
         | None \<Rightarrow> []) \<rparr>"

text \<open>The error of the steps after the dial, None when the tunnel stands.\<close>

definition connectError :: "wire \<Rightarrow> url \<Rightarrow> string \<Rightarrow> string option" where
  "connectError w endpoint target =
     (case (if UScheme endpoint = ''https'' then wProxyTLS w (UHostname endpoint) else None) of
        Some err \<Rightarrow> Some err
      | None \<Rightarrow>
          (case wConnectWrite w (connectRequestFor endpoint target) of
             Some err \<Rightarrow> Some err
           | None \<Rightarrow>
               (case wConnectReply w of
                  Inl err \<Rightarrow> Some err
                | Inr (status, buffered) \<Rightarrow>
                    if status \<noteq> 200 then
                      Some (''OpenCode proxy CONNECT returned HTTP '' @ showInt status)
                    else if buffered \<noteq> 0 then Some ''unexpected bytes after proxy CONNECT''
                    else None)))"

definition nativeProxyConnect :: "wire \<Rightarrow> url \<Rightarrow> string \<Rightarrow> conns \<Rightarrow> (string + nat) \<times> conns" where
  "nativeProxyConnect w endpoint target s =
     (case dial w Direct ''tcp'' (proxyAddress endpoint) s of
        (Inl err, s') \<Rightarrow> (Inl err, s')
      | (Inr c, s') \<Rightarrow>
          (case connectError w endpoint target of
             Some err \<Rightarrow> (Inl err, closeConn c s')
           | None \<Rightarrow> (Inr c, s')))"

subsection \<open>The transport\<close>

text \<open>\<open>forwardVia\<close> is the dialer behind \<open>DialContext\<close>.\<close>

record transport =
  proxyEndpoint :: "url option"
  forwardVia :: via

text \<open>\<open>socks\<close> is \<open>proxy.FromURL\<close>: an error, or whether the dialer is a \<open>ContextDialer\<close>.\<close>

definition newNativeTransport ::
    "(string \<Rightarrow> url option) \<Rightarrow> (url \<Rightarrow> string + bool) \<Rightarrow> string \<Rightarrow> string + transport" where
  "newNativeTransport parse socks proxyURL =
     (let u = normalizeNativeProxy proxyURL in
      if u = [] \<or> u = ''direct://'' then Inr \<lparr> proxyEndpoint = None, forwardVia = Direct \<rparr>
      else
        (case parse u of
           None \<Rightarrow> Inl ''invalid OpenCode proxy URL''
         | Some endpoint \<Rightarrow>
             if UHostname endpoint = [] then Inl ''invalid OpenCode proxy URL''
             else if UScheme endpoint = ''socks5'' \<or> UScheme endpoint = ''socks5h'' then
               (case socks endpoint of
                  Inl _ \<Rightarrow> Inl ''invalid OpenCode SOCKS proxy''
                | Inr ok \<Rightarrow>
                    if ok then Inr \<lparr> proxyEndpoint = Some endpoint, forwardVia = Socks endpoint \<rparr>
                    else Inl ''OpenCode proxy must support cancellation'')
             else if UScheme endpoint = ''http'' \<or> UScheme endpoint = ''https'' then
               Inr \<lparr> proxyEndpoint = Some endpoint, forwardVia = Direct \<rparr>
             else Inl ''unsupported OpenCode proxy scheme''))"

text \<open>The client on top answers redirects as they are (\<open>http.ErrUseLastResponse\<close>).\<close>

record httpClient =
  clTransport :: transport
  clFollowsRedirects :: bool

definition newNativeHTTPClient ::
    "(string \<Rightarrow> url option) \<Rightarrow> (url \<Rightarrow> string + bool) \<Rightarrow> string \<Rightarrow> string + httpClient" where
  "newNativeHTTPClient parse socks proxyURL =
     (case newNativeTransport parse socks proxyURL of
        Inl err \<Rightarrow> Inl err
      | Inr t \<Rightarrow> Inr \<lparr> clTransport = t, clFollowsRedirects = False \<rparr>)"

definition isHTTPProxy :: "url \<Rightarrow> bool" where
  "isHTTPProxy endpoint \<longleftrightarrow> UScheme endpoint = ''http'' \<or> UScheme endpoint = ''https''"

definition directNetwork :: "transport \<Rightarrow> string \<Rightarrow> string \<Rightarrow> string" where
  "directNetwork t network addr =
     (case SplitHostPort addr of
        Inr (hostname, _) \<Rightarrow>
          if proxyEndpoint t = None \<and> EqualFold hostname ''opencode.ai'' then ''tcp4'' else network
      | Inl _ \<Rightarrow> network)"

definition rawConn ::
    "wire \<Rightarrow> transport \<Rightarrow> string \<Rightarrow> string \<Rightarrow> conns \<Rightarrow> (string + nat) \<times> conns" where
  "rawConn w t network addr s =
     (case proxyEndpoint t of
        Some endpoint \<Rightarrow>
          if isHTTPProxy endpoint then nativeProxyConnect w endpoint addr s
          else dial w (forwardVia t) (directNetwork t network addr) addr s
      | None \<Rightarrow> dial w (forwardVia t) (directNetwork t network addr) addr s)"

definition DialTLSContext ::
    "wire \<Rightarrow> transport \<Rightarrow> string \<Rightarrow> string \<Rightarrow> conns \<Rightarrow> (string + nat) \<times> conns" where
  "DialTLSContext w t network addr s =
     (case rawConn w t network addr s of
        (Inl err, s') \<Rightarrow> (Inl err, s')
      | (Inr c, s') \<Rightarrow>
          (case SplitHostPort addr of
             Inl err \<Rightarrow> (Inl err, closeConn c s')
           | Inr (hostname, _) \<Rightarrow>
               (case wApplyPreset w nativeClientHelloSpec of
                  Some err \<Rightarrow> (Inl (''OpenCode TLS profile: '' @ err), closeConn c s')
                | None \<Rightarrow>
                    (case wHandshake w hostname of
                       Some err \<Rightarrow> (Inl (''OpenCode TLS handshake: '' @ err), closeConn c s')
                     | None \<Rightarrow>
                         (Inr c, s'\<lparr> secured := secured s' @ [(c, hostname, nativeClientHelloSpec)] \<rparr>)))))"

subsection \<open>Lemmas\<close>

definition conns_ok :: "conns \<Rightarrow> bool" where
  "conns_ok s \<longleftrightarrow> (\<forall>c\<in>openConns s. c < nextConn s)"

text \<open>What an attempt to connect does: no connection is left open but the one it returns.\<close>

definition kept_open :: "(string + nat) \<times> conns \<Rightarrow> conns \<Rightarrow> bool" where
  "kept_open r s \<longleftrightarrow>
     (case r of
        (Inl _, s') \<Rightarrow> openConns s' = openConns s
      | (Inr c, s') \<Rightarrow> openConns s' = insert c (openConns s) \<and> c \<notin> openConns s)"

lemma dial_kept: "conns_ok s \<Longrightarrow> kept_open (dial w v network addr s) s"
  by (auto simp: kept_open_def dial_def conns_ok_def Let_def split: option.splits)

lemma kept_open_close: "kept_open (Inr c, s') s \<Longrightarrow> kept_open (Inl err, closeConn c s') s"
  by (auto simp: kept_open_def closeConn_def)

lemma nativeProxyConnect_kept: "conns_ok s \<Longrightarrow> kept_open (nativeProxyConnect w endpoint target s) s"
  using dial_kept [of s w Direct "''tcp''" "proxyAddress endpoint"]
  by (auto simp: nativeProxyConnect_def intro: kept_open_close split: prod.splits sum.splits option.splits)

lemma rawConn_kept: "conns_ok s \<Longrightarrow> kept_open (rawConn w t network addr s) s"
  by (simp add: rawConn_def dial_kept nativeProxyConnect_kept split: option.splits)

lemma kept_open_secured: "kept_open (Inr c, s'\<lparr> secured := ts \<rparr>) s \<longleftrightarrow> kept_open (Inr c, s') s"
  by (simp add: kept_open_def)

lemma DialTLSContext_kept: "conns_ok s \<Longrightarrow> kept_open (DialTLSContext w t network addr s) s"
  using rawConn_kept [of s w t network addr]
  by (auto simp: DialTLSContext_def kept_open_secured intro: kept_open_close
      split: prod.splits sum.splits option.splits)

text \<open>A connection is only handed out after the TLS handshake with the host of the address.\<close>

definition handshaken :: "string \<Rightarrow> (string + nat) \<times> conns \<Rightarrow> conns \<Rightarrow> bool" where
  "handshaken addr r s \<longleftrightarrow>
     (case r of
        (Inl _, s') \<Rightarrow> secured s' = secured s
      | (Inr c, s') \<Rightarrow> (\<exists>hostname port. SplitHostPort addr = Inr (hostname, port) \<and>
          secured s' = secured s @ [(c, hostname, nativeClientHelloSpec)]))"

lemma closeConn_secured [simp]: "secured (closeConn c s) = secured s"
  by (simp add: closeConn_def)

lemma dial_secured: "secured (snd (dial w v network addr s)) = secured s"
  by (simp add: dial_def Let_def split: option.splits)

lemma nativeProxyConnect_secured: "secured (snd (nativeProxyConnect w endpoint target s)) = secured s"
  using dial_secured [of w Direct "''tcp''" "proxyAddress endpoint" s]
  by (auto simp: nativeProxyConnect_def split: prod.splits sum.splits option.splits)

lemma rawConn_secured: "secured (snd (rawConn w t network addr s)) = secured s"
  by (simp add: rawConn_def dial_secured nativeProxyConnect_secured split: option.splits)

lemma DialTLSContext_handshaken: "handshaken addr (DialTLSContext w t network addr s) s"
  using rawConn_secured [of w t network addr s]
  by (auto simp: DialTLSContext_def handshaken_def split: prod.splits sum.splits option.splits)

lemma closeConn_dials [simp]: "dials (closeConn c s) = dials s"
  by (simp add: closeConn_def)

lemma dial_dials: "dials (snd (dial w v network addr s)) = dials s @ [(v, network, addr)]"
  by (simp add: dial_def Let_def split: option.splits)

lemma DialTLSContext_dials_raw:
  "dials (snd (DialTLSContext w t network addr s)) = dials (snd (rawConn w t network addr s))"
  by (simp add: DialTLSContext_def split: prod.splits sum.splits option.splits)

lemma nativeProxyConnect_dials:
  "dials (snd (nativeProxyConnect w endpoint target s)) = dials s @ [(Direct, ''tcp'', proxyAddress endpoint)]"
  using dial_dials [of w Direct "''tcp''" "proxyAddress endpoint" s]
  by (auto simp: nativeProxyConnect_def split: prod.splits sum.splits option.splits)

text \<open>The way a connection to \<open>addr\<close> has to take for a proxy setting.\<close>

definition route ::
    "(string \<Rightarrow> url option) \<Rightarrow> string \<Rightarrow> string \<Rightarrow> string \<Rightarrow> via \<times> string \<times> string" where
  "route parse proxyURL network addr =
     (case (if normalizeNativeProxy proxyURL \<in> {[], ''direct://''} then None
            else parse (normalizeNativeProxy proxyURL)) of
        None \<Rightarrow>
          (Direct,
           case SplitHostPort addr of
             Inr (hostname, _) \<Rightarrow> if EqualFold hostname ''opencode.ai'' then ''tcp4'' else network
           | Inl _ \<Rightarrow> network, addr)
      | Some endpoint \<Rightarrow>
          if isHTTPProxy endpoint then (Direct, ''tcp'', proxyAddress endpoint)
          else (Socks endpoint, network, addr))"

lemma newNativeTransport_route:
  assumes "newNativeTransport parse socks proxyURL = Inr t"
  shows "dials (snd (DialTLSContext w t network addr s)) = dials s @ [route parse proxyURL network addr]"
proof (cases "normalizeNativeProxy proxyURL \<in> {[], ''direct://''}")
  case True
  then have "t = \<lparr> proxyEndpoint = None, forwardVia = Direct \<rparr>"
    using assms by (auto simp: newNativeTransport_def Let_def)
  with True show ?thesis
    by (auto simp: DialTLSContext_dials_raw rawConn_def dial_dials directNetwork_def route_def
        split: sum.splits)
next
  case False
  then obtain endpoint where p: "parse (normalizeNativeProxy proxyURL) = Some endpoint"
    and t: "proxyEndpoint t = Some endpoint"
      "forwardVia t = (if isHTTPProxy endpoint then Direct else Socks endpoint)"
    using assms
    by (auto simp: newNativeTransport_def isHTTPProxy_def Let_def split: option.splits if_splits sum.splits)
  then show ?thesis
    using False
    by (auto simp: DialTLSContext_dials_raw rawConn_def dial_dials nativeProxyConnect_dials
        directNetwork_def route_def split: sum.splits)
qed

subsection \<open>Properties\<close>

text \<open>
  C35. Connecting is safe, whatever the network answers: a failed attempt leaves no connection open
  and a successful one exactly the returned one; and exactly one address is dialled, the one
  the proxy setting demands: the HTTP proxy's, through the SOCKS proxy, or (without a proxy)
  the target itself, over IPv4 when it is the official host. A connection is only handed out
  after the TLS handshake that checked the name of the target's host.
\<close>

theorem upstream_dial_safe:
  assumes "newNativeTransport parse socks proxyURL = Inr t" "conns_ok s"
  shows "kept_open (DialTLSContext w t network addr s) s \<and>
    handshaken addr (DialTLSContext w t network addr s) s \<and>
    dials (snd (DialTLSContext w t network addr s)) = dials s @ [route parse proxyURL network addr]"
  using DialTLSContext_kept [OF assms(2)] DialTLSContext_handshaken newNativeTransport_route [OF assms(1)]
  by blast

definition sampleProxy :: url where
  "sampleProxy =
    \<lparr> UScheme = ''https'', UHostname = ''proxy.example'', UPort = [], UUser = Some (''u'', ''p''),
      URawQuery = [], UFragment = [], UPath = [], UString = ''https://u:p@proxy.example'' \<rparr>"

definition refusingWire :: wire where
  "refusingWire =
    \<lparr> wDial = (\<lambda>v n a. None), wProxyTLS = (\<lambda>h. None), wConnectWrite = (\<lambda>r. None),
      wConnectReply = Inr (407, 0), wApplyPreset = (\<lambda>h. None), wHandshake = (\<lambda>h. None) \<rparr>"

lemma upstream_dial_safe_witness:
  "let (r, s) = DialTLSContext refusingWire \<lparr> proxyEndpoint = Some sampleProxy, forwardVia = Direct \<rparr>
       ''tcp'' ''opencode.ai:443'' \<lparr> openConns = {}, nextConn = 0, dials = [], secured = [] \<rparr> in
   openConns s = {} \<and> dials s = [(Direct, ''tcp'', ''proxy.example:443'')]"
proof -
  let ?t = "\<lparr> proxyEndpoint = Some sampleProxy, forwardVia = Direct \<rparr>"
  let ?s = "\<lparr> openConns = {}, nextConn = 0, dials = [], secured = [] \<rparr>"
  let ?p = "''https://u:p@proxy.example''"
  have n: "normalizeNativeProxy ?p = ?p" by code_simp
  have t: "newNativeTransport (\<lambda>_. Some sampleProxy) (\<lambda>_. Inr True) ?p = Inr ?t"
    by (simp add: newNativeTransport_def n sampleProxy_def)
  have "conns_ok ?s" by (simp add: conns_ok_def)
  from upstream_dial_safe [OF t this, of refusingWire "''tcp''" "''opencode.ai:443''"]
  have d: "dials (snd (DialTLSContext refusingWire ?t ''tcp'' ''opencode.ai:443'' ?s)) =
      [(Direct, ''tcp'', ''proxy.example:443'')]"
    "kept_open (DialTLSContext refusingWire ?t ''tcp'' ''opencode.ai:443'' ?s) ?s"
    by (simp_all add: route_def n isHTTPProxy_def proxyAddress_def JoinHostPort_def sampleProxy_def)
  moreover have "isl (fst (DialTLSContext refusingWire ?t ''tcp'' ''opencode.ai:443'' ?s))"
    by (simp add: DialTLSContext_def rawConn_def isHTTPProxy_def nativeProxyConnect_def dial_def
        connectError_def refusingWire_def sampleProxy_def)
  ultimately show ?thesis
    by (auto simp: kept_open_def isl_def split: prod.splits)
qed

end
