(* ===== verification/Spec2Isabelle.thy ===== *)
theory Spec2Isabelle
  imports Body_Properties Session_Properties Native_Properties Intercept_Props Upstream_Props
    Ident_Order Lifetimes Entry Abi_Props Transport
begin

text \<open>
  A verification development for opencode-enhancer, the plugin of CLIProxyAPI in this repository.
  The plugin makes the proxy's upstream traffic to OpenCode Zen look like that of the official
  client: it rewrites the requests of free-tier models (headers, session and body), gives the
  other requests a session and a user agent, and it executes requests itself with credentials of
  its own.

  \<^bold>\<open>The parts and how they meet.\<close> The host loads a shared library and calls it with a method name
  and a JSON payload (main.go). \<open>HandleCall\<close> (plugin/plugin.go) dispatches on the name: the
  lifecycle calls install a configuration; \<open>request.intercept_after\<close> decides whether a request is
  a target and whether it is fingerprinted, and answers with headers and a body;
  \<open>request.complete\<close> and the \<open>executor.*\<close>, \<open>auth.*\<close> and \<open>model.*\<close> calls go to the native
  executor (plugin/native.go, native_execute.go), which sends an HTTP request over its own
  transport (native_transport.go), reads server-sent events and either merges them to one response
  or emits them to the host. The state the calls share is the \<open>Manager\<close> (configuration, cache of
  session ids, registry of running executions) and what logging.go keeps outside it (log level and
  the credentials already warned about); here both are the record \<open>Plugin\<close>.

  \<^bold>\<open>Theories and the code they model.\<close>
  \<^item> \<open>Prelude\<close>, \<open>Digest\<close>, \<open>Json\<close>, \<open>Structs\<close>: Go strings as byte lists with the functions of package
    strings the code uses, SHA-256 and SHA-1, decoded JSON values with Go's maps, decoding into
    structs. The order Go ranges over a map in is the order of an association list; a property that
    must not depend on it is stated for two lists with the same map.
  \<^item> \<open>Config\<close>: plugin/config.go. \<open>Types\<close>: plugin/types.go. \<open>Headers\<close>: http.Header and the lookups
    of plugin.go and target.go. \<open>Targets\<close>: plugin/target.go with path.Match.
  \<^item> \<open>Opencode\<close>: internal/opencodefingerprint. \<open>Useragent\<close>: plugin/useragent.go. \<open>Sessions\<close>:
    plugin/session.go. \<open>Ident\<close>: the identifiers of plugin/fingerprint.go.
  \<^item> \<open>Passes\<close>, \<open>Body\<close>: the body half of plugin/fingerprint.go. A function that edits the decoded
    body in place and reports whether it changed it is a \<open>pass\<close> that returns both.
  \<^item> \<open>Logging\<close>: plugin/logging.go and the setup warning. \<open>Auth\<close>: the credentials of
    plugin/native.go. \<open>Registry\<close>: the running executions, with the interleavings of concurrent calls
    as the step relation \<open>step\<close>. \<open>Sse\<close>, \<open>Completion\<close>, \<open>Execute\<close>: plugin/native_execute.go.
    \<open>Dispatch\<close>: plugin/plugin.go and \<open>handleNative\<close>. \<open>Calls\<close>: sequences of calls.
    \<open>Entry\<close>: main.go. \<open>Transport\<close>: plugin/native_transport.go, with the ClientHello it sends in
    \<open>Client_Hello\<close>.
  \<^item> \<open>Abi\<close>: what the structs that cross the interface are encoded as and decoded from, after their
    tags, with the bytes in base64 (\<open>Base64\<close>).

  Each operation has the name of its Go function. A method on the manager takes and returns the
  state; a Go error is a branch of a sum or an option; a type assertion without a check,
  an index out of range and a callback that does not return are a \<open>Panicked\<close> outcome (or None), so
  that the absence of panics is a theorem and not a convention.
  What the operating system supplies (clock, randomness, home directory) is one reading in the
  record \<open>env\<close> per call.

  \<^bold>\<open>What the lemmas show.\<close>
  \<^item> The locale \<open>body_pass\<close> and its extensions state what an edit of the body may touch and that a
    second run finds nothing to do; \<open>Body_Passes\<close> interprets them on every pass of the code,
    \<open>Body_Shape\<close> composes them, and \<open>Body_Properties\<close> reads off the properties: frame, idempotence,
    declared tools, the client's tools kept, environment block, input hygiene, token cap, streaming.
  \<^item> \<open>Session_Properties\<close>: which session and user agent a request gets, that a conversation
    keeps its session, that map order does not matter when no two names differ by case alone.
  \<^item> \<open>Native_Properties\<close> with \<open>Auth_Props\<close>, \<open>Sse_Props\<close> and \<open>Completion_Props\<close>: accepted credentials,
    the registry in every reachable interleaving, the event reader (what it hands on, and that it
    reads a rendered stream back), the merged completion as the concatenation of its pieces (the
    locale \<open>accumulator\<close>), the redaction of keys.
  \<^item> \<open>Ident_Order\<close>: identifiers sort by time. \<open>Lifetimes\<close>: calls interleaved with the streams the
    executor leaves running, and that nothing else is left running.
  \<^item> \<open>Dispatch_Props\<close>, \<open>Calls\<close>, \<open>Intercept_Props\<close>, \<open>Upstream_Props\<close> and this theory: the properties
    of the whole plugin over any sequence of calls (the locale \<open>served\<close>).
  \<^item> \<open>Abi_Props\<close>: encoding and decoding are inverse to each other, so the properties of the handlers
    hold for the bytes that cross the interface, and malformed bytes are rejected.
  \<^item> \<open>Entry\<close> and \<open>Transport\<close> hold the properties of the C interface and of dialling next to their
    models.

  \<^bold>\<open>Bounds and termination.\<close> No operation uses fuel: every loop is a total recursion, by structure
  or with a measure (the rest of the pattern in \<open>pathMatch\<close>, the rest of the input in the event
  reader). The turns of the event reader are counted once more by \<open>scanTurns\<close>, whose fuel is enough
  above the number of lines (\<open>lineCount\<close>). The limits of the code are kept: 8 MiB for
  an event, 64 MiB for a completion, 512 bytes for a session identity, \<open>2^31 - 1\<close> for a request through the C interface. Lengths there are
  64-bit words and C.int is a 32-bit word, so that the conversion wraps as it does in C; clock
  ticks and digests are words of their width.

  \<^bold>\<open>Parameters.\<close> Code outside the repository is an argument: the JSON codec (\<open>codec\<close>, with the laws
  \<open>codec_wf\<close> and \<open>codec_inverse\<close> where a property needs them), the decoder of the
  YAML configuration (\<open>yaml\<close>), the HTTP client (\<open>net\<close>), url.Parse,
  the SOCKS dialer, the network connections (\<open>wire\<close>) and the host behind its callback (\<open>chost\<close>, for
  the dispatcher whether a log line's callback returns: \<open>hostCaller\<close>, which \<open>cliproxy_plugin_init\<close>
  sets to \<open>logReturns\<close>). A property that assumes something of one
  has an instance with a concrete function. The decoders of the payloads and the encoder of the
  envelopes are arguments too (\<open>abi\<close>, \<open>enc\<close>); the code's are \<open>goAbi\<close> and \<open>envelopeText\<close>.

  \<^bold>\<open>Not modelled.\<close> The text of JSON and YAML (a decoded value is where the model begins, so a number has no
  literal); what the TLS library does with the ClientHello; time-outs, deadlines and
  cancellation, other than as an error a network call returns; a panic of the host's callback
  in the goroutine of a stream (it ends the process, after the deferred clean-up has run);
  how a reader cuts the stream into buffers, since the line scanner sees only their concatenation;
  interleavings of concurrent calls beyond those of the registry (elsewhere calls run one after
  another); the tests.
\<close>

section \<open>Properties of the whole plugin\<close>

subsection \<open>The state\<close>

text \<open>
  C5. Whatever calls the host makes, with whatever payloads, in whatever order: the
  configuration in force has passed \<open>validateConfig\<close>, every cached session id has the official
  shape, and the registry has one entry for an id.
\<close>

theorem state_invariant: "plugin_ok (serve a J nt yaml calls startPlugin)"
  by (rule serve_ok)

text \<open>
  C36. No call panics, after whatever calls, as long as the callback into the host returns: the two
  type assertions without \<open>ok\<close> hold and the index into the tool calls is in range, for every
  payload and every upstream answer. (Whether the callback returns is up to the host: it does
  when the host's answers fit, see \<open>init_callbackOK\<close>, and a long one makes the call panic, see
  \<open>log_panic\<close>. The other indexing, slicing and map accesses of the code are guarded where they
  stand, so they have no branch for a panic in the model.)
\<close>

theorem calls_never_panic:
  assumes "callbackOK (host p)"
  shows "fst (HandleCall a J nt yaml e e2 name payload (serve a J nt yaml calls p)) \<noteq> Panicked"
proof
  let ?p = "serve a J nt yaml calls p"
  assume "fst (HandleCall a J nt yaml e e2 name payload ?p) = Panicked"
  then have "hostPanicked (host (snd (HandleCall a J nt yaml e e2 name payload ?p)))"
    by (rule HandleCall_panics)
  moreover have "callbackOK (host (snd (HandleCall a J nt yaml e e2 name payload ?p)))"
    by (intro HandleCall_callbackOK serve_callbackOK assms)
  ultimately show False by (simp add: callbackOK_def)
qed

definition wiredPlugin :: "hostCaller \<Rightarrow> Plugin" where
  "wiredPlugin fn = startPlugin\<lparr> host := SetHostCaller (Some fn) (host startPlugin) \<rparr>"

lemma calls_never_panic_witness:
  "fst (HandleCall plainAbi sampleCodec offlineNet keepConfig sampleEnv sampleEnv
     ''request.intercept_after'' ''{}'' (wiredPlugin (\<lambda>sent. True))) \<noteq> Panicked"
proof -
  have "callbackOK (host (wiredPlugin (\<lambda>sent. True)))"
    by (simp add: callbackOK_def wiredPlugin_def SetHostCaller_def startPlugin_def)
  from calls_never_panic [OF this, where calls = "[]"] show ?thesis by (simp add: serve_def)
qed

text \<open>A callback that does not return takes the call with it.\<close>

lemma log_panic:
  "fst (HandleCall plainAbi sampleCodec offlineNet keepConfig sampleEnv sampleEnv
     ''request.intercept_after'' ''{}'' (wiredPlugin (\<lambda>sent. False))) = Panicked"
proof -
  have "\<not> isNativeAuth plainRequest" "\<not> isTarget plainRequest DefaultConfig" by code_simp+
  then have "\<not> shaped plainRequest (mcfg (manager (wiredPlugin (\<lambda>sent. False))))"
    by (simp add: shaped_def wiredPlugin_def startPlugin_def NewManager_def)
  then show ?thesis
    by (simp add: HandleCall_def handleInterceptAfter_def plainAbi_def interceptAfter_skip afterLog_def
        wiredPlugin_def startPlugin_def SetHostCaller_def logSkip_def logToHost_def logToHostAlways_def)
qed

text \<open>
  C21. Registering a configuration is all or nothing: when the payload decodes, its document loads
  and the configuration is valid, the answer is the registration and that very configuration is
  in force, with no execution left running, the warnings reset, the session ids kept and logging
  as it says; in every other case the answer is the error and the plugin is as it was. (Without
  a payload the document is the empty one.)
\<close>

theorem reconfigure_all_or_nothing:
  "let (out, p') = HandleCall a J nt yaml e e2 ''plugin.reconfigure'' payload p in
     (case (if payload = [] then Inr [] else dLifecycle a payload) of
        Inl err \<Rightarrow> out = CallError err \<and> p' = p
      | Inr doc \<Rightarrow>
          (case LoadConfig yaml doc of
             Inl err \<Rightarrow> out = Reply (ErrEnvelope ''invalid_config'' err) \<and> p' = p
           | Inr cfg \<Rightarrow>
               (case validateConfig cfg of
                  Some err \<Rightarrow> out = Reply (ErrEnvelope ''invalid_config'' err) \<and> p' = p
                | None \<Rightarrow>
                    out = Reply (OKEnvelope (RRegistered registration)) \<and>
                    mcfg (manager p') = cfg \<and> warnedAuths (manager p') = {} \<and>
                    sessionIDs (manager p') = sessionIDs (manager p) \<and> jobs p' = jobs p \<and>
                    nativeRequests (registry (manager p')) = [] \<and>
                    cancelled (registry (manager p')) =
                      cancelled (registry (manager p)) \<union> snd ` set (nativeRequests (registry (manager p))) \<and>
                    hostLogEnabled (host p') = BoolVal (LogEnabled (CLogging cfg)) DefaultLogEnabled)))"
proof -
  have "HandleCall a J nt yaml e e2 ''plugin.reconfigure'' payload p = handleLifecycle a yaml payload p"
    by (simp add: HandleCall_def)
  then show ?thesis
    by (auto simp: handleLifecycle_def onManager_def reconfigure_def
        cancelNativeRequests_eq applyLoggingConfig_def SetLogEnabled_def
        split: sum.splits option.splits)
qed

subsection \<open>Intercepted requests\<close>

definition freeRequest :: RequestInterceptRequest where
  "freeRequest = plainRequest\<lparr> Model := ''mimo-free'', RequestedModel := ''mimo-free'',
     ReqMetadata := [(''selected_auth_id'', JStr ''openai-compatible-opencode zen'')] \<rparr>"

lemma freeRequest_shaped:
  "shaped freeRequest DefaultConfig" "fingerprintApplies freeRequest DefaultConfig"
  "\<not> isNativeAuth freeRequest"
  by code_simp+

lemma startPlugin_cfg [simp]: "mcfg (manager startPlugin) = DefaultConfig"
  by (simp add: startPlugin_def NewManager_def)

lemma sessionName_default: "sessionName DefaultConfig ''X-Session-Id''"
  by code_simp

text \<open>
  C1. A fingerprinted request carries one session of the official shape, whatever the client sent
  and whatever is cached: the same one in all four session headers and the configured one
  (leaving out a session header that the operator also names as the header of the user agent,
  of the client, of the project or of the accepted types).
\<close>

theorem fingerprint_session_official:
  assumes "plugin_ok p" "shaped req (mcfg (manager p))" "fingerprintApplies req (mcfg (manager p))"
  shows "\<exists>v. isOpenCodeSessionID v \<and>
    (\<forall>n. sessionName (mcfg (manager p)) n \<longrightarrow>
       headerFirst (RespHeaders (fst (interceptAfter J e req p))) n = v)"
proof -
  obtain res v where "requestSession J e req (mcfg (manager p)) True = Some res"
    and v: "shapedSession e (Value res) (sessionIDs (manager p)) =
       (v, sessionIDs (manager (snd (interceptAfter J e req p))))"
      "\<And>n. sessionName (mcfg (manager p)) n \<Longrightarrow>
         headerFirst (RespHeaders (fst (interceptAfter J e req p))) n = v"
    by (rule fingerprint_response_session [OF assms(2,3), of J e]) blast
  have "cache_ok (sessionIDs (manager p))" using assms(1) by (simp add: plugin_ok_def)
  with shapedSession_id v show ?thesis by blast
qed

lemma fingerprint_session_official_witness:
  "isOpenCodeSessionID (headerFirst (RespHeaders (fst (interceptAfter sampleCodec sampleEnv freeRequest
     startPlugin))) ''X-Session-Id'')"
  using fingerprint_session_official [OF startPlugin_ok, of freeRequest sampleCodec sampleEnv]
    freeRequest_shaped sessionName_default by auto

text \<open>
  C2. A conversation keeps its upstream session: two fingerprinted requests with the same client
  identity get the same session, whatever calls the host makes in between (other
  conversations, executions, a new configuration), as long as the plugin is not shut down.
\<close>

theorem session_sticky_across_calls:
  assumes "p' = serve a J nt yaml calls (snd (interceptAfter J e req p))"
    and "\<forall>c\<in>set calls. keepsSessions c"
    and "shaped req (mcfg (manager p))" "fingerprintApplies req (mcfg (manager p))"
    and "shaped req' (mcfg (manager p'))" "fingerprintApplies req' (mcfg (manager p'))"
    and "sessionName (mcfg (manager p)) n" "sessionName (mcfg (manager p')) n"
    and "map_option Value (requestSession J e req (mcfg (manager p)) True) =
      map_option Value (requestSession J e' req' (mcfg (manager p')) True)"
  shows "headerFirst (RespHeaders (fst (interceptAfter J e req p))) n =
    headerFirst (RespHeaders (fst (interceptAfter J e' req' p'))) n"
proof -
  obtain res v where r: "requestSession J e req (mcfg (manager p)) True = Some res"
    "shapedSession e (Value res) (sessionIDs (manager p)) =
       (v, sessionIDs (manager (snd (interceptAfter J e req p))))"
    "\<And>n. sessionName (mcfg (manager p)) n \<Longrightarrow>
       headerFirst (RespHeaders (fst (interceptAfter J e req p))) n = v"
    by (rule fingerprint_response_session [OF assms(3,4), of J e]) blast
  obtain res' v' where r': "requestSession J e' req' (mcfg (manager p')) True = Some res'"
    "shapedSession e' (Value res') (sessionIDs (manager p')) =
       (v', sessionIDs (manager (snd (interceptAfter J e' req' p'))))"
    "\<And>n. sessionName (mcfg (manager p')) n \<Longrightarrow>
       headerFirst (RespHeaders (fst (interceptAfter J e' req' p'))) n = v'"
    by (rule fingerprint_response_session [OF assms(5,6), of J e']) blast
  have "cachedID (sessionIDs (manager p')) (Value res) = Some v"
    if "cachedID (sessionIDs (manager (snd (interceptAfter J e req p)))) (Value res) = Some v"
    unfolding assms(1) serve_def by (rule sticky_calls.kept_by_all [OF assms(2) that])
  then have "fst (shapedSession e' (Value res) (sessionIDs (manager p'))) = v"
    using shapedSession_again [OF r(2)] by blast
  then have "v' = v" using r'(2) assms(9) r(1) r'(1) by simp
  with r(3) r'(3) assms(7,8) show ?thesis by simp
qed

definition quietCall :: call where
  "quietCall = \<lparr> callEnv = sampleEnv, callEnv2 = sampleEnv, callMethod = ''request.intercept_before'',
     callPayload = [] \<rparr>"

lemma session_sticky_across_calls_witness:
  "headerFirst (RespHeaders (fst (interceptAfter sampleCodec sampleEnv freeRequest startPlugin))) ''X-Session-Id'' =
   headerFirst (RespHeaders (fst (interceptAfter sampleCodec (sampleEnv\<lparr> nowMillis := 5 \<rparr>) freeRequest
     (serve plainAbi sampleCodec offlineNet keepConfig [quietCall]
       (snd (interceptAfter sampleCodec sampleEnv freeRequest startPlugin)))))) ''X-Session-Id''"
proof (rule session_sticky_across_calls [OF refl])
  have c: "mcfg (manager (serve plainAbi sampleCodec offlineNet keepConfig [quietCall]
      (snd (interceptAfter sampleCodec sampleEnv freeRequest startPlugin)))) = DefaultConfig"
    by (simp add: serve_def oneCall_def HandleCall_def quietCall_def interceptAfter_keeps)
  then show "shaped freeRequest (mcfg (manager (serve plainAbi sampleCodec offlineNet keepConfig [quietCall]
      (snd (interceptAfter sampleCodec sampleEnv freeRequest startPlugin)))))"
    "fingerprintApplies freeRequest (mcfg (manager (serve plainAbi sampleCodec offlineNet keepConfig [quietCall]
      (snd (interceptAfter sampleCodec sampleEnv freeRequest startPlugin)))))"
    "sessionName (mcfg (manager (serve plainAbi sampleCodec offlineNet keepConfig [quietCall]
      (snd (interceptAfter sampleCodec sampleEnv freeRequest startPlugin))))) ''X-Session-Id''"
    using freeRequest_shaped sessionName_default by simp_all
  show "map_option Value (requestSession sampleCodec sampleEnv freeRequest (mcfg (manager startPlugin)) True) =
      map_option Value (requestSession sampleCodec (sampleEnv\<lparr> nowMillis := 5 \<rparr>) freeRequest
        (mcfg (manager (serve plainAbi sampleCodec offlineNet keepConfig [quietCall]
          (snd (interceptAfter sampleCodec sampleEnv freeRequest startPlugin))))) True)"
    unfolding c by (simp add: requestSession_def freeRequest_def plainRequest_def split: option.splits)
qed (use freeRequest_shaped sessionName_default in \<open>simp_all add: keepsSessions_def quietCall_def\<close>)

text \<open>
  C23. The setup warning names what is needed: a credential that declares the entries of the warning
  refers to exactly the headers the fingerprint path sets (besides \<open>User-Agent\<close>, which the
  entry for it takes from the configured header), and each of them has a value. The session
  header has to be a header name in the sense of HTTP.
\<close>

theorem glue_names_every_header:
  assumes "plugin_ok p" "shaped req (mcfg (manager p))" "fingerprintApplies req (mcfg (manager p))"
    and "\<not> isNativeAuth req"
    and "list_all isTokenByte (HeaderName (CSession (mcfg (manager p))))"
      "HeaderName (CSession (mcfg (manager p))) \<noteq> []"
  shows "headerNames (RespHeaders (fst (interceptAfter J e req p))) =
      insert ''User-Agent'' (CanonicalHeaderKey ` snd ` set (glueEntries (mcfg (manager p)))) \<and>
    filled (RespHeaders (fst (interceptAfter J e req p)))"
  using fingerprint_names [OF assms(1-4), of J e] glue_references [OF assms(5,6), of e] by simp

lemma glue_names_every_header_witness:
  "''B3'' \<in> headerNames (RespHeaders (fst (interceptAfter sampleCodec sampleEnv freeRequest startPlugin)))"
proof -
  have n: "list_all isTokenByte (HeaderName (CSession (mcfg (manager startPlugin))))"
    "HeaderName (CSession (mcfg (manager startPlugin))) \<noteq> []"
    unfolding startPlugin_cfg by code_simp+
  have "CanonicalHeaderKey ''B3'' = ''B3''" by code_simp
  moreover have "(''B3'', ''B3'') \<in> set (glueEntries DefaultConfig)"
    by (simp add: glueEntries_def Let_def)
  ultimately have "''B3'' \<in> CanonicalHeaderKey ` snd ` set (glueEntries DefaultConfig)"
    by (metis (no_types) image_eqI snd_conv)
  then show ?thesis
    using glue_names_every_header [OF startPlugin_ok _ _ _ n, of freeRequest sampleCodec sampleEnv]
      freeRequest_shaped by simp
qed

text \<open>
  C38. A credential is warned about once: after a fingerprinted request of a credential, no later
  request of the same credential adds a warning to the host's log, whatever calls come in
  between, until the plugin is configured or shut down.
\<close>

theorem warned_once:
  assumes "p' = serve a J nt yaml calls (snd (interceptAfter J e req p))"
    and "\<forall>c\<in>set calls. keepsWarnings c"
    and "shaped req (mcfg (manager p))" "fingerprintApplies req (mcfg (manager p))" "\<not> isNativeAuth req"
    and "BoolVal (WarnMissingGlue (CFingerprint (mcfg (manager p)))) DefaultFingerprintWarnGlue"
    and "metadataString (ReqMetadata req') ''selected_auth_id'' =
      metadataString (ReqMetadata req) ''selected_auth_id''"
  shows "warnings (snd (interceptAfter J e' req' p')) = warnings p'"
proof (rule interceptAfter_quiet)
  show "warnedFor (metadataString (ReqMetadata req') ''selected_auth_id'') p'"
    unfolding assms(1,7) serve_def
    by (rule warned_calls.kept_by_all [OF assms(2) interceptAfter_learns_warning [OF assms(3-6)]])
qed

lemma warned_once_witness:
  "warnings (snd (interceptAfter sampleCodec sampleEnv freeRequest
      (serve plainAbi sampleCodec offlineNet keepConfig [quietCall] (snd (interceptAfter sampleCodec sampleEnv freeRequest
        (startPlugin\<lparr> host := SetHostCaller (Some (\<lambda>sent. True)) (host startPlugin) \<rparr>)))))) =
   warnings (serve plainAbi sampleCodec offlineNet keepConfig [quietCall] (snd (interceptAfter sampleCodec sampleEnv freeRequest
        (startPlugin\<lparr> host := SetHostCaller (Some (\<lambda>sent. True)) (host startPlugin) \<rparr>))))"
proof -
  have "BoolVal (WarnMissingGlue (CFingerprint DefaultConfig)) DefaultFingerprintWarnGlue"
    by (simp add: DefaultConfig_def defaultFingerprintConfig_def DefaultFingerprintWarnGlue_def)
  then show ?thesis
    by (intro warned_once [OF refl])
      (use freeRequest_shaped in \<open>simp_all add: keepsWarnings_def quietCall_def\<close>)
qed

text \<open>
  C24. A request that is not targeted passes through: the answer is the empty one, with logging on
  or off, and all that changes is the line in the log; with logging off nothing does. (A panic of
  the host's log callback, see \<open>afterLog\<close>, ends the call.)
\<close>

theorem untargeted_passes_through:
  assumes "payload \<noteq> []" "dIntercept a payload = Inr req"
    and "\<not> isNativeAuth req" "\<not> isTarget req (mcfg (manager p))"
  shows "HandleCall a J nt yaml e e2 ''request.intercept_after'' payload p =
      (afterLog (logSkip req (host p)) (Reply (OKEnvelope (RIntercept emptyResponse))),
       p\<lparr> host := logSkip req (host p) \<rparr>) \<and>
    (\<not> hostLogEnabled (host p) \<longrightarrow> logSkip req (host p) = host p)"
proof -
  have "interceptAfter J e req p = (emptyResponse, p\<lparr> host := logSkip req (host p) \<rparr>)"
    using assms(3,4) by (intro interceptAfter_skip) (simp add: shaped_def)
  then show ?thesis using assms(1,2) by (simp add: HandleCall_def handleInterceptAfter_def logSkip_quiet)
qed

text \<open>With logging on, which is how the plugin starts.\<close>

lemma untargeted_passes_through_witness:
  "fst (HandleCall plainAbi sampleCodec offlineNet keepConfig sampleEnv sampleEnv ''request.intercept_after''
       ''{}'' (wiredPlugin (\<lambda>sent. True))) = Reply (OKEnvelope (RIntercept emptyResponse))"
proof -
  let ?p = "wiredPlugin (\<lambda>sent. True)"
  have c: "mcfg (manager ?p) = DefaultConfig" by (simp add: wiredPlugin_def)
  have "\<not> isNativeAuth plainRequest" "\<not> isTarget plainRequest DefaultConfig" by code_simp+
  moreover have "callbackOK (logSkip plainRequest (host ?p))"
    by (intro callbackOK_kept) (simp add: callbackOK_def wiredPlugin_def SetHostCaller_def startPlugin_def)
  ultimately show ?thesis
    using untargeted_passes_through [of "''{}''" plainAbi plainRequest ?p sampleCodec offlineNet keepConfig
        sampleEnv sampleEnv] c
    by (simp add: plainAbi_def afterLog_def callbackOK_def)
qed

text \<open>
  C22. A paid request is hardly touched: a request that is not fingerprinted keeps its body, none of
  its headers is removed, and the plugin remembers nothing about it. The headers of the answer,
  which the host puts over the client's, are at most the session header (only when a session was
  found and the client sends none there), the user agent and client headers the operator has
  switched on (\<open>rewrittenNames\<close>), and the two markers of a native credential's request.
\<close>

theorem paid_request_untouched:
  assumes "\<not> fingerprintApplies req (mcfg (manager p))"
  shows "RespBody (fst (interceptAfter J e req p)) = [] \<and>
    ClearHeaders (fst (interceptAfter J e req p)) = [] \<and>
    manager (snd (interceptAfter J e req p)) = manager p \<and>
    headerNames (RespHeaders (fst (interceptAfter J e req p))) \<subseteq>
      CanonicalHeaderKey ` (sessionNames J req (mcfg (manager p)) \<union> rewrittenNames (mcfg (manager p)) \<union>
        markerNames req)"
  using interceptAfter_plain [OF assms, of J e] interceptAfter_names [of J e req p]
    plain_names [OF assms, of J e "sessionIDs (manager p)"]
  by blast

definition sessionRequest :: RequestInterceptRequest where
  "sessionRequest = plainRequest\<lparr> ReqHeaders := [(''X-Opencode-Session'', [''abc''])] \<rparr>"

text \<open>A client with its own session in the configured header keeps it.\<close>

lemma paid_request_untouched_witness:
  "headerNames (RespHeaders (fst (interceptAfter sampleCodec sampleEnv sessionRequest
     (onManager (\<lambda>m. m\<lparr> mcfg := paidConfig \<rparr>) startPlugin)))) \<subseteq>
   CanonicalHeaderKey ` {outboundUAHeader paidConfig, ''User-Agent'', DefaultIdentityHeader}"
proof -
  let ?p = "onManager (\<lambda>m. m\<lparr> mcfg := paidConfig \<rparr>) startPlugin"
  have cfg: "mcfg (manager ?p) = paidConfig" by (simp add: onManager_def)
  have "\<not> isZenFreeTierModel ''big-free'' (CFreeTier paidConfig)"
    by (rule paid_never_free [of "''big-free''"]) (simp_all add: paidConfig_def)
  then have "\<not> fingerprintApplies sessionRequest paidConfig"
    by (simp add: fingerprintApplies_def sessionRequest_def plainRequest_def)
      (simp add: paidConfig_def DefaultConfig_def defaultFingerprintConfig_def DefaultFingerprintFreeOnly_def)
  moreover have "markerNames sessionRequest = {}" unfolding markerNames_def by code_simp
  moreover have "cleanSession (headerGet (ReqHeaders sessionRequest) (HeaderName (CSession paidConfig))) \<noteq> []"
    by code_simp
  then have "sessionNames sampleCodec sessionRequest paidConfig = {}" by (simp add: sessionNames_def)
  moreover have "rewrittenNames paidConfig \<subseteq> {outboundUAHeader paidConfig, ''User-Agent'', DefaultIdentityHeader}"
    by (simp add: rewrittenNames_def)
  ultimately show ?thesis
    using paid_request_untouched [of sessionRequest ?p sampleCodec sampleEnv] unfolding cfg by blast
qed

text \<open>
  C31. With \<open>hash_derived\<close> on, what the plugin puts into the configured session header for an
  identity taken from a client header or from the host's metadata: outside the fingerprint path
  its SHA-256 in hex; on the fingerprint path an official id that depends on the identity
  through its SHA-256 alone, except that an identity which already has the official shape is sent
  as it is, whatever \<open>hash_derived\<close> says. (The configured header is not one that the next step sets.)
\<close>

theorem derived_session_hashed:
  assumes "cfg = mcfg (manager p)" "shaped req cfg"
    and "resolveSessionID J req cfg (HeaderName (CSession cfg)) = Some res"
    and "Source res \<in> {''header'', ''metadata''}"
    and "BoolVal (HashDerived (CSession cfg)) DefaultHashDerived"
    and "CanonicalHeaderKey (HeaderName (CSession cfg)) \<notin> CanonicalHeaderKey ` set (identityNames cfg)"
  shows "headerFirst (RespHeaders (fst (interceptAfter J e req p))) (HeaderName (CSession cfg)) =
      (if \<not> fingerprintApplies req cfg then hexEncode (sha256 (stringBytes (Value res)))
       else if isOpenCodeSessionID (Value res) then Value res
       else fst (shapeSessionID e (Value res) (sessionIDs (manager p)))) \<and>
    (\<forall>w cache. sessionDigest w = sessionDigest (Value res) \<longrightarrow>
       shapeSessionID e w cache = shapeSessionID e (Value res) cache)"
proof (intro conjI allI impI)
  let ?name = "HeaderName (CSession cfg)"
  show "headerFirst (RespHeaders (fst (interceptAfter J e req p))) ?name =
      (if \<not> fingerprintApplies req cfg then hexEncode (sha256 (stringBytes (Value res)))
       else if isOpenCodeSessionID (Value res) then Value res
       else fst (shapeSessionID e (Value res) (sessionIDs (manager p))))"
  proof (cases "fingerprintApplies req cfg")
    case True
    have n: "sessionName cfg ?name" using assms(6) by (simp add: sessionName_def)
    obtain res' v where "requestSession J e req cfg True = Some res'"
      "shapedSession e (Value res') (sessionIDs (manager p)) =
         (v, sessionIDs (manager (snd (interceptAfter J e req p))))"
      "headerFirst (RespHeaders (fst (interceptAfter J e req p))) ?name = v"
      using fingerprint_response_session [OF assms(2) [unfolded assms(1)] True [unfolded assms(1)], of J e]
        n assms(1) by metis
    with True assms(3) show ?thesis
      by (auto simp: requestSession_def shapedSession_def split: if_splits)
  next
    case False
    have "Source res \<noteq> ''native''" using assms(4) by auto
    with plain_session_header [of req p J res e] False assms(2,3,6)
    have "headerFirst (RespHeaders (fst (interceptAfter J e req p))) ?name = sessionHeaderValue res cfg"
      unfolding assms(1) by blast
    with False assms(4,5) show ?thesis by (auto simp: sessionHeaderValue_def hashSession_def)
  qed
qed (rule shapeSessionID_digest)

text \<open>A paid request with a session of its client.\<close>

definition derivedRequest :: RequestInterceptRequest where
  "derivedRequest = clientRequest\<lparr> ReqMetadata := [(''selected_auth_id'', JStr ''openai-compatible-opencode zen'')] \<rparr>"

lemma derived_session_hashed_witness:
  "headerFirst (RespHeaders (fst (interceptAfter sampleCodec sampleEnv derivedRequest
     (onManager (\<lambda>m. m\<lparr> mcfg := paidConfig \<rparr>) startPlugin)))) (HeaderName (CSession paidConfig)) =
   hexEncode (sha256 (stringBytes ''abc''))"
proof -
  let ?p = "onManager (\<lambda>m. m\<lparr> mcfg := paidConfig \<rparr>) startPlugin"
  have cfg: "paidConfig = mcfg (manager ?p)" by (simp add: onManager_def)
  have "\<not> isZenFreeTierModel ''big-free'' (CFreeTier paidConfig)"
    by (rule paid_never_free [of "''big-free''"]) (simp_all add: paidConfig_def)
  then have plain: "\<not> fingerprintApplies derivedRequest paidConfig"
    by (simp add: fingerprintApplies_def derivedRequest_def clientRequest_def plainRequest_def)
      (simp add: paidConfig_def DefaultConfig_def defaultFingerprintConfig_def DefaultFingerprintFreeOnly_def)
  have "HeaderName (CSession paidConfig) = ''x-opencode-session''" by code_simp
  then have s: "resolveSessionID sampleCodec derivedRequest paidConfig (HeaderName (CSession paidConfig)) =
      Some \<lparr> Value = ''abc'', Source = ''header'', Stable = True \<rparr>"
    using clientRequest_session
    by (auto simp: resolveSessionID_def derivedRequest_def paidConfig_def Let_def split: option.splits if_splits)
  have "shaped derivedRequest paidConfig"
    "BoolVal (HashDerived (CSession paidConfig)) DefaultHashDerived"
    "CanonicalHeaderKey (HeaderName (CSession paidConfig)) \<notin> CanonicalHeaderKey ` set (identityNames paidConfig)"
    by code_simp+
  with derived_session_hashed [OF cfg _ s, of sampleEnv] plain show ?thesis by simp
qed

subsection \<open>Native executions\<close>

text \<open>
  C3. Every request the executor sends, in every state the calls can lead to, goes to the official
  endpoint of the accepted credential, with that credential's key, one official session in
  all session headers, and none of the hop-by-hop headers and internal markers. The key is in
  \<open>Authorization\<close>, unless the operator has named that header as the session header: then the
  session is sent there in its place. (Filtering
  the requests by \<open>upstreamOK\<close> before they reach the HTTP client changes nothing, whatever the
  filter would answer instead.)
\<close>

theorem upstream_requests_safe:
  "let m = manager (serve a J nt yaml calls startPlugin) in
   executeNative J (guarded_net (upstreamOK J nt (mcfg m) req) blocked nt) e e2 req stream m =
     executeNative J nt e e2 req stream m"
proof -
  define m where "m = manager (serve a J nt yaml calls startPlugin)"
  have "cache_ok (sessionIDs m)"
    using serve_ok [of a J nt yaml calls] by (simp add: m_def plugin_ok_def)
  then have "executeNative J (guarded_net (upstreamOK J nt (mcfg m) req) blocked nt) e e2 req stream m =
      executeNative J nt e e2 req stream m"
    by (intro executeNative_guarded) (simp add: upstreamOK_sent)
  then show ?thesis by (simp add: m_def Let_def)
qed

text \<open>
  C15. An execution leaves nothing running: when the reply is not a stream, every context that was
  created is cancelled and the registry holds nothing new; when it is, the same is true once
  the goroutine that serves the stream has ended, however the stream went.
\<close>

theorem execution_releases:
  "case executeNative J nt e e2 req stream m of
     (Some (OKEnv (Streaming hs job)), m') \<Rightarrow>
       settled (registry m) (registry (fst (runStream J fn job m' w)))
   | (reply, m') \<Rightarrow> settled (registry m) (registry m')"
proof -
  obtain reply m' where r: "executeNative J nt e e2 req stream m = (reply, m')" by fastforce
  show ?thesis
  proof (cases "\<exists>hs job. reply = Some (OKEnv (Streaming hs job))")
    case True
    then obtain hs job where reply: "reply = Some (OKEnv (Streaming hs job))" by blast
    have "settled (registry m) (registry (fst (runStream J fn job m' w)))"
      by (rule executeNative_streaming [OF r [unfolded reply]])
    then show ?thesis by (simp add: r reply)
  next
    case False
    then have "settled (registry m) (registry m')" using executeNative_settled [OF r] by blast
    with False r show ?thesis by (auto split: option.split envelope.split execReply.split)
  qed
qed

end
